(* ===== verification/Prelude.thy ===== *)
theory Prelude
  imports Main "HOL-Library.Word"
begin

text \<open>
  The prelude of the library: the value types of the Rust program (unsigned integers at their
  width, results, I/O errors), the byte-order conversions of the integer types, the blocking view
  of an asynchronous byte stream, and the generic facts on lists, results and words that the
  component theories share.

  A Rust \<open>Result<T, E>\<close> is the sum \<open>'e + 'a\<close>, written with the constructors \<open>Err\<close> and \<open>Ok\<close>;
  the question-mark operator is \<open>try_bind\<close>. A \<open>Vec<u8>\<close> is a list of 8-bit words.
\<close>

section \<open>Integers and results\<close>

type_synonym u8 = "8 word"
type_synonym u16 = "16 word"
type_synonym u32 = "32 word"
type_synonym u64 = "64 word"
type_synonym bytes = "u8 list"

abbreviation Ok :: "'a \<Rightarrow> 'e + 'a" where
  "Ok \<equiv> Inr"

abbreviation Err :: "'e \<Rightarrow> 'e + 'a" where
  "Err \<equiv> Inl"

fun try_bind :: "'e + 'a \<Rightarrow> ('a \<Rightarrow> 'e + 'b) \<Rightarrow> 'e + 'b" where
  "try_bind (Err e) f = Err e"
| "try_bind (Ok x) f = f x"

fun map_err :: "('e \<Rightarrow> 'f) \<Rightarrow> 'e + 'a \<Rightarrow> 'f + 'a" where
  "map_err f (Err e) = Err (f e)"
| "map_err f (Ok x) = Ok x"

fun is_ok :: "'e + 'a \<Rightarrow> bool" where
  "is_ok (Err e) = False"
| "is_ok (Ok x) = True"

definition ok_or :: "'e \<Rightarrow> 'a option \<Rightarrow> 'e + 'a" where
  "ok_or e x = (case x of None \<Rightarrow> Err e | Some v \<Rightarrow> Ok v)"

text \<open>\<open>Option<Result<T, E>>::transpose\<close> after a fallible map over an option.\<close>

definition transpose_map :: "('a \<Rightarrow> 'e + 'b) \<Rightarrow> 'a option \<Rightarrow> 'e + 'b option" where
  "transpose_map f x = (case x of None \<Rightarrow> Ok None | Some v \<Rightarrow> try_bind (f v) (\<lambda>w. Ok (Some w)))"

text \<open>The question-mark operator on an operation that also changes a state.\<close>

definition and_then :: "('e + 'a) \<times> 's \<Rightarrow> ('a \<Rightarrow> 's \<Rightarrow> ('e + 'b) \<times> 's) \<Rightarrow> ('e + 'b) \<times> 's" where
  "and_then x f = (case x of (Err e, s) \<Rightarrow> (Err e, s) | (Ok v, s) \<Rightarrow> f v s)"

definition err_map :: "('e \<Rightarrow> 'f) \<Rightarrow> ('e + 'a) \<times> 's \<Rightarrow> ('f + 'a) \<times> 's" where
  "err_map f x = (case x of (r, s) \<Rightarrow> (map_err f r, s))"

section \<open>Collections of facts\<close>

named_theorems sc_simps \<open>sequencing of operations on a state\<close>
named_theorems res_simps \<open>rewriting of results\<close>
named_theorems io_simps \<open>the byte-stream operations on concrete and partly known streams\<close>

lemma try_bind_Ok_iff [res_simps]: "try_bind r f = Ok y \<longleftrightarrow> (\<exists>x. r = Ok x \<and> f x = Ok y)"
  by (cases r) auto

lemma try_bind_Err_iff [res_simps]:
  "try_bind r f = Err e \<longleftrightarrow> r = Err e \<or> (\<exists>x. r = Ok x \<and> f x = Err e)"
  by (cases r) auto

lemma map_err_Ok_iff [res_simps]: "map_err f r = Ok x \<longleftrightarrow> r = Ok x"
  by (cases r) auto

lemma map_err_Err_iff [res_simps]: "map_err f r = Err e \<longleftrightarrow> (\<exists>d. r = Err d \<and> e = f d)"
  by (cases r) auto

lemma ok_or_Ok_iff [res_simps]: "ok_or e x = Ok v \<longleftrightarrow> x = Some v"
  by (auto simp: ok_or_def split: option.splits)

lemma ok_or_Err_iff [res_simps]: "ok_or e x = Err d \<longleftrightarrow> x = None \<and> d = e"
  by (auto simp: ok_or_def split: option.splits)

lemma transpose_map_None [simp]: "transpose_map f None = Ok None"
  by (simp add: transpose_map_def)

lemma transpose_map_Some [simp]:
  "transpose_map f (Some v) = try_bind (f v) (\<lambda>w. Ok (Some w))"
  by (simp add: transpose_map_def)

lemma transpose_map_Ok_Some_iff [res_simps]:
  "transpose_map f x = Ok (Some w) \<longleftrightarrow> (\<exists>v. x = Some v \<and> f v = Ok w)"
  by (cases x) (auto simp: res_simps)

lemma transpose_map_Ok_None_iff [res_simps]: "transpose_map f x = Ok None \<longleftrightarrow> x = None"
  by (cases x) (auto simp: res_simps)

lemma and_then_simps [sc_simps]:
  "and_then (Err e, s) f = (Err e, s)" "and_then (Ok v, s) f = f v s"
  by (simp_all add: and_then_def)

lemma err_map_simps [sc_simps]: "err_map f (Ok v, s) = (Ok v, s)" "err_map f (Err e, s) = (Err (f e), s)"
  by (simp_all add: err_map_def)

lemma and_then_Ok_iff:
  "and_then x f = (Ok v, s') \<longleftrightarrow> (\<exists>u s. x = (Ok u, s) \<and> f u s = (Ok v, s'))"
  by (auto simp: and_then_def split: prod.splits sum.splits)

lemma err_map_Ok_iff: "err_map f x = (Ok v, s) \<longleftrightarrow> x = (Ok v, s)"
  by (cases x) (simp add: err_map_def res_simps)

text \<open>What every operation keeps, a sequence of them keeps.\<close>

lemma and_then_keeps:
  "P (snd x) \<Longrightarrow> (\<And>v s. x = (Ok v, s) \<Longrightarrow> P s \<Longrightarrow> P (snd (f v s))) \<Longrightarrow> P (snd (and_then x f))"
  by (auto simp: and_then_def split: prod.split sum.split)

lemma err_map_snd [simp]: "snd (err_map f x) = snd x"
  by (cases x) (simp add: err_map_def)

text \<open>
  What holds of the state after an operation failed, and of the value and the state after it succeeded:
  the rules follow the two ways the program handles a result, the question mark and a match.
\<close>

definition ensures :: "('s \<Rightarrow> bool) \<Rightarrow> ('a \<Rightarrow> 's \<Rightarrow> bool) \<Rightarrow> ('e + 'a) \<times> 's \<Rightarrow> bool" where
  "ensures Q R x = (case x of (Err e, s) \<Rightarrow> Q s | (Ok v, s) \<Rightarrow> R v s)"

lemma ensures_simps [simp]: "ensures Q R (Err e, s) = Q s" "ensures Q R (Ok v, s) = R v s"
  by (simp_all add: ensures_def)

lemma ensures_and_then:
  "ensures Q R' x \<Longrightarrow> (\<And>v s. R' v s \<Longrightarrow> ensures Q R (f v s)) \<Longrightarrow> ensures Q R (and_then x f)"
  by (cases x; cases "fst x") (auto simp: and_then_simps)

lemma ensures_case:
  assumes "ensures Q' R' x" "\<And>e s. Q' s \<Longrightarrow> ensures Q R (f e s)" "\<And>v s. R' v s \<Longrightarrow> ensures Q R (g v s)"
  shows "ensures Q R (case x of (Err e, s) \<Rightarrow> f e s | (Ok v, s) \<Rightarrow> g v s)"
  using assms by (cases x; cases "fst x") auto

lemma ensures_err_map [simp]: "ensures Q R (err_map f x) = ensures Q R x"
  by (auto simp: ensures_def err_map_def split: prod.splits sum.splits)

lemma ensures_mono:
  "ensures Q R x \<Longrightarrow> (\<And>s. Q s \<Longrightarrow> Q' s) \<Longrightarrow> (\<And>v s. R v s \<Longrightarrow> R' v s) \<Longrightarrow> ensures Q' R' x"
  by (auto simp: ensures_def split: prod.splits sum.splits)

lemma ensures_pure: "Q s \<Longrightarrow> (\<And>v. r = Ok v \<Longrightarrow> R v s) \<Longrightarrow> ensures Q R (r, s)"
  by (cases r) auto

lemma ensures_try:
  "(\<And>e. r = Err e \<Longrightarrow> Q s) \<Longrightarrow> (\<And>v. r = Ok v \<Longrightarrow> ensures Q R (f v s)) \<Longrightarrow> ensures Q R (and_then (r, s) f)"
  by (cases r) (auto simp: and_then_simps)

lemma ensures_snd: "ensures P (\<lambda>_. P) x \<Longrightarrow> P (snd x)"
  by (cases x; cases "fst x") auto

lemma list_all_less_Suc: "list_all (\<lambda>i. i < n) xs \<Longrightarrow> list_all (\<lambda>i. i < Suc n) xs"
  by (auto simp: list_all_iff)

lemma list_all_less_notin: "list_all (\<lambda>i. i < n) xs \<Longrightarrow> n \<notin> set xs" for n :: nat
  by (induction xs) auto

lemma is_ok_iff: "is_ok r \<longleftrightarrow> (\<exists>x. r = Ok x)"
  by (cases r) auto

section \<open>Byte order\<close>

text \<open>
  \<open>to_le_bytes\<close>, \<open>from_le_bytes\<close>, \<open>to_be_bytes\<close> and \<open>from_be_bytes\<close> of the unsigned types, over
  the natural number a word denotes.
\<close>

fun nat_to_le :: "nat \<Rightarrow> nat \<Rightarrow> bytes" where
  "nat_to_le 0 n = []"
| "nat_to_le (Suc k) n = word_of_nat (n mod 256) # nat_to_le k (n div 256)"

fun nat_of_le :: "bytes \<Rightarrow> nat" where
  "nat_of_le [] = 0"
| "nat_of_le (b # bs) = unat b + 256 * nat_of_le bs"

definition u32_to_le_bytes :: "u32 \<Rightarrow> bytes" where
  "u32_to_le_bytes w = nat_to_le 4 (unat w)"

definition u32_from_le_bytes :: "bytes \<Rightarrow> u32" where
  "u32_from_le_bytes bs = word_of_nat (nat_of_le bs)"

definition u32_to_be_bytes :: "u32 \<Rightarrow> bytes" where
  "u32_to_be_bytes w = rev (nat_to_le 4 (unat w))"

definition u32_from_be_bytes :: "bytes \<Rightarrow> u32" where
  "u32_from_be_bytes bs = word_of_nat (nat_of_le (rev bs))"

definition u16_to_be_bytes :: "u16 \<Rightarrow> bytes" where
  "u16_to_be_bytes w = rev (nat_to_le 2 (unat w))"

definition u16_from_be_bytes :: "bytes \<Rightarrow> u16" where
  "u16_from_be_bytes bs = word_of_nat (nat_of_le (rev bs))"

lemma u8_bound: "unat (b :: u8) < 256"
  using unsigned_less [where 'a = nat, of b] by simp

lemma u16_bound: "unat (w :: u16) < 65536"
  using unsigned_less [where 'a = nat, of w] by simp

lemma u32_bound: "unat (w :: u32) < 2 ^ 32"
  using unsigned_less [where 'a = nat, of w] by simp

lemma unat_u8_of_mod [simp]: "unat (word_of_nat (n mod 256) :: u8) = n mod 256"
  by (simp add: unat_of_nat)

lemma length_nat_to_le [simp]: "length (nat_to_le k n) = k"
  by (induction k arbitrary: n) auto

lemma nat_of_le_to_le: "nat_of_le (nat_to_le k n) = n mod 256 ^ k"
  by (induction k arbitrary: n) (auto simp: mod_mult2_eq)

lemma nat_of_le_bound: "nat_of_le bs < 256 ^ length bs"
proof (induction bs)
  case (Cons b bs)
  have "unat b < 256" using unsigned_less [of b] by simp
  with Cons show ?case by simp
qed simp

lemma nat_to_le_of_le: "nat_to_le (length bs) (nat_of_le bs) = bs"
proof (induction bs)
  case (Cons b bs)
  have "unat b < 256" using unsigned_less [of b] by simp
  then show ?case using Cons by simp
qed simp

lemma length_u32_to_le_bytes [simp]: "length (u32_to_le_bytes w) = 4"
  by (simp add: u32_to_le_bytes_def)

lemma length_u32_to_be_bytes [simp]: "length (u32_to_be_bytes w) = 4"
  by (simp add: u32_to_be_bytes_def)

lemma length_u16_to_be_bytes [simp]: "length (u16_to_be_bytes w) = 2"
  by (simp add: u16_to_be_bytes_def)

lemma nat_of_le_to_le_unat [simp]:
  fixes w :: "'w::len word"
  assumes "LENGTH('w) = 8 * k"
  shows "nat_of_le (nat_to_le k (unat w)) = unat w"
proof -
  have "unat w < 256 ^ k"
    using unsigned_less [of w] assms by (simp add: power_mult)
  then show ?thesis by (simp add: nat_of_le_to_le)
qed

lemma u32_le_roundtrip [simp]: "u32_from_le_bytes (u32_to_le_bytes w) = w"
  by (simp add: u32_from_le_bytes_def u32_to_le_bytes_def)

lemma u32_be_roundtrip [simp]: "u32_from_be_bytes (u32_to_be_bytes w) = w"
  by (simp add: u32_from_be_bytes_def u32_to_be_bytes_def)

lemma u16_be_roundtrip [simp]: "u16_from_be_bytes (u16_to_be_bytes w) = w"
  by (simp add: u16_from_be_bytes_def u16_to_be_bytes_def)

lemma u32_le_bytes_inverse: "length bs = 4 \<Longrightarrow> u32_to_le_bytes (u32_from_le_bytes bs) = bs"
proof -
  assume len: "length bs = 4"
  then have "nat_of_le bs < 2 ^ 32" using nat_of_le_bound [of bs] by simp
  then have "unat (word_of_nat (nat_of_le bs) :: u32) = nat_of_le bs" by (simp add: unat_of_nat)
  then show ?thesis
    using nat_to_le_of_le [of bs] len by (simp add: u32_to_le_bytes_def u32_from_le_bytes_def)
qed

lemma unat_u32_of_nat: "n < 2 ^ 32 \<Longrightarrow> unat (word_of_nat n :: u32) = n"
  by (simp add: unat_of_nat)

lemma unat_u8_of_nat: "n < 256 \<Longrightarrow> unat (word_of_nat n :: u8) = n"
  by (simp add: unat_of_nat)

section \<open>Byte streams\<close>

text \<open>
  \<open>std::io::Error\<close>: the kinds the program inspects or creates, and every other kind.
  A stream read by \<open>AsyncRead\<close> is the bytes that will arrive (\<open>rx\<close>) and what happens after the
  last of them: the end of the stream, or an I/O error. Waiting for a byte has no effect on the
  state, so a read that completes is a function of this record. A stream written by
  \<open>AsyncWrite\<close> is the bytes accepted so far (\<open>tx\<close>), how many more it accepts before it fails
  (\<open>tx_quota\<close>, \<open>None\<close>: it never fails), the error it then reports, and what \<open>flush\<close> reports.
\<close>

datatype io_error_kind =
    UnexpectedEof | TimedOut | PermissionDenied | AlreadyExists | NotFound | NotConnected | AddrInUse
  | InvalidData | OtherKind nat

datatype io_error = IoError (io_kind: io_error_kind) (io_message: string)

record reader =
  rx :: bytes
  rx_end :: "io_error option"

record writer =
  tx :: bytes
  tx_quota :: "nat option"
  tx_error :: io_error
  tx_flush :: "io_error option"

text \<open>\<open>read\<close> into a buffer of one byte: the byte, \<open>None\<close> at the end of the stream, or an error.\<close>

definition read_one :: "reader \<Rightarrow> (io_error + u8 option) \<times> reader" where
  "read_one r = (case rx r of
      b # bs \<Rightarrow> (Ok (Some b), r\<lparr>rx := bs\<rparr>)
    | [] \<Rightarrow> (case rx_end r of None \<Rightarrow> (Ok None, r) | Some e \<Rightarrow> (Err e, r)))"

definition read_exact :: "nat \<Rightarrow> reader \<Rightarrow> (io_error + bytes) \<times> reader" where
  "read_exact n r =
    (if n \<le> length (rx r) then (Ok (take n (rx r)), r\<lparr>rx := drop n (rx r)\<rparr>)
     else (case rx_end r of
         None \<Rightarrow> (Err (IoError UnexpectedEof ''early eof''), r\<lparr>rx := []\<rparr>)
       | Some e \<Rightarrow> (Err e, r\<lparr>rx := []\<rparr>)))"

definition write_all :: "bytes \<Rightarrow> writer \<Rightarrow> (io_error + unit) \<times> writer" where
  "write_all bs w = (case tx_quota w of
      None \<Rightarrow> (Ok (), w\<lparr>tx := tx w @ bs\<rparr>)
    | Some n \<Rightarrow>
        if length bs \<le> n then (Ok (), w\<lparr>tx := tx w @ bs, tx_quota := Some (n - length bs)\<rparr>)
        else (Err (tx_error w), w\<lparr>tx := tx w @ take n bs, tx_quota := Some 0\<rparr>))"

definition flush :: "writer \<Rightarrow> (io_error + unit) \<times> writer" where
  "flush w = (case tx_flush w of None \<Rightarrow> (Ok (), w) | Some e \<Rightarrow> (Err e, w))"

text \<open>A writer that accepts everything.\<close>

definition open_writer :: "writer \<Rightarrow> bool" where
  "open_writer w \<longleftrightarrow> tx_quota w = None \<and> tx_flush w = None"

lemma read_exact_append [io_simps]:
  "n = length bs \<Longrightarrow> rx r = bs @ rest \<Longrightarrow> read_exact n r = (Ok bs, r\<lparr>rx := rest\<rparr>)"
  by (simp add: read_exact_def)

lemma read_exact_Ok_iff:
  "read_exact n r = (Ok bs, r') \<longleftrightarrow>
    n \<le> length (rx r) \<and> bs = take n (rx r) \<and> r' = r\<lparr>rx := drop n (rx r)\<rparr>"
  by (auto simp: read_exact_def split: option.splits)

lemma read_exact_length: "read_exact n r = (Ok bs, r') \<Longrightarrow> length bs = n"
  by (simp add: read_exact_Ok_iff)

lemma read_exact_rx_end [simp]: "rx_end (snd (read_exact n r)) = rx_end r"
  by (simp add: read_exact_def split: option.splits)

lemma write_all_open [io_simps]:
  "open_writer w \<Longrightarrow> write_all bs w = (Ok (), w\<lparr>tx := tx w @ bs\<rparr>)"
  by (simp add: write_all_def open_writer_def)

lemma flush_open [io_simps]: "open_writer w \<Longrightarrow> flush w = (Ok (), w)"
  by (simp add: flush_def open_writer_def)

lemma open_writer_tx [simp]: "open_writer (w\<lparr>tx := bs\<rparr>) = open_writer w"
  by (simp add: open_writer_def)

lemma write_all_appends: "\<exists>out. tx (snd (write_all bs w)) = tx w @ out"
  by (auto simp: write_all_def split: option.splits)

section \<open>Runs of a deterministic machine\<close>

text \<open>
  Several components are driven by a sequence of operations. \<open>invariant_machine\<close> is the
  interface of such a machine with an invariant that every operation keeps, and gives the
  invariant of every state a sequence of operations leads to.
\<close>

fun run_ops :: "('op \<Rightarrow> 's \<Rightarrow> 's) \<Rightarrow> 'op list \<Rightarrow> 's \<Rightarrow> 's" where
  "run_ops step [] s = s"
| "run_ops step (x # xs) s = run_ops step xs (step x s)"

lemma run_ops_append: "run_ops step (xs @ ys) s = run_ops step ys (run_ops step xs s)"
  by (induction xs arbitrary: s) auto

locale invariant_machine =
  fixes step :: "'op \<Rightarrow> 's \<Rightarrow> 's"
    and inv :: "'s \<Rightarrow> bool"
  assumes inv_step: "inv s \<Longrightarrow> inv (step x s)"
begin

lemma inv_run: "inv s \<Longrightarrow> inv (run_ops step xs s)"
  by (induction xs arbitrary: s) (auto intro: inv_step)

lemma inv_prefix: "inv s \<Longrightarrow> inv (run_ops step (take n xs) s)"
  by (rule inv_run)

end

section \<open>Framed channels\<close>

text \<open>
  A framed protocol writes a message as a self-delimiting byte string and reads it back from the
  front of a stream. The law relates one write to one read; the clients need it for a whole
  conversation, which is proved here once for all the wire formats of the program.
\<close>

fun read_many ::
    "(reader \<Rightarrow> ('e + 'm) \<times> reader) \<Rightarrow> nat \<Rightarrow> reader \<Rightarrow> ('e + 'm list) \<times> reader" where
  "read_many rd 0 r = (Ok [], r)"
| "read_many rd (Suc n) r = (case rd r of
      (Err e, r') \<Rightarrow> (Err e, r')
    | (Ok m, r') \<Rightarrow> (case read_many rd n r' of
          (Err e, r'') \<Rightarrow> (Err e, r'')
        | (Ok ms, r'') \<Rightarrow> (Ok (m # ms), r'')))"

locale framed_channel =
  fixes encode :: "'m \<Rightarrow> bytes"
    and decode :: "reader \<Rightarrow> ('e + 'm) \<times> reader"
    and valid :: "'m \<Rightarrow> bool"
  assumes decode_encode:
    "valid m \<Longrightarrow> rx r = encode m @ rest \<Longrightarrow> decode r = (Ok m, r\<lparr>rx := rest\<rparr>)"
begin

lemma decode_conversation:
  "list_all valid ms \<Longrightarrow> rx r = concat (map encode ms) @ rest
    \<Longrightarrow> read_many decode (length ms) r = (Ok ms, r\<lparr>rx := rest\<rparr>)"
proof (induction ms arbitrary: r)
  case Nil
  then show ?case by (cases r) simp
next
  case (Cons m ms)
  then have "decode r = (Ok m, r\<lparr>rx := concat (map encode ms) @ rest\<rparr>)"
    by (intro decode_encode) auto
  moreover from Cons have "read_many decode (length ms) (r\<lparr>rx := concat (map encode ms) @ rest\<rparr>)
      = (Ok ms, r\<lparr>rx := rest\<rparr>)"
    by simp
  ultimately show ?case by simp
qed

lemma encode_prefix_free:
  assumes "valid m" "valid m'" "encode m @ xs = encode m' @ ys"
  shows "m = m' \<and> xs = ys"
proof -
  let ?r = "\<lparr>rx = encode m @ xs, rx_end = None\<rparr>"
  have "decode ?r = (Ok m, ?r\<lparr>rx := xs\<rparr>)"
    using assms(1) by (intro decode_encode) auto
  moreover have "decode ?r = (Ok m', ?r\<lparr>rx := ys\<rparr>)"
    using assms by (intro decode_encode) auto
  ultimately show ?thesis by simp
qed

end

end
