(* ===== verification/Rust_Str.thy ===== *)
theory Rust_Str
  imports Prelude
begin

text \<open>
  The parts of Rust's \<open>str\<close>, \<open>char\<close> and \<open>u8\<close> interfaces that the program uses. A \<open>String\<close> is the
  list of its UTF-8 bytes, so \<open>len\<close> is \<open>length\<close> and \<open>as_bytes\<close> only changes the element type; the
  operations on characters (\<open>trim\<close>, \<open>is_control\<close>) first split the bytes into the encodings of the
  single characters and read their code points. ASCII filters and ASCII case conversion never
  touch a byte of a multi-byte character, so they work on bytes.
\<close>

section \<open>Bytes and ASCII classes\<close>

abbreviation code :: "char \<Rightarrow> nat" where
  "code c \<equiv> of_char c"

definition byte_of_char :: "char \<Rightarrow> u8" where
  "byte_of_char c = word_of_nat (code c)"

definition char_of_byte :: "u8 \<Rightarrow> char" where
  "char_of_byte b = char_of (unat b)"

definition as_bytes :: "string \<Rightarrow> bytes" where
  "as_bytes s = map byte_of_char s"

definition string_of_bytes :: "bytes \<Rightarrow> string" where
  "string_of_bytes bs = map char_of_byte bs"

definition is_ascii_digit :: "char \<Rightarrow> bool" where
  "is_ascii_digit c \<longleftrightarrow> 48 \<le> code c \<and> code c \<le> 57"

definition is_ascii_lower :: "char \<Rightarrow> bool" where
  "is_ascii_lower c \<longleftrightarrow> 97 \<le> code c \<and> code c \<le> 122"

definition is_ascii_upper :: "char \<Rightarrow> bool" where
  "is_ascii_upper c \<longleftrightarrow> 65 \<le> code c \<and> code c \<le> 90"

definition is_ascii_alphanumeric :: "char \<Rightarrow> bool" where
  "is_ascii_alphanumeric c \<longleftrightarrow> is_ascii_digit c \<or> is_ascii_lower c \<or> is_ascii_upper c"

text \<open>The test \<open>byte.is_ascii_digit() || (b'a'..=b'f').contains(byte)\<close>.\<close>

definition is_lower_hex :: "char \<Rightarrow> bool" where
  "is_lower_hex c \<longleftrightarrow> is_ascii_digit c \<or> (97 \<le> code c \<and> code c \<le> 102)"

definition to_ascii_uppercase :: "char \<Rightarrow> char" where
  "to_ascii_uppercase c = (if is_ascii_lower c then char_of (code c - 32) else c)"

definition to_ascii_lowercase :: "char \<Rightarrow> char" where
  "to_ascii_lowercase c = (if is_ascii_upper c then char_of (code c + 32) else c)"

text \<open>\<open>char::to_digit(radix)\<close> for radix 10 and 16.\<close>

definition to_digit :: "nat \<Rightarrow> char \<Rightarrow> nat option" where
  "to_digit radix c =
    (let v = (if is_ascii_digit c then Some (code c - 48)
              else if is_ascii_lower c then Some (code c - 87)
              else if is_ascii_upper c then Some (code c - 55)
              else None)
     in case v of None \<Rightarrow> None | Some d \<Rightarrow> if d < radix then Some d else None)"

section \<open>Characters of a UTF-8 string\<close>

definition is_continuation :: "char \<Rightarrow> bool" where
  "is_continuation c \<longleftrightarrow> 128 \<le> code c \<and> code c < 192"

text \<open>The encodings of the characters of a string, in order.\<close>

function chars :: "string \<Rightarrow> string list" where
  "chars [] = []"
| "chars (c # cs) = (c # takeWhile is_continuation cs) # chars (dropWhile is_continuation cs)"
  by pat_completeness auto
termination
  by (relation "measure length") (auto simp: le_imp_less_Suc length_dropWhile_le)

fun code_point :: "string \<Rightarrow> nat" where
  "code_point [a] = code a"
| "code_point [a, b] = (code a mod 32) * 64 + code b mod 64"
| "code_point [a, b, c] = (code a mod 16) * 4096 + (code b mod 64) * 64 + code c mod 64"
| "code_point [a, b, c, d] =
     (code a mod 8) * 262144 + (code b mod 64) * 4096 + (code c mod 64) * 64 + code d mod 64"
| "code_point _ = 65533"

text \<open>\<open>char::is_control\<close>: the Unicode category \<open>Cc\<close>; \<open>char::is_whitespace\<close>: \<open>White_Space\<close>.\<close>

definition is_control :: "string \<Rightarrow> bool" where
  "is_control ch \<longleftrightarrow> (let p = code_point ch in p < 32 \<or> (127 \<le> p \<and> p \<le> 159))"

definition is_whitespace :: "string \<Rightarrow> bool" where
  "is_whitespace ch \<longleftrightarrow> (let p = code_point ch in
     (9 \<le> p \<and> p \<le> 13) \<or> p = 32 \<or> p = 133 \<or> p = 160 \<or> p = 5760 \<or> (8192 \<le> p \<and> p \<le> 8202)
     \<or> p = 8232 \<or> p = 8233 \<or> p = 8239 \<or> p = 8287 \<or> p = 12288)"

definition has_control :: "string \<Rightarrow> bool" where
  "has_control s \<longleftrightarrow> list_ex is_control (chars s)"

definition trim_chars :: "string list \<Rightarrow> string list" where
  "trim_chars cs = rev (dropWhile is_whitespace (rev (dropWhile is_whitespace cs)))"

definition trim :: "string \<Rightarrow> string" where
  "trim s = concat (trim_chars (chars s))"

section \<open>Validity of UTF-8\<close>

definition in_range :: "nat \<Rightarrow> nat \<Rightarrow> u8 \<Rightarrow> bool" where
  "in_range lo hi b \<longleftrightarrow> lo \<le> unat b \<and> unat b \<le> hi"

definition cont :: "u8 \<Rightarrow> bool" where
  "cont b \<longleftrightarrow> in_range 128 191 b"

text \<open>The second byte that a three- or four-byte lead byte admits.\<close>

definition second_ok :: "u8 \<Rightarrow> u8 \<Rightarrow> bool" where
  "second_ok a b \<longleftrightarrow>
    (if unat a = 224 then in_range 160 191 b
     else if unat a = 237 then in_range 128 159 b
     else if unat a = 240 then in_range 144 191 b
     else if unat a = 244 then in_range 128 143 b
     else cont b)"

function valid_utf8 :: "bytes \<Rightarrow> bool" where
  "valid_utf8 [] = True"
| "valid_utf8 (a # r) =
    (if in_range 0 127 a then valid_utf8 r
     else if in_range 194 223 a then
       (case r of b # r' \<Rightarrow> cont b \<and> valid_utf8 r' | _ \<Rightarrow> False)
     else if in_range 224 239 a then
       (case r of b # c # r' \<Rightarrow> second_ok a b \<and> cont c \<and> valid_utf8 r' | _ \<Rightarrow> False)
     else if in_range 240 244 a then
       (case r of b # c # d # r' \<Rightarrow> second_ok a b \<and> cont c \<and> cont d \<and> valid_utf8 r' | _ \<Rightarrow> False)
     else False)"
  by pat_completeness auto
termination
  by (relation "measure length") auto

definition from_utf8 :: "bytes \<Rightarrow> string option" where
  "from_utf8 bs = (if valid_utf8 bs then Some (string_of_bytes bs) else None)"

definition replacement :: bytes where
  "replacement = [0xEF, 0xBF, 0xBD]"

text \<open>\<open>String::from_utf8_lossy\<close>: every maximal ill-formed sequence becomes \<open>U+FFFD\<close>.\<close>

function utf8_lossy :: "bytes \<Rightarrow> bytes" where
  "utf8_lossy [] = []"
| "utf8_lossy (a # r) =
    (if in_range 0 127 a then a # utf8_lossy r
     else if in_range 194 223 a then
       (case r of b # r' \<Rightarrow> if cont b then a # b # utf8_lossy r' else replacement @ utf8_lossy r
        | [] \<Rightarrow> replacement)
     else if in_range 224 239 a then
       (case r of
          b # r1 \<Rightarrow>
            if second_ok a b then
              (case r1 of c # r2 \<Rightarrow> if cont c then a # b # c # utf8_lossy r2 else replacement @ utf8_lossy r1
               | [] \<Rightarrow> replacement)
            else replacement @ utf8_lossy r
        | [] \<Rightarrow> replacement)
     else if in_range 240 244 a then
       (case r of
          b # r1 \<Rightarrow>
            if second_ok a b then
              (case r1 of
                 c # r2 \<Rightarrow>
                   if cont c then
                     (case r2 of d # r3 \<Rightarrow> if cont d then a # b # c # d # utf8_lossy r3
                                          else replacement @ utf8_lossy r2
                      | [] \<Rightarrow> replacement)
                   else replacement @ utf8_lossy r1
               | [] \<Rightarrow> replacement)
            else replacement @ utf8_lossy r
        | [] \<Rightarrow> replacement)
     else replacement @ utf8_lossy r)"
  by pat_completeness auto
termination
  by (relation "measure length") auto

section \<open>Searching and splitting\<close>

fun starts_with :: "string \<Rightarrow> string \<Rightarrow> bool" where
  "starts_with p [] = (p = [])"
| "starts_with p (c # cs) = (case p of [] \<Rightarrow> True | d # ds \<Rightarrow> c = d \<and> starts_with ds cs)"

definition strip_prefix :: "string \<Rightarrow> string \<Rightarrow> string option" where
  "strip_prefix p s = (if take (length p) s = p then Some (drop (length p) s) else None)"

definition strip_suffix :: "string \<Rightarrow> string \<Rightarrow> string option" where
  "strip_suffix p s = map_option rev (strip_prefix (rev p) (rev s))"

text \<open>\<open>str::split\<close> on the characters that satisfy a predicate: \<open>n\<close> separators give \<open>n + 1\<close> pieces.\<close>

fun split_on :: "(char \<Rightarrow> bool) \<Rightarrow> string \<Rightarrow> string list" where
  "split_on p [] = [[]]"
| "split_on p (c # cs) =
    (if p c then [] # split_on p cs
     else (case split_on p cs of [] \<Rightarrow> [[c]] | x # xs \<Rightarrow> (c # x) # xs))"

text \<open>\<open>str::contains\<close> and \<open>str::trim_end_matches\<close> with a string, \<open>str::lines\<close>, \<open>str::split_whitespace\<close>.\<close>

fun contains_str :: "string \<Rightarrow> string \<Rightarrow> bool" where
  "contains_str p [] = (p = [])"
| "contains_str p (c # cs) = (take (length p) (c # cs) = p \<or> contains_str p cs)"

function trim_end_matches :: "string \<Rightarrow> string \<Rightarrow> string" where
  "trim_end_matches p s =
    (if p \<noteq> [] \<and> length p \<le> length s \<and> drop (length s - length p) s = p
     then trim_end_matches p (take (length s - length p) s) else s)"
  by pat_completeness auto
termination
  by (relation "measure (\<lambda>(p, s). length s)") (auto simp: neq_Nil_conv)

declare trim_end_matches.simps [simp del]

definition strip_cr :: "string \<Rightarrow> string" where
  "strip_cr s = (if s \<noteq> [] \<and> last s = CHR 0x0D then butlast s else s)"

definition str_lines :: "string \<Rightarrow> string list" where
  "str_lines s =
    (let ps = split_on (\<lambda>c. c = CHR 0x0A) s; complete = map strip_cr (butlast ps)
     in if last ps = [] then complete else complete @ [last ps])"

fun split_chunks :: "(string \<Rightarrow> bool) \<Rightarrow> string list \<Rightarrow> string list list" where
  "split_chunks p [] = [[]]"
| "split_chunks p (c # cs) =
    (if p c then [] # split_chunks p cs
     else (case split_chunks p cs of [] \<Rightarrow> [[c]] | x # xs \<Rightarrow> (c # x) # xs))"

definition split_whitespace :: "string \<Rightarrow> string list" where
  "split_whitespace s = filter (\<lambda>w. w \<noteq> []) (map concat (split_chunks is_whitespace (chars s)))"

fun join :: "string \<Rightarrow> string list \<Rightarrow> string" where
  "join sep [] = []"
| "join sep [x] = x"
| "join sep (x # y # ys) = x @ sep @ join sep (y # ys)"

section \<open>Decimal numbers\<close>

definition digit_char :: "nat \<Rightarrow> char" where
  "digit_char d = ''0123456789'' ! d"

fun dec :: "nat \<Rightarrow> string" where
  "dec n = (if n < 10 then [digit_char n] else dec (n div 10) @ [digit_char (n mod 10)])"

declare dec.simps [simp del]

text \<open>The value of a digit string in a radix, most significant digit first.\<close>

definition digits_value :: "nat \<Rightarrow> nat list \<Rightarrow> nat" where
  "digits_value radix ds = foldl (\<lambda>a d. a * radix + d) 0 ds"

section \<open>Facts\<close>

lemma code_char_of [simp]: "n < 256 \<Longrightarrow> code (char_of n) = n"
  by (simp add: of_char_of)

lemma unat_byte_of_char [simp]: "unat (byte_of_char c) = code c"
  by (simp add: byte_of_char_def unat_u8_of_nat)

lemma char_of_byte_of_char [simp]: "char_of_byte (byte_of_char c) = c"
  by (simp add: char_of_byte_def)

lemma byte_of_char_of_byte [simp]: "byte_of_char (char_of_byte b) = b"
proof -
  have "unat b < 256" using unsigned_less [of b] by simp
  then show ?thesis by (simp add: byte_of_char_def char_of_byte_def)
qed

lemma string_of_as_bytes [simp]: "string_of_bytes (as_bytes s) = s"
  by (simp add: string_of_bytes_def as_bytes_def comp_def)

lemma as_bytes_of_string [simp]: "as_bytes (string_of_bytes bs) = bs"
  by (simp add: string_of_bytes_def as_bytes_def comp_def)

lemma length_as_bytes [simp]: "length (as_bytes s) = length s"
  by (simp add: as_bytes_def)

lemma length_string_of_bytes [simp]: "length (string_of_bytes bs) = length bs"
  by (simp add: string_of_bytes_def)

lemma as_bytes_inject [simp]: "as_bytes s = as_bytes t \<longleftrightarrow> s = t"
  by (metis string_of_as_bytes)

lemma as_bytes_append [simp]: "as_bytes (s @ t) = as_bytes s @ as_bytes t"
  by (simp add: as_bytes_def)

lemma char_eq_code: "c = d \<longleftrightarrow> code c = code d"
  using of_char_eq_iff [of c d] by auto

lemma valid_utf8_ascii: "list_all (in_range 0 127) bs \<Longrightarrow> valid_utf8 bs"
  by (induction bs) auto

lemma valid_utf8_ascii_string:
  "list_all (\<lambda>c. code c < 128) s \<Longrightarrow> valid_utf8 (as_bytes s)"
  by (rule valid_utf8_ascii) (auto simp: as_bytes_def list_all_iff in_range_def)

lemma from_utf8_ascii_string:
  "list_all (\<lambda>c. code c < 128) s \<Longrightarrow> from_utf8 (as_bytes s) = Some s"
  by (simp add: from_utf8_def valid_utf8_ascii_string)

subsection \<open>Trimming\<close>

lemma concat_chars [simp]: "concat (chars s) = s"
  by (induction s rule: chars.induct) auto

text \<open>A list of character encodings as \<open>chars\<close> produces it.\<close>

fun char_chunk :: "string \<Rightarrow> bool" where
  "char_chunk [] = False"
| "char_chunk (c # cs) = list_all is_continuation cs"

fun chunks_ok :: "string list \<Rightarrow> bool" where
  "chunks_ok [] = True"
| "chunks_ok (x # xs) =
    (char_chunk x \<and> list_all (\<lambda>y. char_chunk y \<and> \<not> is_continuation (hd y)) xs)"

lemma chunks_tail: "list_all (\<lambda>y. char_chunk y \<and> \<not> is_continuation (hd y)) xs \<Longrightarrow> chunks_ok xs"
  by (cases xs) auto

lemma takeWhile_all_append:
  "list_all P xs \<Longrightarrow> ys = [] \<or> \<not> P (hd ys) \<Longrightarrow> takeWhile P (xs @ ys) = xs"
  by (induction xs) (cases ys; auto)+

lemma dropWhile_all_append:
  "list_all P xs \<Longrightarrow> ys = [] \<or> \<not> P (hd ys) \<Longrightarrow> dropWhile P (xs @ ys) = ys"
  by (induction xs) (cases ys; auto)+

lemma concat_chunks_head:
  "list_all (\<lambda>y. char_chunk y \<and> \<not> is_continuation (hd y)) xs
    \<Longrightarrow> concat xs = [] \<or> \<not> is_continuation (hd (concat xs))"
proof (cases xs)
  case (Cons y ys)
  assume "list_all (\<lambda>y. char_chunk y \<and> \<not> is_continuation (hd y)) xs"
  with Cons show ?thesis by (cases y) auto
qed simp

lemma chars_concat: "chunks_ok xs \<Longrightarrow> chars (concat xs) = xs"
proof (induction xs)
  case (Cons x xs)
  then obtain c cs where x: "x = c # cs" and cs: "list_all is_continuation cs"
    and xs: "list_all (\<lambda>y. char_chunk y \<and> \<not> is_continuation (hd y)) xs"
    by (cases x) auto
  from xs have "concat xs = [] \<or> \<not> is_continuation (hd (concat xs))"
    by (rule concat_chunks_head)
  with cs have "chars (concat (x # xs)) = (c # cs) # chars (concat xs)"
    by (simp add: x takeWhile_all_append dropWhile_all_append)
  with Cons.IH [OF chunks_tail [OF xs]] show ?case by (simp add: x)
qed simp

lemma dropWhile_head: "dropWhile P xs = [] \<or> \<not> P (hd (dropWhile P xs))"
  by (induction xs) auto

lemma list_all_takeWhile [simp]: "list_all P (takeWhile P xs)"
  by (induction xs) auto

lemma chars_chunks_tail:
  "s = [] \<or> \<not> is_continuation (hd s)
    \<Longrightarrow> list_all (\<lambda>y. char_chunk y \<and> \<not> is_continuation (hd y)) (chars s)"
proof (induction s rule: chars.induct)
  case (2 c cs)
  from 2(1) [OF dropWhile_head] 2(2) show ?case by simp
qed simp

lemma chars_chunks_ok: "chunks_ok (chars s)"
  by (cases s) (simp_all add: chars_chunks_tail [OF dropWhile_head])

lemma chunks_ok_dropWhile: "chunks_ok xs \<Longrightarrow> chunks_ok (dropWhile P xs)"
  by (induction xs) (auto intro: chunks_tail)

lemma chunks_ok_append: "chunks_ok (xs @ ys) \<Longrightarrow> chunks_ok xs"
  by (cases xs) auto

lemma trim_chars_prefix: "\<exists>as bs. cs = as @ trim_chars cs @ bs"
proof -
  let ?d = "dropWhile is_whitespace cs"
  have "cs = takeWhile is_whitespace cs @ ?d" by simp
  moreover have "?d = trim_chars cs @ rev (takeWhile is_whitespace (rev ?d))"
    unfolding trim_chars_def by (metis rev_append rev_rev_ident takeWhile_dropWhile_id)
  ultimately show ?thesis by metis
qed

lemma chunks_ok_trim_chars: "chunks_ok cs \<Longrightarrow> chunks_ok (trim_chars cs)"
proof -
  assume "chunks_ok cs"
  then have "chunks_ok (dropWhile is_whitespace cs)" by (rule chunks_ok_dropWhile)
  moreover have "dropWhile is_whitespace cs
      = trim_chars cs @ rev (takeWhile is_whitespace (rev (dropWhile is_whitespace cs)))"
    unfolding trim_chars_def by (metis rev_append rev_rev_ident takeWhile_dropWhile_id)
  ultimately show ?thesis using chunks_ok_append by metis
qed

lemma chars_trim: "chars (trim s) = trim_chars (chars s)"
  unfolding trim_def by (intro chars_concat chunks_ok_trim_chars chars_chunks_ok)

lemma trim_chars_idem [simp]: "trim_chars (trim_chars cs) = trim_chars cs"
proof -
  let ?d = "dropWhile is_whitespace cs"
  have last: "trim_chars cs = [] \<or> \<not> is_whitespace (last (trim_chars cs))"
    unfolding trim_chars_def using hd_dropWhile [of is_whitespace "rev ?d"]
    by (auto simp: last_rev)
  have "?d = trim_chars cs @ rev (takeWhile is_whitespace (rev ?d))"
    unfolding trim_chars_def by (metis rev_append rev_rev_ident takeWhile_dropWhile_id)
  then have hd: "trim_chars cs = [] \<or> \<not> is_whitespace (hd (trim_chars cs))"
    by (metis hd_append2 hd_dropWhile append_is_Nil_conv)
  have "dropWhile is_whitespace (trim_chars cs) = trim_chars cs"
    using hd by (cases "trim_chars cs") auto
  moreover have "dropWhile is_whitespace (rev (trim_chars cs)) = rev (trim_chars cs)"
    using last by (cases "rev (trim_chars cs)") (auto simp: hd_rev [symmetric])
  ultimately show ?thesis by (simp add: trim_chars_def [of "trim_chars cs"])
qed

lemma trim_idem [simp]: "trim (trim s) = trim s"
  by (simp add: trim_def [of "trim s"] chars_trim) (simp add: trim_def)

lemma length_trim: "length (trim s) \<le> length s"
proof -
  obtain as bs where "chars s = as @ trim_chars (chars s) @ bs"
    using trim_chars_prefix by blast
  then have "s = concat as @ trim s @ concat bs"
    by (metis concat_append concat_chars trim_def)
  then have "length s = length (concat as @ trim s @ concat bs)" by simp
  then show ?thesis by simp
qed

subsection \<open>Prefixes, splitting and joining\<close>

lemma strip_prefix_iff: "strip_prefix p s = Some t \<longleftrightarrow> s = p @ t"
  by (auto simp: strip_prefix_def) (metis append_take_drop_id)

lemma strip_suffix_iff: "strip_suffix p s = Some t \<longleftrightarrow> s = t @ p"
  by (auto simp: strip_suffix_def strip_prefix_iff) (metis rev_append rev_rev_ident)+

lemma split_on_not_Nil [simp]: "split_on p s \<noteq> []"
  by (cases s) (auto split: list.splits)

lemma split_on_no_sep: "list_all (\<lambda>c. \<not> p c) s \<Longrightarrow> split_on p s = [s]"
  by (induction s) auto

lemma split_on_append_sep:
  "list_all (\<lambda>c. \<not> p c) s \<Longrightarrow> p c \<Longrightarrow> split_on p (s @ c # t) = s # split_on p t"
  by (induction s) auto

lemma split_join:
  assumes "xs \<noteq> []" "\<forall>x\<in>set xs. list_all (\<lambda>c. c \<noteq> sep) x"
  shows "split_on (\<lambda>c. c = sep) (join [sep] xs) = xs"
  using assms
proof (induction "[sep]" xs rule: join.induct)
  case (2 x)
  then show ?case by (simp add: split_on_no_sep)
next
  case (3 x y ys)
  then show ?case by (simp add: split_on_append_sep)
qed simp

subsection \<open>Decimal numbers\<close>

lemma less_10_cases: "(d :: nat) < 10 \<Longrightarrow> d \<in> {0, 1, 2, 3, 4, 5, 6, 7, 8, 9}"
  by auto

lemma code_digit_char [simp]: "d < 10 \<Longrightarrow> code (digit_char d) = 48 + d"
  by (drule less_10_cases) (auto simp: digit_char_def)

lemma is_ascii_digit_digit_char [simp]: "d < 10 \<Longrightarrow> is_ascii_digit (digit_char d)"
  by (simp add: is_ascii_digit_def)

lemma to_digit_digit_char [simp]: "d < 10 \<Longrightarrow> 10 \<le> radix \<Longrightarrow> to_digit radix (digit_char d) = Some d"
  by (simp add: to_digit_def)

lemma dec_not_Nil [simp]: "dec n \<noteq> []"
  by (subst dec.simps) simp

lemma dec_digits: "list_all is_ascii_digit (dec n)"
  by (induction n rule: dec.induct) (subst dec.simps, auto)

lemma dec_to_digit: "\<exists>ds. map (to_digit 10) (dec n) = map Some ds \<and> digits_value 10 ds = n"
proof (induction n rule: dec.induct)
  case (1 n)
  show ?case
  proof (cases "n < 10")
    case True
    then have "map (to_digit 10) (dec n) = map Some [n]" by (simp add: dec.simps [of n])
    then show ?thesis by (intro exI [of _ "[n]"]) (simp add: digits_value_def)
  next
    case False
    with 1 obtain ds where ds: "map (to_digit 10) (dec (n div 10)) = map Some ds"
      and v: "digits_value 10 ds = n div 10" by blast
    from False ds have "map (to_digit 10) (dec n) = map Some (ds @ [n mod 10])"
      by (simp add: dec.simps [of n])
    moreover from v have "digits_value 10 (ds @ [n mod 10]) = n"
      by (simp add: digits_value_def)
    ultimately show ?thesis by blast
  qed
qed

lemma dec_inject [simp]: "dec m = dec n \<longleftrightarrow> m = n"
proof
  assume eq: "dec m = dec n"
  obtain ds es where "map (to_digit 10) (dec m) = map Some ds" "digits_value 10 ds = m"
    and "map (to_digit 10) (dec n) = map Some es" "digits_value 10 es = n"
    using dec_to_digit by metis
  with eq have "map Some ds = map Some es" by simp
  then have "ds = es" by (simp add: inj_map_eq_map)
  with \<open>digits_value 10 ds = m\<close> \<open>digits_value 10 es = n\<close> show "m = n" by simp
qed simp

lemma dec_leading_zero: "hd (dec n) = digit_char 0 \<Longrightarrow> dec n = [digit_char 0]"
proof (induction n rule: dec.induct)
  case (1 n)
  show ?case
  proof (cases "n < 10")
    case True
    with 1(2) show ?thesis by (simp add: dec.simps [of n])
  next
    case False
    with 1(2) have "hd (dec (n div 10)) = digit_char 0"
      by (simp add: dec.simps [of n] hd_append)
    with 1(1) False have "dec (n div 10) = [digit_char 0]" by blast
    moreover have "dec 0 = [digit_char 0]" by (simp add: dec.simps)
    ultimately have "n div 10 = 0" using dec_inject by metis
    with False show ?thesis by simp
  qed
qed

lemma dec_length: "n < 10 ^ Suc m \<Longrightarrow> length (dec n) \<le> Suc m"
proof (induction m arbitrary: n)
  case (Suc m)
  have "n div 10 < 10 ^ Suc m" using Suc.prems by (simp add: less_mult_imp_div_less mult.commute)
  from Suc.IH [OF this] show ?case by (subst dec.simps) simp
qed (simp add: dec.simps)

lemma dec_length_le_3: "n < 1000 \<Longrightarrow> length (dec n) \<le> 3"
  by (simp add: dec.simps)

text \<open>Visible ASCII text has nothing to trim.\<close>

lemma chars_ascii: "list_all (\<lambda>c. code c < 128) s \<Longrightarrow> chars s = map (\<lambda>c. [c]) s"
proof (induction s)
  case (Cons c s)
  moreover from this have "takeWhile is_continuation s = [] \<and> dropWhile is_continuation s = s"
    by (cases s) (auto simp: is_continuation_def)
  ultimately show ?case by simp
qed simp

lemma trim_visible: "list_all (\<lambda>c. 33 \<le> code c \<and> code c < 127) s \<Longrightarrow> trim s = s"
proof -
  assume s: "list_all (\<lambda>c. 33 \<le> code c \<and> code c < 127) s"
  have no: "dropWhile is_whitespace (map (\<lambda>c. [c]) t) = map (\<lambda>c. [c]) t"
    if "list_all (\<lambda>c. 33 \<le> code c \<and> code c < 127) t" for t
    using that by (cases t) (auto simp: is_whitespace_def Let_def)
  have "chars s = map (\<lambda>c. [c]) s" using s by (intro chars_ascii) (auto simp: list_all_iff)
  then show ?thesis using no [OF s] no [of "rev s"] s
    by (simp add: trim_def trim_chars_def rev_map list_all_iff)
qed

lemma dec_visible: "list_all (\<lambda>c. 33 \<le> code c \<and> code c < 127) (dec n)"
  using dec_digits [of n] by (auto simp: list_all_iff is_ascii_digit_def)

text \<open>The definitions to evaluate string operations on literals with.\<close>

lemmas str_eval = trim_def trim_chars_def is_continuation_def is_whitespace_def has_control_def
  is_control_def dec.simps digit_char_def is_ascii_digit_def is_ascii_lower_def is_ascii_upper_def
  is_ascii_alphanumeric_def is_lower_hex_def to_ascii_uppercase_def to_ascii_lowercase_def

end
