(* ===== verification/Framing.thy ===== *)
theory Framing
  imports Rust_Str
begin

text \<open>
  The IPC wire protocol: \<open>protocol/mod.rs\<close> (the envelope and the message bodies) and
  \<open>protocol/framing.rs\<close> (a frame is a little-endian \<open>u32\<close> length and that many bytes of JSON).
  JSON encoding and decoding belong to \<open>serde_json\<close> and the clearing of buffers to \<open>zeroize\<close>;
  they are the arguments \<open>from_slice\<close>, \<open>to_vec\<close> and \<open>zeroize\<close> of the definitions.
\<close>

section \<open>Envelopes\<close>

definition PROTOCOL_VERSION :: u32 where
  "PROTOCOL_VERSION = 1"

definition MAX_FRAME_SIZE :: nat where
  "MAX_FRAME_SIZE = 1024 * 1024"

datatype json_error = JsonError (json_text: string)

record 'v envelope =
  env_protocol :: u32
  env_id :: string
  env_type :: string
  env_payload :: 'v

record hello_request =
  auth_token :: string
  client :: string
  client_version :: string

record hello_accepted =
  helper_version :: string
  capabilities :: "string list"

record error_response =
  err_code :: string
  err_message :: string
  err_retryable :: bool

text \<open>\<open>Envelope::response\<close>: the payload is converted with \<open>serde_json::to_value\<close>.\<close>

definition envelope_response ::
    "('p \<Rightarrow> json_error + 'v) \<Rightarrow> string \<Rightarrow> string \<Rightarrow> 'p \<Rightarrow> json_error + 'v envelope" where
  "envelope_response to_value rid message_type payload =
    try_bind (to_value payload) (\<lambda>v.
      Ok \<lparr>env_protocol = PROTOCOL_VERSION, env_id = rid, env_type = message_type,
          env_payload = v\<rparr>)"

section \<open>Frames\<close>

datatype frame_error =
    EndOfStream
  | TruncatedHeader
  | TruncatedPayload
  | InvalidLength u32
  | InvalidJson json_error
  | FrameIo io_error

text \<open>\<open>read_frame\<close> up to and including the payload: the raw body of the next frame.\<close>

definition read_body :: "reader \<Rightarrow> (frame_error + bytes) \<times> reader" where
  "read_body r = (case read_one r of
      (Ok None, r1) \<Rightarrow> (Err EndOfStream, r1)
    | (Err e, r1) \<Rightarrow> (Err (FrameIo e), r1)
    | (Ok (Some h), r1) \<Rightarrow> (case read_exact 3 r1 of
          (Err e, r2) \<Rightarrow>
            (Err (if io_kind e = UnexpectedEof then TruncatedHeader else FrameIo e), r2)
        | (Ok hs, r2) \<Rightarrow>
            let len = u32_from_le_bytes (h # hs) in
            if len = 0 \<or> MAX_FRAME_SIZE < unat len then (Err (InvalidLength len), r2)
            else (case read_exact (unat len) r2 of
                (Err e, r3) \<Rightarrow>
                  (Err (if io_kind e = UnexpectedEof then TruncatedPayload else FrameIo e), r3)
              | (Ok body, r3) \<Rightarrow> (Ok body, r3))))"

definition read_frame ::
    "(bytes \<Rightarrow> json_error + 'a) \<Rightarrow> reader \<Rightarrow> (frame_error + 'a) \<times> reader" where
  "read_frame from_slice r = (case read_body r of
      (Err e, r') \<Rightarrow> (Err e, r')
    | (Ok body, r') \<Rightarrow> (map_err InvalidJson (from_slice body), r'))"

definition write_frame ::
    "('a \<Rightarrow> json_error + bytes) \<Rightarrow> (bytes \<Rightarrow> bytes) \<Rightarrow> 'a \<Rightarrow> writer
      \<Rightarrow> (frame_error + unit) \<times> writer" where
  "write_frame to_vec zeroize v w = (case to_vec v of
      Err e \<Rightarrow> (Err (InvalidJson e), w)
    | Ok body \<Rightarrow>
        if body = [] \<or> MAX_FRAME_SIZE < length body
        then (let cleared = zeroize body
              in (Err (InvalidLength (word_of_nat (length cleared))), w))
        else (case write_all (u32_to_le_bytes (word_of_nat (length body))) w of
            (Err e, w1) \<Rightarrow> (Err (FrameIo e), w1)
          | (Ok _, w1) \<Rightarrow> (case write_all body w1 of
                (Err e, w2) \<Rightarrow> (Err (FrameIo e), w2)
              | (Ok _, w2) \<Rightarrow> (case flush w2 of
                    (Err e, w3) \<Rightarrow> (Err (FrameIo e), w3)
                  | (Ok _, w3) \<Rightarrow> (Ok (), w3)))))"

text \<open>
  The bytes of one frame, and the range of body lengths the protocol admits. \<open>frame_bytes\<close> is the
  specification that \<open>write_frame\<close> and \<open>read_body\<close> are related to below.
\<close>

definition frame_bytes :: "bytes \<Rightarrow> bytes" where
  "frame_bytes body = u32_to_le_bytes (word_of_nat (length body)) @ body"

definition body_ok :: "bytes \<Rightarrow> bool" where
  "body_ok body \<longleftrightarrow> body \<noteq> [] \<and> length body \<le> MAX_FRAME_SIZE"

text \<open>
  A pending \<open>read_frame\<close> whose future is dropped (another branch of \<open>select!\<close> finished first)
  has taken from the stream the bytes that had arrived. \<open>read_pending n r\<close> holds when the first
  \<open>n\<close> bytes of the stream do not complete the read; \<open>cancel_read n r\<close> is the stream afterwards.
\<close>

definition read_pending :: "nat \<Rightarrow> reader \<Rightarrow> bool" where
  "read_pending n r \<longleftrightarrow> n \<le> length (rx r) \<and>
    (n < 4 \<or>
     (let len = unat (u32_from_le_bytes (take 4 (rx r)))
      in 0 < len \<and> len \<le> MAX_FRAME_SIZE \<and> n < 4 + len))"

definition cancel_read :: "nat \<Rightarrow> reader \<Rightarrow> reader" where
  "cancel_read n r = r\<lparr>rx := drop n (rx r)\<rparr>"

section \<open>Facts\<close>

lemma body_ok_length: "body_ok body \<Longrightarrow> 0 < length body \<and> length body < 2 ^ 32"
  by (auto simp: body_ok_def MAX_FRAME_SIZE_def)

lemma unat_body_length: "body_ok body \<Longrightarrow> unat (word_of_nat (length body) :: u32) = length body"
  using body_ok_length by (blast intro: unat_u32_of_nat)

lemma length_frame_bytes [simp]: "length (frame_bytes body) = 4 + length body"
  by (simp add: frame_bytes_def)

lemma u32_le_split: "\<exists>h hs. u32_to_le_bytes w = h # hs \<and> length hs = 3"
  using length_u32_to_le_bytes [of w] by (cases "u32_to_le_bytes w") auto

lemma read_body_frame_bytes:
  assumes ok: "body_ok body" and rx: "rx r = frame_bytes body @ rest"
  shows "read_body r = (Ok body, r\<lparr>rx := rest\<rparr>)"
proof -
  let ?len = "word_of_nat (length body) :: u32"
  obtain h hs where h: "u32_to_le_bytes ?len = h # hs" "length hs = 3"
    using u32_le_split by blast
  have len: "unat ?len = length body" by (rule unat_body_length [OF ok])
  have nz: "?len \<noteq> 0" using ok len by (metis body_ok_def length_0_conv unsigned_0)
  have one: "read_one r = (Ok (Some h), r\<lparr>rx := hs @ body @ rest\<rparr>)"
    using rx by (simp add: read_one_def frame_bytes_def h)
  have hdr: "read_exact 3 (r\<lparr>rx := hs @ body @ rest\<rparr>) = (Ok hs, r\<lparr>rx := body @ rest\<rparr>)"
    using h(2) by (simp add: io_simps)
  have "u32_from_le_bytes (h # hs) = ?len" by (metis h(1) u32_le_roundtrip)
  moreover have "read_exact (length body) (r\<lparr>rx := body @ rest\<rparr>) = (Ok body, r\<lparr>rx := rest\<rparr>)"
    by (simp add: io_simps)
  ultimately show ?thesis
    using ok len nz by (simp add: read_body_def one hdr body_ok_def Let_def)
qed

interpretation ipc_frames: framed_channel frame_bytes read_body body_ok
  by unfold_locales (rule read_body_frame_bytes)

lemma write_frame_open:
  assumes "open_writer w" "to_vec v = Ok body" "body_ok body"
  shows "write_frame to_vec zeroize v w = (Ok (), w\<lparr>tx := tx w @ frame_bytes body\<rparr>)"
  using assms by (simp add: write_frame_def body_ok_def frame_bytes_def io_simps)

lemma write_frame_Ok:
  assumes "write_frame to_vec zeroize v w = (Ok (), w')"
  obtains body where "to_vec v = Ok body" "body_ok body" "tx w' = tx w @ frame_bytes body"
proof -
  from assms obtain body where b: "to_vec v = Ok body" "body_ok body"
    by (auto simp: write_frame_def body_ok_def not_less split: sum.splits if_splits)
  moreover from assms b have "tx w' = tx w @ frame_bytes body"
    by (auto simp: write_frame_def body_ok_def frame_bytes_def write_all_def flush_def not_less
             split: sum.splits if_splits option.splits)
  ultimately show ?thesis using that by blast
qed

lemma read_body_Ok:
  assumes "read_body r = (Ok body, r')"
  shows "body_ok body \<and> rx r = frame_bytes body @ rx r'"
proof -
  from assms obtain h r1 hs r2 where
    one: "read_one r = (Ok (Some h), r1)" and three: "read_exact 3 r1 = (Ok hs, r2)"
    and nz: "u32_from_le_bytes (h # hs) \<noteq> 0"
    and le: "unat (u32_from_le_bytes (h # hs)) \<le> MAX_FRAME_SIZE"
    and pay: "read_exact (unat (u32_from_le_bytes (h # hs))) r2 = (Ok body, r')"
    by (auto simp: read_body_def Let_def not_less split: prod.splits sum.splits option.splits if_splits)
  let ?len = "u32_from_le_bytes (h # hs)"
  from one have rx: "rx r = h # rx r1"
    by (auto simp: read_one_def split: list.splits option.splits)
  from three have hs: "rx r1 = hs @ rx r2" "length hs = 3"
    by (auto simp: read_exact_Ok_iff)
  from pay have b: "rx r2 = body @ rx r'" "length body = unat ?len"
    by (auto simp: read_exact_Ok_iff)
  have "u32_to_le_bytes ?len = h # hs"
    by (rule u32_le_bytes_inverse) (simp add: hs(2))
  then have "frame_bytes body = h # hs @ body"
    using b(2) by (simp add: frame_bytes_def)
  moreover have "body \<noteq> []"
    using b(2) nz by (metis length_0_conv unat_eq_zero)
  ultimately show ?thesis
    using rx hs b le by (simp add: body_ok_def)
qed

text \<open>Whatever its outcome, a read takes a bounded prefix of the stream.\<close>

lemma read_one_suffix: "\<exists>used. rx r = used @ rx (snd (read_one r)) \<and> length used \<le> 1"
  by (auto simp: read_one_def split: list.splits option.splits)

lemma read_exact_suffix: "\<exists>used. rx r = used @ rx (snd (read_exact n r)) \<and> length used \<le> n"
proof (cases "n \<le> length (rx r)")
  case True
  then show ?thesis by (intro exI [of _ "take n (rx r)"]) (simp add: read_exact_def)
next
  case False
  then show ?thesis by (intro exI [of _ "rx r"]) (simp add: read_exact_def split: option.splits)
qed

lemma read_body_suffix:
  "\<exists>used. rx r = used @ rx (snd (read_body r)) \<and> length used \<le> 4 + MAX_FRAME_SIZE"
proof -
  obtain o1 r1 where one: "read_one r = (o1, r1)" by (cases "read_one r")
  obtain o2 r2 where three: "read_exact 3 r1 = (o2, r2)" by (cases "read_exact 3 r1")
  from one obtain u1 where u1: "rx r = u1 @ rx r1" "length u1 \<le> 1"
    using read_one_suffix [of r] by auto
  from three obtain u2 where u2: "rx r1 = u2 @ rx r2" "length u2 \<le> 3"
    using read_exact_suffix [of r1 3] by auto
  have "snd (read_body r) = r1 \<or> snd (read_body r) = r2
      \<or> (\<exists>n \<le> MAX_FRAME_SIZE. snd (read_body r) = snd (read_exact n r2))"
    unfolding read_body_def one
    by (cases o1; cases o2) (auto simp: three Let_def not_less split: prod.split sum.split option.split)
  then consider "snd (read_body r) = r1" | "snd (read_body r) = r2"
    | n where "n \<le> MAX_FRAME_SIZE" "snd (read_body r) = snd (read_exact n r2)"
    by blast
  then show ?thesis
  proof cases
    case 3
    then obtain u3 where "rx r2 = u3 @ rx (snd (read_body r))" "length u3 \<le> MAX_FRAME_SIZE"
      using read_exact_suffix [of r2 n] by fastforce
    with u1 u2 show ?thesis by (intro exI [of _ "u1 @ u2 @ u3"]) simp
  qed (use u1 u2 in \<open>auto intro: exI [of _ "u1 @ u2"]\<close>)
qed

section \<open>Properties\<close>

text \<open>A sequence of messages through \<open>write_frame\<close>.\<close>

fun write_many ::
    "('a \<Rightarrow> json_error + bytes) \<Rightarrow> (bytes \<Rightarrow> bytes) \<Rightarrow> 'a list \<Rightarrow> writer \<Rightarrow> (frame_error + unit) \<times> writer" where
  "write_many to_vec zeroize [] w = (Ok (), w)"
| "write_many to_vec zeroize (v # vs) w = (case write_frame to_vec zeroize v w of
      (Err e, w') \<Rightarrow> (Err e, w')
    | (Ok _, w') \<Rightarrow> write_many to_vec zeroize vs w')"

lemma write_many_open:
  assumes "open_writer w" "list_all (\<lambda>v. to_vec v = Ok (enc v) \<and> body_ok (enc v)) vs"
  shows "write_many to_vec zeroize vs w = (Ok (), w\<lparr>tx := tx w @ concat (map (\<lambda>v. frame_bytes (enc v)) vs)\<rparr>)"
  using assms by (induction vs arbitrary: w) (simp_all add: write_frame_open)

lemma read_many_map:
  assumes "read_many read_body n r = (Ok bodies, r')" "list_all2 (\<lambda>b v. from_slice b = Ok v) bodies vs"
  shows "read_many (read_frame from_slice) n r = (Ok vs, r')"
  using assms
proof (induction n arbitrary: r bodies vs)
  case (Suc n)
  then obtain b r1 bs where b: "read_body r = (Ok b, r1)" "read_many read_body n r1 = (Ok bs, r')"
      "bodies = b # bs"
    by (auto split: prod.splits sum.splits)
  with Suc.prems(2) obtain v ws where "vs = v # ws" "from_slice b = Ok v"
      "list_all2 (\<lambda>b v. from_slice b = Ok v) bs ws"
    by (auto simp: list_all2_Cons1)
  with b Suc.IH [of r1 bs ws] show ?case by (simp add: read_frame_def)
qed simp

text \<open>C17: A conversation survives the wire. The messages one side writes with \<open>write_frame\<close> are
  read back by \<open>read_frame\<close> on the other, the same messages in the same order, and the reader is
  left exactly behind them; \<open>serde_json\<close> is assumed to read back what it wrote.\<close>

theorem frames_round_trip:
  assumes "open_writer w" "tx w = []"
    and "list_all (\<lambda>v. to_vec v = Ok (enc v) \<and> body_ok (enc v) \<and> from_slice (enc v) = Ok v) vs"
    and "rx r = tx (snd (write_many to_vec zeroize vs w)) @ rest"
  shows "fst (write_many to_vec zeroize vs w) = Ok ()
    \<and> read_many (read_frame from_slice) (length vs) r = (Ok vs, r\<lparr>rx := rest\<rparr>)"
proof -
  have vs: "list_all (\<lambda>v. to_vec v = Ok (enc v) \<and> body_ok (enc v)) vs"
    and ok: "list_all body_ok (map enc vs)"
    and dec: "list_all2 (\<lambda>b v. from_slice b = Ok v) (map enc vs) vs"
    using assms(3) by (auto simp: list_all_iff list_all2_conv_all_nth)
  note w = write_many_open [OF assms(1) vs, of zeroize]
  have "rx r = concat (map frame_bytes (map enc vs)) @ rest"
    using assms(2,4) by (simp add: w comp_def)
  from ipc_frames.decode_conversation [OF ok this]
  have "read_many read_body (length vs) r = (Ok (map enc vs), r\<lparr>rx := rest\<rparr>)" by simp
  with w read_many_map [OF _ dec] show ?thesis by simp
qed

theorem frames_round_trip_witness:
  "case write_many (\<lambda>b. Ok b) (\<lambda>_. []) [[7, 8], [9]]
      \<lparr>tx = [], tx_quota = None, tx_error = IoError UnexpectedEof [], tx_flush = None\<rparr> of (res, w) \<Rightarrow>
     res = Ok () \<and> read_many (read_frame (\<lambda>b. Ok b)) (length [[7, 8], [9 :: u8]]) \<lparr>rx = tx w @ [5], rx_end = None\<rparr>
       = (Ok [[7, 8], [9]], \<lparr>rx = [5], rx_end = None\<rparr>)"
proof -
  let ?w = "\<lparr>tx = [], tx_quota = None, tx_error = IoError UnexpectedEof [], tx_flush = None\<rparr>"
  let ?out = "write_many (\<lambda>b. Ok b) (\<lambda>_. []) [[7, 8], [9]] ?w"
  have "fst ?out = Ok () \<and> read_many (read_frame (\<lambda>b. Ok b)) (length [[7, 8], [9 :: u8]])
      \<lparr>rx = tx (snd ?out) @ [5], rx_end = None\<rparr> = (Ok [[7, 8], [9]], \<lparr>rx = tx (snd ?out) @ [5], rx_end = None\<rparr>\<lparr>rx := [5]\<rparr>)"
    by (rule frames_round_trip [where enc = "\<lambda>b. b"]) (simp_all add: open_writer_def body_ok_def MAX_FRAME_SIZE_def)
  then show ?thesis by (simp only: case_prod_beta reader.update_convs)
qed

text \<open>The length of a frame is checked before its payload is read: with a zero length or one
  above a megabyte, exactly the four bytes of the header are taken and the length is reported; in
  every case a read takes at most one frame of the maximal size.\<close>

theorem read_frame_bounded:
  "(\<exists>used. rx r = used @ rx (snd (read_frame from_slice r)) \<and> length used \<le> 4 + MAX_FRAME_SIZE)
    \<and> (case rx r of a # b # c # d # rest \<Rightarrow>
         let len = u32_from_le_bytes [a, b, c, d] in
         if len = 0 \<or> MAX_FRAME_SIZE < unat len
         then read_frame from_slice r = (Err (InvalidLength len), r\<lparr>rx := rest\<rparr>)
         else (\<forall>l. fst (read_frame from_slice r) \<noteq> Err (InvalidLength l))
       | _ \<Rightarrow> True)"
proof -
  have snd: "snd (read_frame from_slice r) = snd (read_body r)"
    by (simp add: read_frame_def split: prod.split sum.split)
  have hdr: "read_body r = (let len = u32_from_le_bytes [a, b, c, d] in
      if len = 0 \<or> MAX_FRAME_SIZE < unat len then (Err (InvalidLength len), r\<lparr>rx := rest\<rparr>)
      else (case read_exact (unat len) (r\<lparr>rx := rest\<rparr>) of
          (Err e, r3) \<Rightarrow> (Err (if io_kind e = UnexpectedEof then TruncatedPayload else FrameIo e), r3)
        | (Ok body, r3) \<Rightarrow> (Ok body, r3)))"
    if "rx r = a # b # c # d # rest" for a b c d rest
    using that by (simp add: read_body_def read_one_def read_exact_def)
  have "case rx r of a # b # c # d # rest \<Rightarrow>
         let len = u32_from_le_bytes [a, b, c, d] in
         if len = 0 \<or> MAX_FRAME_SIZE < unat len
         then read_frame from_slice r = (Err (InvalidLength len), r\<lparr>rx := rest\<rparr>)
         else (\<forall>l. fst (read_frame from_slice r) \<noteq> Err (InvalidLength l))
       | _ \<Rightarrow> True"
    by (auto simp: hdr read_frame_def Let_def res_simps split: list.split prod.split sum.split)
  with read_body_suffix [of r] show ?thesis by (simp only: snd)
qed

text \<open>A stream cut anywhere inside a frame is reported as what it is: the end of the stream
  before the first byte, a truncated header inside the header, a truncated payload inside the
  payload; never a message.\<close>

theorem truncated_frame_detected:
  assumes "body_ok body" "n < length (frame_bytes body)" "rx r = take n (frame_bytes body)" "rx_end r = None"
  shows "fst (read_frame from_slice r) =
    Err (if n = 0 then EndOfStream else if n < 4 then TruncatedHeader else TruncatedPayload)"
proof -
  let ?len = "word_of_nat (length body) :: u32"
  obtain h hs where h: "u32_to_le_bytes ?len = h # hs" "length hs = 3" using u32_le_split by blast
  have len: "unat ?len = length body" by (rule unat_body_length [OF assms(1)])
  have le: "u32_from_le_bytes (h # hs) = ?len" by (metis h(1) u32_le_roundtrip)
  have nz: "?len \<noteq> 0" "length body \<le> MAX_FRAME_SIZE"
    using assms(1) len by (auto simp: body_ok_def unat_eq_zero)
  consider "n = 0" | "0 < n" "n < 4" | "4 \<le> n" by linarith
  then have "fst (read_body r) =
      Err (if n = 0 then EndOfStream else if n < 4 then TruncatedHeader else TruncatedPayload)"
  proof cases
    case 1
    with assms(3,4) show ?thesis by (simp add: read_body_def read_one_def)
  next
    case 2
    then have "rx r = h # take (n - 1) hs"
      using assms(3) h by (cases n) (simp_all add: frame_bytes_def)
    moreover have "\<not> 3 \<le> n - Suc 0" using 2 by simp
    ultimately show ?thesis using 2 assms(4) h by (simp add: read_body_def read_one_def read_exact_def)
  next
    case 3
    then obtain m where m: "n = 4 + m" by (metis le_Suc_ex)
    then have "rx r = h # hs @ take m body" "m < length body"
      using assms(2,3) h by (simp_all add: frame_bytes_def numeral_eq_Suc)
    with 3 assms(4) h nz show ?thesis
      by (simp add: read_body_def read_one_def read_exact_def le len Let_def)
  qed
  then show ?thesis by (cases "read_body r") (simp add: read_frame_def)
qed

theorem truncated_frame_detected_witness:
  "fst (read_frame (\<lambda>b. Ok b) \<lparr>rx = take 5 (frame_bytes [7, 8]), rx_end = None\<rparr>)
    = (Err TruncatedPayload :: frame_error + bytes)"
  using truncated_frame_detected [of "[7, 8]" 5 "\<lparr>rx = take 5 (frame_bytes [7, 8]), rx_end = None\<rparr>" "\<lambda>b. Ok b"]
  by (simp add: body_ok_def MAX_FRAME_SIZE_def)

text \<open>A message too large for a frame is refused before anything is written, but the length in
  the error is always 0, because the buffer is cleared before its length is taken (clearing a
  vector also empties it).\<close>

theorem oversize_reported_as_zero:
  assumes "to_vec v = Ok body" "MAX_FRAME_SIZE < length body" "\<And>bs. zeroize bs = []"
  shows "write_frame to_vec zeroize v w = (Err (InvalidLength 0), w)"
  using assms by (simp add: write_frame_def)

definition closed_writer :: writer where
  "closed_writer = \<lparr>tx = [], tx_quota = Some 0, tx_error = IoError NotConnected [], tx_flush = None\<rparr>"

theorem oversize_reported_as_zero_witness:
  "write_frame (\<lambda>n. Ok (replicate n 0)) (\<lambda>_. []) 1048577 closed_writer = (Err (InvalidLength 0), closed_writer)"
  by (rule oversize_reported_as_zero [where body = "replicate 1048577 0"]) (simp_all add: MAX_FRAME_SIZE_def)

end
