(* ===== verification/Bootstrap_Cli.thy ===== *)
theory Bootstrap_Cli
  imports Framing
begin

text \<open>
  Start-up of the Helper process: \<open>error.rs\<close> (the errors that end the process and their exit
  codes), \<open>bootstrap.rs\<close> (the session secret read from standard input) and \<open>cli.rs\<close> (validation of
  the command line). The checks of the endpoint and the rules for absolute paths are modelled for both
  platforms, since the two are alternatives of one function.
\<close>

section \<open>Errors\<close>

datatype helper_error =
    InvalidArguments string
  | InvalidBootstrapSecret
  | HelperIpc io_error
  | HelperProtocol frame_error
  | HelperParent string

fun exit_code :: "helper_error \<Rightarrow> u8" where
  "exit_code (InvalidArguments m) = 2"
| "exit_code InvalidBootstrapSecret = 3"
| "exit_code (HelperIpc e) = 4"
| "exit_code (HelperProtocol e) = 5"
| "exit_code (HelperParent m) = 6"

section \<open>The bootstrap secret\<close>

text \<open>
  \<open>reader.take(65).read_to_end(&mut bytes)\<close>: the stream is asked for at most 65 bytes, so an error
  behind the 65th byte is not seen.
\<close>

definition take_to_end :: "nat \<Rightarrow> reader \<Rightarrow> io_error + bytes" where
  "take_to_end n r = (if n \<le> length (rx r) then Ok (take n (rx r))
     else (case rx_end r of None \<Rightarrow> Ok (rx r) | Some e \<Rightarrow> Err e))"

definition read_from :: "reader \<Rightarrow> helper_error + bytes" where
  "read_from r = try_bind (map_err HelperIpc (take_to_end 65 r)) (\<lambda>bs.
     if length bs \<noteq> 64 \<or> \<not> list_all (\<lambda>b. is_lower_hex (char_of_byte b)) bs
     then Err InvalidBootstrapSecret
     else Ok bs)"

section \<open>The command line\<close>

record args =
  arg_ipc :: string
  arg_parent_pid :: u32
  arg_data_dir :: string
  arg_log_dir :: string
  arg_protocol_version :: u32

record validated_args =
  val_ipc :: string
  val_parent_pid :: u32
  val_data_dir :: string
  val_log_dir :: string

definition is_hex_nonce :: "string \<Rightarrow> nat \<Rightarrow> bool" where
  "is_hex_nonce value n \<longleftrightarrow> length value = n \<and> list_all is_lower_hex value"

text \<open>\<open>Path::is_absolute\<close> and \<open>Path::file_name\<close> on Unix: empty and \<open>.\<close> components do not count.\<close>

definition path_is_absolute :: "string \<Rightarrow> bool" where
  "path_is_absolute p \<longleftrightarrow> (case p of [] \<Rightarrow> False | c # _ \<Rightarrow> c = CHR ''/'')"

definition path_components :: "string \<Rightarrow> string list" where
  "path_components p = filter (\<lambda>c. c \<noteq> [] \<and> c \<noteq> ''.'') (split_on (\<lambda>c. c = CHR ''/'') p)"

definition path_file_name :: "string \<Rightarrow> string option" where
  "path_file_name p = (let cs = path_components p in
     if cs = [] \<or> last cs = ''..'' then None else Some (last cs))"

text \<open>
  \<open>Path::is_absolute\<close> on Windows: the path has a prefix and a root. Every prefix but that of a drive has a root of its own; two
  separators begin a prefix when a verbatim path (with backslashes only), a device, or the names of a server and a share follow.
\<close>

definition is_separator_windows :: "char \<Rightarrow> bool" where
  "is_separator_windows c \<longleftrightarrow> c = CHR ''/'' \<or> c = CHR 0x5C"

definition next_component :: "string \<Rightarrow> string \<times> string" where
  "next_component p =
    (takeWhile (\<lambda>c. \<not> is_separator_windows c) p, drop 1 (dropWhile (\<lambda>c. \<not> is_separator_windows c) p))"

definition has_server_and_share :: "string \<Rightarrow> bool" where
  "has_server_and_share p = (case next_component p of (server, p) \<Rightarrow>
     case next_component p of (share, _) \<Rightarrow> server \<noteq> [] \<and> share \<noteq> [])"

fun path_is_absolute_windows :: "string \<Rightarrow> bool" where
  "path_is_absolute_windows (a # b # rest) =
    (if is_separator_windows a \<and> is_separator_windows b
     then a # b # take 2 rest = CHR 0x5C # CHR 0x5C # ''?'' @ [CHR 0x5C]
       \<or> (take 1 rest = ''.'' \<and> list_ex is_separator_windows (take 1 (drop 1 rest)))
       \<or> has_server_and_share rest
     else (is_ascii_lower a \<or> is_ascii_upper a) \<and> b = CHR '':'' \<and> list_ex is_separator_windows (take 1 rest))"
| "path_is_absolute_windows _ = False"

text \<open>The checks that both platforms share; \<open>absolute\<close> is the platform's \<open>Path::is_absolute\<close>.\<close>

definition ensure_absolute :: "(string \<Rightarrow> bool) \<Rightarrow> string \<Rightarrow> string \<Rightarrow> helper_error + unit" where
  "ensure_absolute absolute p name =
    (if \<not> absolute p then Err (InvalidArguments (name @ '' must be an absolute path''))
     else Ok ())"

definition validate_ipc_endpoint_windows :: "string \<Rightarrow> helper_error + unit" where
  "validate_ipc_endpoint_windows endpoint =
    (case strip_prefix (CHR 0x5C # CHR 0x5C # ''.'' @ CHR 0x5C # ''pipe'' @ CHR 0x5C # ''pcln-terracotta-'') endpoint of
       None \<Rightarrow> Err (InvalidArguments ''--ipc must use the Terracotta local named-pipe prefix'')
     | Some nonce \<Rightarrow>
         if is_hex_nonce nonce 32 then Ok ()
         else Err (InvalidArguments ''--ipc named-pipe nonce is invalid''))"

definition validate_ipc_endpoint :: "string \<Rightarrow> helper_error + unit" where
  "validate_ipc_endpoint endpoint =
    (if \<not> path_is_absolute endpoint
     then Err (InvalidArguments ''--ipc must be an absolute Unix socket path'')
     else (case path_file_name endpoint of
         None \<Rightarrow> Err (InvalidArguments ''--ipc has no valid socket file name'')
       | Some file_name \<Rightarrow>
           (case Option.bind (strip_prefix ''terracotta-'' file_name) (strip_suffix ''.sock'') of
              None \<Rightarrow> Err (InvalidArguments ''--ipc socket file name is invalid'')
            | Some nonce \<Rightarrow>
                if is_hex_nonce nonce 32 then Ok ()
                else Err (InvalidArguments ''--ipc socket nonce is invalid''))))"

definition validate_args :: "(string \<Rightarrow> bool) \<Rightarrow> (string \<Rightarrow> helper_error + unit) \<Rightarrow> args \<Rightarrow> helper_error + validated_args" where
  "validate_args absolute check_endpoint a =
    (if arg_parent_pid a = 0
     then Err (InvalidArguments ''--parent-pid must be greater than zero'')
     else if arg_protocol_version a \<noteq> PROTOCOL_VERSION
     then Err (InvalidArguments (''unsupported --protocol-version '' @ dec (unat (arg_protocol_version a))))
     else try_bind (ensure_absolute absolute (arg_data_dir a) ''--data-dir'') (\<lambda>_.
          try_bind (ensure_absolute absolute (arg_log_dir a) ''--log-dir'') (\<lambda>_.
          try_bind (check_endpoint (arg_ipc a)) (\<lambda>_.
          Ok \<lparr>val_ipc = arg_ipc a, val_parent_pid = arg_parent_pid a,
              val_data_dir = arg_data_dir a, val_log_dir = arg_log_dir a\<rparr>))))"

definition validate :: "args \<Rightarrow> helper_error + validated_args" where
  "validate = validate_args path_is_absolute validate_ipc_endpoint"

definition validate_windows :: "args \<Rightarrow> helper_error + validated_args" where
  "validate_windows = validate_args path_is_absolute_windows validate_ipc_endpoint_windows"

section \<open>What start-up accepts\<close>

lemma read_from_Ok_iff:
  "read_from r = Ok t \<longleftrightarrow> rx r = t \<and> rx_end r = None \<and> length t = 64
      \<and> list_all (\<lambda>b. is_lower_hex (char_of_byte b)) t"
  by (auto simp: read_from_def take_to_end_def res_simps split: option.splits if_splits)

lemma read_from_never_protocol_error:
  "read_from r = Err e \<Longrightarrow> exit_code e = 3 \<or> exit_code e = 4"
  by (auto simp: read_from_def res_simps split: if_splits)

lemma ensure_absolute_Ok_iff [res_simps]: "ensure_absolute absolute p n = Ok u \<longleftrightarrow> absolute p"
  by (simp add: ensure_absolute_def)

lemma validate_ipc_endpoint_Ok_iff:
  "validate_ipc_endpoint e = Ok u \<longleftrightarrow>
    path_is_absolute e \<and>
    (\<exists>nonce. path_file_name e = Some (''terracotta-'' @ nonce @ ''.sock'') \<and> is_hex_nonce nonce 32)"
proof
  assume "validate_ipc_endpoint e = Ok u"
  then obtain f n t where a: "path_is_absolute e" "path_file_name e = Some f"
    and "strip_prefix ''terracotta-'' f = Some n" "strip_suffix ''.sock'' n = Some t"
    and h: "is_hex_nonce t 32"
    by (auto simp: validate_ipc_endpoint_def bind_eq_Some_conv split: if_splits option.splits)
  then have "f = ''terracotta-'' @ t @ ''.sock''"
    unfolding strip_prefix_iff strip_suffix_iff by simp
  with a h show "path_is_absolute e \<and>
      (\<exists>nonce. path_file_name e = Some (''terracotta-'' @ nonce @ ''.sock'') \<and> is_hex_nonce nonce 32)"
    by blast
next
  assume "path_is_absolute e \<and>
      (\<exists>nonce. path_file_name e = Some (''terracotta-'' @ nonce @ ''.sock'') \<and> is_hex_nonce nonce 32)"
  then obtain nonce where a: "path_is_absolute e" and h: "is_hex_nonce nonce 32"
    and f: "path_file_name e = Some (''terracotta-'' @ nonce @ ''.sock'')" by blast
  have "strip_prefix ''terracotta-'' (''terracotta-'' @ nonce @ ''.sock'') = Some (nonce @ ''.sock'')"
    unfolding strip_prefix_iff by simp
  moreover have "strip_suffix ''.sock'' (nonce @ ''.sock'') = Some nonce"
    unfolding strip_suffix_iff by simp
  ultimately have "Option.bind (strip_prefix ''terracotta-'' (''terracotta-'' @ nonce @ ''.sock''))
      (strip_suffix ''.sock'') = Some nonce"
    by (simp only: Option.bind.simps)
  then show "validate_ipc_endpoint e = Ok u"
    unfolding validate_ipc_endpoint_def f using a h by simp
qed

lemma validate_ipc_endpoint_windows_Ok_iff:
  "validate_ipc_endpoint_windows e = Ok u \<longleftrightarrow>
    (\<exists>nonce. e = CHR 0x5C # CHR 0x5C # ''.'' @ CHR 0x5C # ''pipe'' @ CHR 0x5C # ''pcln-terracotta-'' @ nonce \<and> is_hex_nonce nonce 32)"
proof -
  let ?x = "CHR 0x5C # CHR 0x5C # ''.'' @ CHR 0x5C # ''pipe'' @ CHR 0x5C # ''pcln-terracotta-''"
  have "validate_ipc_endpoint_windows e = Ok u \<longleftrightarrow> (\<exists>nonce. strip_prefix ?x e = Some nonce \<and> is_hex_nonce nonce 32)"
    by (simp add: validate_ipc_endpoint_windows_def del: append_Cons append_Nil split: option.split)
  also have "\<dots> \<longleftrightarrow> (\<exists>nonce. e = ?x @ nonce \<and> is_hex_nonce nonce 32)" unfolding strip_prefix_iff ..
  finally show ?thesis by simp
qed

lemma validate_args_Ok_cond:
  "validate_args absolute check_endpoint a = Ok v \<longleftrightarrow>
    arg_parent_pid a \<noteq> 0 \<and> arg_protocol_version a = PROTOCOL_VERSION \<and>
    absolute (arg_data_dir a) \<and> absolute (arg_log_dir a) \<and> check_endpoint (arg_ipc a) = Ok () \<and>
    v = \<lparr>val_ipc = arg_ipc a, val_parent_pid = arg_parent_pid a,
         val_data_dir = arg_data_dir a, val_log_dir = arg_log_dir a\<rparr>"
  by (auto simp: validate_args_def res_simps)

lemmas validate_Ok_cond = validate_args_Ok_cond [of path_is_absolute validate_ipc_endpoint, folded validate_def]
lemmas validate_windows_Ok_cond =
  validate_args_Ok_cond [of path_is_absolute_windows validate_ipc_endpoint_windows, folded validate_windows_def]

lemma ensure_absolute_exit: "ensure_absolute absolute p n = Err e \<Longrightarrow> exit_code e = 2"
  by (auto simp: ensure_absolute_def split: if_splits)

lemma validate_ipc_endpoint_exit: "validate_ipc_endpoint s = Err e \<Longrightarrow> exit_code e = 2"
  by (auto simp: validate_ipc_endpoint_def split: if_splits option.splits)

lemma validate_ipc_endpoint_windows_exit: "validate_ipc_endpoint_windows s = Err e \<Longrightarrow> exit_code e = 2"
  by (auto simp: validate_ipc_endpoint_windows_def split: if_splits option.splits)

lemma validate_args_exit:
  assumes "\<And>s e. check_endpoint s = Err e \<Longrightarrow> exit_code e = 2" "validate_args absolute check_endpoint a = Err e"
  shows "exit_code e = 2"
  using assms(2) by (auto simp: validate_args_def res_simps split: if_splits intro: ensure_absolute_exit assms(1))

lemma validate_exit: "validate a = Err e \<Longrightarrow> exit_code e = 2"
  unfolding validate_def by (rule validate_args_exit [OF validate_ipc_endpoint_exit])

lemma validate_windows_exit: "validate_windows a = Err e \<Longrightarrow> exit_code e = 2"
  unfolding validate_windows_def by (rule validate_args_exit [OF validate_ipc_endpoint_windows_exit])

text \<open>Absolute and relative paths of Windows: a drive without a separator and a separator without a drive are relative.\<close>

lemma windows_path_examples:
  "path_is_absolute_windows (''C:'' @ CHR 0x5C # ''data'')" "path_is_absolute_windows ''c:/data''"
  "path_is_absolute_windows (CHR 0x5C # CHR 0x5C # ''host'' @ CHR 0x5C # ''share'')" "path_is_absolute_windows (CHR 0x5C # CHR 0x5C # ''?'' @ CHR 0x5C # ''x'')"
  "\<not> path_is_absolute_windows ''C:data''" "\<not> path_is_absolute_windows (CHR 0x5C # ''data'')" "\<not> path_is_absolute_windows ''/data''"
  "\<not> path_is_absolute_windows (CHR 0x5C # CHR 0x5C # ''host'')" "\<not> path_is_absolute_windows ''//?/''"
  by (simp_all add: is_separator_windows_def has_server_and_share_def next_component_def is_ascii_lower_def is_ascii_upper_def)

section \<open>Properties\<close>

text \<open>The bootstrap secret is accepted exactly when standard input holds 64 lower-case
  hexadecimal digits and nothing more, and it is then the token; every refusal ends the process
  with exit code 3 or (for a failing read) 4.\<close>

theorem bootstrap_secret_exact:
  "(read_from r = Ok t \<longleftrightarrow> rx r = t \<and> rx_end r = None \<and> is_hex_nonce (string_of_bytes t) 64)
    \<and> (case read_from r of Err e \<Rightarrow> exit_code e \<in> {3, 4} | Ok _ \<Rightarrow> True)"
proof -
  have "is_hex_nonce (string_of_bytes t) 64 \<longleftrightarrow> length t = 64 \<and> list_all (\<lambda>b. is_lower_hex (char_of_byte b)) t"
    by (simp add: is_hex_nonce_def string_of_bytes_def list_all_iff)
  then show ?thesis
    using read_from_never_protocol_error [of r] by (auto simp: read_from_Ok_iff split: sum.split)
qed

text \<open>The command line is accepted exactly when the parent process id is not zero, the
  protocol version is the supported one, both directories are absolute and the endpoint is an
  absolute path whose file name is \<open>terracotta-\<close>, 32 lower-case hexadecimal digits and \<open>.sock\<close>; it
  is then passed on unchanged, and every refusal ends the process with exit code 2.\<close>

theorem command_line_exact:
  "(validate a = Ok v \<longleftrightarrow>
      arg_parent_pid a \<noteq> 0 \<and> arg_protocol_version a = PROTOCOL_VERSION
      \<and> path_is_absolute (arg_data_dir a) \<and> path_is_absolute (arg_log_dir a) \<and> path_is_absolute (arg_ipc a)
      \<and> (\<exists>nonce. path_file_name (arg_ipc a) = Some (''terracotta-'' @ nonce @ ''.sock'') \<and> is_hex_nonce nonce 32)
      \<and> v = \<lparr>val_ipc = arg_ipc a, val_parent_pid = arg_parent_pid a,
           val_data_dir = arg_data_dir a, val_log_dir = arg_log_dir a\<rparr>)
    \<and> (case validate a of Err e \<Rightarrow> exit_code e = 2 | Ok _ \<Rightarrow> True)"
  using validate_exit [of a] by (auto simp: validate_Ok_cond validate_ipc_endpoint_Ok_iff split: sum.split)

text \<open>The same for Windows: the endpoint is a pipe of the local machine whose name is the fixed prefix and 32 lower-case hexadecimal digits,
  and the directories are absolute by the rules of Windows.\<close>

theorem command_line_exact_windows:
  "(validate_windows a = Ok v \<longleftrightarrow>
      arg_parent_pid a \<noteq> 0 \<and> arg_protocol_version a = PROTOCOL_VERSION
      \<and> path_is_absolute_windows (arg_data_dir a) \<and> path_is_absolute_windows (arg_log_dir a)
      \<and> (\<exists>nonce. arg_ipc a = CHR 0x5C # CHR 0x5C # ''.'' @ CHR 0x5C # ''pipe'' @ CHR 0x5C # ''pcln-terracotta-'' @ nonce \<and> is_hex_nonce nonce 32)
      \<and> v = \<lparr>val_ipc = arg_ipc a, val_parent_pid = arg_parent_pid a,
           val_data_dir = arg_data_dir a, val_log_dir = arg_log_dir a\<rparr>)
    \<and> (case validate_windows a of Err e \<Rightarrow> exit_code e = 2 | Ok _ \<Rightarrow> True)"
  using validate_windows_exit [of a]
  by (auto simp: validate_windows_Ok_cond validate_ipc_endpoint_windows_Ok_iff split: sum.split)

end
