(* ===== verification/Socket_Addr.thy ===== *)
theory Socket_Addr
  imports Rust_Str
begin

text \<open>
  \<open>std::net::SocketAddr\<close>: its text form (\<open>Display\<close>) and its parser (\<open>FromStr\<close>), as the standard
  library implements them, and the loopback test. The program accepts addresses from its IPC
  peer, from its network backend and from files, and stores what \<open>to_string\<close> prints.
  A parser is a partial function from the remaining text to a value and the text after it; the
  standard library's \<open>read_atomically\<close> restores the text on failure, which is \<open>None\<close> here.
\<close>

section \<open>Addresses and their text\<close>

datatype socket_addr =
    SocketV4 u8 u8 u8 u8 u16
  | SocketV6 "u16 list" u16 u32

fun addr_port :: "socket_addr \<Rightarrow> u16" where
  "addr_port (SocketV4 a b c d p) = p"
| "addr_port (SocketV6 segs p scope) = p"

definition v6_loopback :: "u16 list" where
  "v6_loopback = [0, 0, 0, 0, 0, 0, 0, 1]"

text \<open>\<open>IpAddr::is_loopback\<close>: \<open>127.0.0.0/8\<close> and \<open>::1\<close>.\<close>

fun is_loopback :: "socket_addr \<Rightarrow> bool" where
  "is_loopback (SocketV4 a b c d p) = (a = 127)"
| "is_loopback (SocketV6 segs p scope) = (segs = v6_loopback)"

definition hex_digit_char :: "nat \<Rightarrow> char" where
  "hex_digit_char d = ''0123456789abcdef'' ! d"

fun hex :: "nat \<Rightarrow> string" where
  "hex n = (if n < 16 then [hex_digit_char n] else hex (n div 16) @ [hex_digit_char (n mod 16)])"

declare hex.simps [simp del]

definition show_v4 :: "u8 \<Rightarrow> u8 \<Rightarrow> u8 \<Rightarrow> u8 \<Rightarrow> string" where
  "show_v4 a b c d =
    dec (unat a) @ ''.'' @ dec (unat b) @ ''.'' @ dec (unat c) @ ''.'' @ dec (unat d)"

text \<open>The first longest run of zero segments, as (start, length).\<close>

fun zero_span :: "nat \<Rightarrow> nat \<times> nat \<Rightarrow> nat \<times> nat \<Rightarrow> u16 list \<Rightarrow> nat \<times> nat" where
  "zero_span i cur longest [] = longest"
| "zero_span i cur longest (s # ss) =
    (if s = 0 then
       (let cur' = (if snd cur = 0 then (i, 1) else (fst cur, snd cur + 1))
        in zero_span (Suc i) cur' (if snd longest < snd cur' then cur' else longest) ss)
     else zero_span (Suc i) (0, 0) longest ss)"

definition show_segments :: "u16 list \<Rightarrow> string" where
  "show_segments segs = join '':'' (map (\<lambda>s. hex (unat s)) segs)"

definition show_v6 :: "u16 list \<Rightarrow> string" where
  "show_v6 segs =
    (if take 5 segs = [0, 0, 0, 0, 0] \<and> segs ! 5 = 65535
     then ''::ffff:'' @ show_v4 (word_of_nat (unat (segs ! 6) div 256)) (word_of_nat (unat (segs ! 6) mod 256))
            (word_of_nat (unat (segs ! 7) div 256)) (word_of_nat (unat (segs ! 7) mod 256))
     else (let (start, len) = zero_span 0 (0, 0) (0, 0) segs in
       if 1 < len then show_segments (take start segs) @ ''::'' @ show_segments (drop (start + len) segs)
       else show_segments segs))"

fun addr_to_string :: "socket_addr \<Rightarrow> string" where
  "addr_to_string (SocketV4 a b c d p) = show_v4 a b c d @ '':'' @ dec (unat p)"
| "addr_to_string (SocketV6 segs p scope) =
    ''['' @ show_v6 segs @ (if scope = 0 then [] else ''%'' @ dec (unat scope)) @ '']:'' @ dec (unat p)"

section \<open>The parser\<close>

definition read_given_char :: "char \<Rightarrow> string \<Rightarrow> string option" where
  "read_given_char t s = (case s of [] \<Rightarrow> None | c # cs \<Rightarrow> if c = t then Some cs else None)"

text \<open>
  \<open>read_number(radix, max_digits, allow_zero_prefix)\<close> into an unsigned type with \<open>bound\<close> values.
  Without a digit limit the library uses checked arithmetic; a prefix of the digits overflows
  exactly when the whole number does.
\<close>

definition read_number :: "nat \<Rightarrow> nat option \<Rightarrow> bool \<Rightarrow> nat \<Rightarrow> string \<Rightarrow> (nat \<times> string) option" where
  "read_number radix max_digits allow_zero_prefix bound s =
    (let ds = takeWhile (\<lambda>c. to_digit radix c \<noteq> None) s;
         v = digits_value radix (map (\<lambda>c. the (to_digit radix c)) ds)
     in if (case max_digits of None \<Rightarrow> False | Some m \<Rightarrow> m < length ds) then None
        else if ds = [] then None
        else if \<not> allow_zero_prefix \<and> hd ds = CHR ''0'' \<and> 1 < length ds then None
        else if v < bound then Some (v, drop (length ds) s) else None)"

definition read_octet :: "string \<Rightarrow> (u8 \<times> string) option" where
  "read_octet s = map_option (\<lambda>(v, r). (word_of_nat v, r)) (read_number 10 (Some 3) False 256 s)"

definition read_dot_octet :: "string \<Rightarrow> (u8 \<times> string) option" where
  "read_dot_octet s = Option.bind (read_given_char CHR ''.'' s) read_octet"

definition read_ipv4 :: "string \<Rightarrow> ((u8 \<times> u8 \<times> u8 \<times> u8) \<times> string) option" where
  "read_ipv4 s =
    Option.bind (read_octet s) (\<lambda>(a, s1).
    Option.bind (read_dot_octet s1) (\<lambda>(b, s2).
    Option.bind (read_dot_octet s2) (\<lambda>(c, s3).
    Option.bind (read_dot_octet s3) (\<lambda>(d, s4). Some ((a, b, c, d), s4)))))"

definition read_separator :: "nat \<Rightarrow> (string \<Rightarrow> ('a \<times> string) option) \<Rightarrow> string \<Rightarrow> ('a \<times> string) option" where
  "read_separator i inner s =
    (if 0 < i then Option.bind (read_given_char CHR '':'' s) inner else inner s)"

definition read_group :: "string \<Rightarrow> (u16 \<times> string) option" where
  "read_group s = map_option (\<lambda>(v, r). (word_of_nat v, r)) (read_number 16 (Some 4) True 65536 s)"

function read_groups :: "nat \<Rightarrow> nat \<Rightarrow> string \<Rightarrow> u16 list \<times> bool \<times> string" where
  "read_groups limit i s =
    (if limit \<le> i then ([], False, s)
     else (case (if i < limit - 1 then read_separator i read_ipv4 s else None) of
         Some ((a, b, c, d), s') \<Rightarrow>
           ([word_of_nat (unat a * 256 + unat b), word_of_nat (unat c * 256 + unat d)], True, s')
       | None \<Rightarrow> (case read_separator i read_group s of
             None \<Rightarrow> ([], False, s)
           | Some (g, s') \<Rightarrow>
               (let (gs, v4, s'') = read_groups limit (Suc i) s' in (g # gs, v4, s'')))))"
  by pat_completeness auto
termination
  by (relation "measure (\<lambda>(limit, i, s). limit - i)") auto

declare read_groups.simps [simp del]

definition read_ipv6 :: "string \<Rightarrow> (u16 list \<times> string) option" where
  "read_ipv6 s = (case read_groups 8 0 s of (head, head_ipv4, s1) \<Rightarrow>
      if length head = 8 then Some (head, s1)
      else if head_ipv4 then None
      else Option.bind (read_given_char CHR '':'' s1) (\<lambda>s2.
           Option.bind (read_given_char CHR '':'' s2) (\<lambda>s3.
           (case read_groups (8 - (length head + 1)) 0 s3 of (tail, _, s4) \<Rightarrow>
              Some (head @ replicate (8 - length head - length tail) 0 @ tail, s4)))))"

definition read_port :: "string \<Rightarrow> (u16 \<times> string) option" where
  "read_port s = Option.bind (read_given_char CHR '':'' s) (\<lambda>s1.
     map_option (\<lambda>(v, r). (word_of_nat v, r)) (read_number 10 None True 65536 s1))"

definition read_scope_id :: "string \<Rightarrow> (u32 \<times> string) option" where
  "read_scope_id s = Option.bind (read_given_char CHR ''%'' s) (\<lambda>s1.
     map_option (\<lambda>(v, r). (word_of_nat v, r)) (read_number 10 None True (2 ^ 32) s1))"

definition read_socket_v4 :: "string \<Rightarrow> (socket_addr \<times> string) option" where
  "read_socket_v4 s =
    Option.bind (read_ipv4 s) (\<lambda>((a, b, c, d), s1).
    Option.bind (read_port s1) (\<lambda>(p, s2). Some (SocketV4 a b c d p, s2)))"

definition read_socket_v6 :: "string \<Rightarrow> (socket_addr \<times> string) option" where
  "read_socket_v6 s =
    Option.bind (read_given_char CHR ''['' s) (\<lambda>s1.
    Option.bind (read_ipv6 s1) (\<lambda>(segs, s2).
    (case (case read_scope_id s2 of None \<Rightarrow> (0, s2) | Some sc \<Rightarrow> sc) of (scope, s3) \<Rightarrow>
      Option.bind (read_given_char CHR '']'' s3) (\<lambda>s4.
      Option.bind (read_port s4) (\<lambda>(p, s5). Some (SocketV6 segs p scope, s5))))))"

definition parse_socket_addr :: "string \<Rightarrow> socket_addr option" where
  "parse_socket_addr s =
    (case (case read_socket_v4 s of None \<Rightarrow> read_socket_v6 s | Some r \<Rightarrow> Some r) of
        Some (a, []) \<Rightarrow> Some a
      | _ \<Rightarrow> None)"

section \<open>Printing and parsing agree\<close>

lemma to_digit_None: "\<not> is_ascii_digit c \<Longrightarrow> \<not> is_ascii_lower c \<Longrightarrow> \<not> is_ascii_upper c
    \<Longrightarrow> to_digit radix c = None"
  by (simp add: to_digit_def)

lemma takeWhile_append_stop:
  "\<forall>x\<in>set xs. P x \<Longrightarrow> ys = [] \<or> \<not> P (hd ys) \<Longrightarrow> takeWhile P (xs @ ys) = xs"
  by (rule takeWhile_all_append) (auto simp: list_all_iff)

lemma read_number_dec:
  assumes n: "n < bound"
    and rest: "rest = [] \<or> to_digit 10 (hd rest) = None"
    and m: "\<And>m. max_digits = Some m \<Longrightarrow> length (dec n) \<le> m"
  shows "read_number 10 max_digits allow0 bound (dec n @ rest) = Some (n, rest)"
proof -
  obtain ds where ds: "map (to_digit 10) (dec n) = map Some ds" and v: "digits_value 10 ds = n"
    using dec_to_digit by blast
  from ds have all: "\<forall>c\<in>set (dec n). to_digit 10 c \<noteq> None"
    by (metis (mono_tags) in_set_conv_nth length_map nth_map option.distinct(1))
  from ds have vals: "map (\<lambda>c. the (to_digit 10 c)) (dec n) = ds"
  proof -
    have "map (\<lambda>c. the (to_digit 10 c)) (dec n) = map the (map (to_digit 10) (dec n))"
      by (simp add: comp_def)
    then show ?thesis unfolding ds by (simp add: comp_def)
  qed
  have tw: "takeWhile (\<lambda>c. to_digit 10 c \<noteq> None) (dec n @ rest) = dec n"
    using all rest by (intro takeWhile_append_stop) auto
  have zero: "hd (dec n) = CHR ''0'' \<Longrightarrow> length (dec n) = 1"
    using dec_leading_zero [of n] by (simp add: digit_char_def)
  show ?thesis
    unfolding read_number_def Let_def tw vals v
    using n zero m by (auto split: option.splits dest: leD)
qed

lemma dec_octet_length: "length (dec (unat (b :: u8))) \<le> 3"
proof -
  have "unat b < 256" using unsigned_less [of b] by simp
  then show ?thesis by (intro dec_length_le_3) simp
qed

lemma read_octet_dec:
  "rest = [] \<or> to_digit 10 (hd rest) = None \<Longrightarrow> read_octet (dec (unat b) @ rest) = Some (b, rest)"
proof -
  assume rest: "rest = [] \<or> to_digit 10 (hd rest) = None"
  have "unat b < 256" using unsigned_less [of b] by simp
  then have "read_number 10 (Some 3) False 256 (dec (unat b) @ rest) = Some (unat b, rest)"
    using rest dec_octet_length by (intro read_number_dec) auto
  then show ?thesis by (simp add: read_octet_def)
qed

lemma to_digit_punct [simp]:
  "to_digit r CHR ''.'' = None" "to_digit r CHR '':'' = None" "to_digit r CHR '']'' = None"
  "to_digit r CHR ''%'' = None" "to_digit r CHR ''['' = None"
  by (simp_all add: to_digit_def is_ascii_digit_def is_ascii_lower_def is_ascii_upper_def)

lemma read_ipv4_show:
  assumes "rest = [] \<or> to_digit 10 (hd rest) = None"
  shows "read_ipv4 (show_v4 a b c d @ rest) = Some ((a, b, c, d), rest)"
  using assms
  by (simp add: read_ipv4_def show_v4_def read_octet_dec read_dot_octet_def read_given_char_def)

lemma read_port_dec: "read_port (CHR '':'' # dec (unat p)) = Some (p, [])"
proof -
  have "unat p < 65536" using unsigned_less [of p] by simp
  then have "read_number 10 None True 65536 (dec (unat p) @ []) = Some (unat p, [])"
    by (intro read_number_dec) auto
  then show ?thesis by (simp add: read_port_def read_given_char_def)
qed

lemma parse_show_v4: "parse_socket_addr (addr_to_string (SocketV4 a b c d p)) = Some (SocketV4 a b c d p)"
proof -
  have "read_socket_v4 (show_v4 a b c d @ CHR '':'' # dec (unat p)) = Some (SocketV4 a b c d p, [])"
    by (simp add: read_socket_v4_def read_ipv4_show read_port_dec)
  then show ?thesis by (simp add: parse_socket_addr_def)
qed

lemma show_v6_loopback: "show_v6 v6_loopback = ''::1''"
  by (simp add: show_v6_def v6_loopback_def show_segments_def hex.simps hex_digit_char_def)

lemma read_number_empty: "rest = [] \<or> to_digit r (hd rest) = None \<Longrightarrow> read_number r m z k rest = None"
  by (cases rest) (auto simp: read_number_def split: option.splits)

lemma read_number_one:
  "rest = [] \<or> to_digit 16 (hd rest) = None
    \<Longrightarrow> read_number 16 (Some 4) True 65536 (CHR ''1'' # rest) = Some (1, rest)"
  by (cases rest) (auto simp: read_number_def to_digit_def is_ascii_digit_def digits_value_def)

lemma read_octet_one:
  "to_digit 10 c = None \<Longrightarrow> read_octet (CHR ''1'' # c # cs) = Some (1, c # cs)"
  by (simp add: read_octet_def read_number_def to_digit_def [of _ "CHR ''1''"] is_ascii_digit_def digits_value_def)

lemma read_ipv6_loopback:
  assumes "c = CHR '']'' \<or> c = CHR ''%''"
  shows "read_ipv6 (''::1'' @ c # cs) = Some (v6_loopback, c # cs)"
proof -
  have c: "to_digit r c = None" "c \<noteq> CHR ''.''" "c \<noteq> CHR '':''" for r using assms by auto
  have head: "read_groups 8 0 (''::1'' @ c # cs) = ([], False, ''::1'' @ c # cs)"
    by (simp add: read_groups.simps read_separator_def read_ipv4_def read_octet_def read_group_def
        read_number_empty)
  have tail: "read_groups 7 0 (''1'' @ c # cs) = ([1], False, c # cs)"
  proof -
    have "read_groups 7 1 (c # cs) = ([], False, c # cs)"
      using c by (simp add: read_groups.simps read_separator_def read_given_char_def)
    then show ?thesis
      using c by (simp add: read_groups.simps [of 7 0] read_separator_def read_ipv4_def read_octet_one
          read_dot_octet_def read_given_char_def read_group_def read_number_one)
  qed
  show ?thesis
    using head tail by (simp add: read_ipv6_def read_given_char_def v6_loopback_def numeral_eq_Suc)
qed

lemma read_scope_dec:
  "rest = [] \<or> to_digit 10 (hd rest) = None
    \<Longrightarrow> read_scope_id (CHR ''%'' # dec (unat scope) @ rest) = Some (scope, rest)"
proof -
  assume rest: "rest = [] \<or> to_digit 10 (hd rest) = None"
  have "unat scope < 2 ^ 32" using unsigned_less [of scope] by simp
  then have "read_number 10 None True (2 ^ 32) (dec (unat scope) @ rest) = Some (unat scope, rest)"
    using rest by (intro read_number_dec) auto
  then show ?thesis by (simp add: read_scope_id_def read_given_char_def)
qed

lemma parse_show_v6_loopback:
  "parse_socket_addr (addr_to_string (SocketV6 v6_loopback p scope)) = Some (SocketV6 v6_loopback p scope)"
proof -
  let ?s = "addr_to_string (SocketV6 v6_loopback p scope)"
  have s: "?s = CHR ''['' # ''::1'' @ (if scope = 0 then [] else ''%'' @ dec (unat scope))
      @ CHR '']'' # CHR '':'' # dec (unat p)"
    by (simp add: show_v6_loopback)
  have v4: "read_socket_v4 ?s = None"
    by (simp add: s read_socket_v4_def read_ipv4_def read_octet_def read_number_empty)
  have v6: "read_socket_v6 ?s = Some (SocketV6 v6_loopback p scope, [])"
  proof (cases "scope = 0")
    case True
    have "read_ipv6 (''::1'' @ CHR '']'' # CHR '':'' # dec (unat p))
        = Some (v6_loopback, CHR '']'' # CHR '':'' # dec (unat p))"
      by (rule read_ipv6_loopback) simp
    with True show ?thesis
      by (simp add: s read_socket_v6_def read_given_char_def read_port_dec read_scope_id_def
          show_v6_loopback)
  next
    case False
    have "read_ipv6 (''::1'' @ CHR ''%'' # dec (unat scope) @ CHR '']'' # CHR '':'' # dec (unat p))
        = Some (v6_loopback, CHR ''%'' # dec (unat scope) @ CHR '']'' # CHR '':'' # dec (unat p))"
      by (rule read_ipv6_loopback) simp
    with False show ?thesis
      by (simp add: s read_socket_v6_def read_given_char_def read_port_dec read_scope_dec
          show_v6_loopback)
  qed
  show ?thesis using v4 v6 by (simp add: parse_socket_addr_def del: addr_to_string.simps)
qed

lemma parse_show_loopback:
  "is_loopback a \<Longrightarrow> parse_socket_addr (addr_to_string a) = Some a"
  using parse_show_v4 parse_show_v6_loopback by (cases a) (auto simp del: addr_to_string.simps)

section \<open>Validators of loopback endpoints\<close>

text \<open>
  Three places of the program accept an endpoint only when it is a loopback address with a
  non-zero port (the room service, the local discovery files and the network backend). They share this contract:
  what they accept, and therefore that the text they store is accepted again as the same address.
\<close>

definition loopback_endpoint :: "socket_addr \<Rightarrow> bool" where
  "loopback_endpoint a \<longleftrightarrow> is_loopback a \<and> addr_port a \<noteq> 0"

locale loopback_validator =
  fixes validate :: "string \<Rightarrow> 'e + socket_addr"
  assumes validate_Ok_iff:
    "validate s = Ok a \<longleftrightarrow> parse_socket_addr s = Some a \<and> loopback_endpoint a"
begin

lemma validate_printed: "loopback_endpoint a \<Longrightarrow> validate (addr_to_string a) = Ok a"
  by (simp add: validate_Ok_iff loopback_endpoint_def parse_show_loopback)

lemma validate_stable: "validate s = Ok a \<Longrightarrow> validate (addr_to_string a) = Ok a"
  by (rule validate_printed) (simp add: validate_Ok_iff)

lemma validate_total: "is_ok (validate s) \<longleftrightarrow> (\<exists>a. parse_socket_addr s = Some a \<and> loopback_endpoint a)"
  by (auto simp: is_ok_iff validate_Ok_iff)

end

lemma show_localhost_25565: "addr_to_string (SocketV4 127 0 0 1 25565) = ''127.0.0.1:25565''"
  by (simp add: show_v4_def str_eval)

lemma parse_localhost_25565: "parse_socket_addr ''127.0.0.1:25565'' = Some (SocketV4 127 0 0 1 25565)"
  using parse_show_v4 [of 127 0 0 1 25565] by (simp only: show_localhost_25565)

lemmas localhost_eval = show_localhost_25565 parse_localhost_25565

end
