(* ===== verification/Room_Types.thy ===== *)
theory Room_Types
  imports Socket_Addr
begin

text \<open>
  The data of \<open>room/service.rs\<close>: room states, members, network status, snapshots, requests, errors
  and what the network backend returns. A 64-bit float is its bit pattern (IEEE 754 binary64), so
  that Rust's \<open>PartialEq\<close> on the structures that hold one (where a NaN differs from itself and
  the two zeros are equal) is the function \<open>room_member_eq\<close> or \<open>network_status_eq\<close>, not equality.
\<close>

section \<open>Floats\<close>

type_synonym f64 = u64

definition f64_is_nan :: "f64 \<Rightarrow> bool" where
  "f64_is_nan x \<longleftrightarrow> unat x div 2 ^ 52 mod 2048 = 2047 \<and> unat x mod 2 ^ 52 \<noteq> 0"

definition f64_is_zero :: "f64 \<Rightarrow> bool" where
  "f64_is_zero x \<longleftrightarrow> x = 0 \<or> x = 0x8000000000000000"

definition f64_eq :: "f64 \<Rightarrow> f64 \<Rightarrow> bool" where
  "f64_eq x y \<longleftrightarrow> \<not> f64_is_nan x \<and> \<not> f64_is_nan y \<and> (x = y \<or> (f64_is_zero x \<and> f64_is_zero y))"

definition option_eq :: "('a \<Rightarrow> 'a \<Rightarrow> bool) \<Rightarrow> 'a option \<Rightarrow> 'a option \<Rightarrow> bool" where
  "option_eq eq x y = (case (x, y) of (None, None) \<Rightarrow> True | (Some a, Some b) \<Rightarrow> eq a b | _ \<Rightarrow> False)"

section \<open>Rooms\<close>

datatype room_state =
  Idle | Creating | Joining | Connected | Reconnecting | Leaving | Faulted | Diagnosing

datatype room_role = RoleNone | RoleHost | RoleMember

datatype connection_mode = ModeUnknown | ModeDirect | ModeRelay

record room_member =
  member_id :: string
  display_name :: string
  member_mode :: connection_mode
  member_rtt :: "u32 option"
  member_loss :: "f64 option"

definition room_member_eq :: "room_member \<Rightarrow> room_member \<Rightarrow> bool" where
  "room_member_eq a b \<longleftrightarrow> member_id a = member_id b \<and> display_name a = display_name b
    \<and> member_mode a = member_mode b \<and> member_rtt a = member_rtt b
    \<and> option_eq f64_eq (member_loss a) (member_loss b)"

record network_status =
  nat_type :: "string option"
  net_mode :: connection_mode
  net_rtt :: "u32 option"
  net_loss :: "f64 option"
  relay_node :: "string option"
  is_healthy :: bool

definition network_status_eq :: "network_status \<Rightarrow> network_status \<Rightarrow> bool" where
  "network_status_eq a b \<longleftrightarrow> nat_type a = nat_type b \<and> net_mode a = net_mode b
    \<and> net_rtt a = net_rtt b \<and> option_eq f64_eq (net_loss a) (net_loss b)
    \<and> relay_node a = relay_node b \<and> is_healthy a = is_healthy b"

record room_snapshot =
  room_st :: room_state
  role :: room_role
  room_code :: "string option"
  local_address :: "string option"
  game_session_id :: "string option"
  network :: "network_status option"
  members :: "room_member list"
  error_code :: "string option"
  error_message :: "string option"

section \<open>Requests and errors\<close>

record create_room_request =
  create_session_id :: string
  create_lan_address :: string
  prefer_direct :: bool
  allow_relay :: bool

record join_room_request =
  join_room_code :: string
  join_session_id :: "string option"

record set_lan_address_request =
  lan_address :: string

record room_error =
  rerr_code :: string
  rerr_message :: string
  retryable :: bool

definition room_error_new :: "string \<Rightarrow> string \<Rightarrow> bool \<Rightarrow> room_error" where
  "room_error_new c m r = \<lparr>rerr_code = c, rerr_message = m, retryable = r\<rparr>"

definition room_error_invalid :: "string \<Rightarrow> room_error" where
  "room_error_invalid m = room_error_new ''room.invalid-request'' m False"

definition room_error_busy :: room_error where
  "room_error_busy = room_error_new ''room.operation-in-progress''
     ''A room operation is already in progress.'' False"

section \<open>Snapshots\<close>

definition idle_snapshot :: room_snapshot where
  "idle_snapshot = \<lparr>room_st = Idle, role = RoleNone, room_code = None, local_address = None,
     game_session_id = None, network = None, members = [], error_code = None,
     error_message = None\<rparr>"

definition pending_snapshot :: "room_state \<Rightarrow> room_role \<Rightarrow> string option \<Rightarrow> room_snapshot" where
  "pending_snapshot st r sid = \<lparr>room_st = st, role = r, room_code = None, local_address = None,
     game_session_id = sid, network = None, members = [], error_code = None,
     error_message = None\<rparr>"

definition faulted_snapshot :: "room_role \<Rightarrow> string option \<Rightarrow> room_error \<Rightarrow> room_snapshot" where
  "faulted_snapshot r sid e = \<lparr>room_st = Faulted, role = r, room_code = None,
     local_address = None, game_session_id = sid, network = None, members = [],
     error_code = Some (rerr_code e), error_message = Some (rerr_message e)\<rparr>"

section \<open>The backend's results\<close>

record backend_room =
  br_room_code :: string
  br_local_address :: "string option"
  br_network :: network_status
  br_members :: "room_member list"

record backend_refresh =
  rf_network :: "network_status option"
  rf_members :: "room_member list option"
  rf_local_address :: "string option"

definition backend_refresh_default :: backend_refresh where
  "backend_refresh_default = \<lparr>rf_network = None, rf_members = None, rf_local_address = None\<rparr>"

section \<open>Facts\<close>

lemma f64_zero_not_nan [simp]: "\<not> f64_is_nan 0"
  by (simp add: f64_is_nan_def)

lemma option_eq_simps [simp]:
  "option_eq eq None None" "\<not> option_eq eq None (Some b)" "\<not> option_eq eq (Some a) None"
  "option_eq eq (Some a) (Some b) = eq a b"
  by (simp_all add: option_eq_def)

lemma room_member_eq_id: "room_member_eq a b \<Longrightarrow> member_id a = member_id b"
  by (simp add: room_member_eq_def)

text \<open>Without a NaN, \<open>PartialEq\<close> is reflexive.\<close>

lemma f64_eq_refl: "\<not> f64_is_nan x \<Longrightarrow> f64_eq x x"
  by (simp add: f64_eq_def)

end
