(* ===== verification/Credentials.thy ===== *)
theory Credentials
  imports Room_Types
begin

unbundle bit_operations_syntax

text \<open>
  \<open>network/credentials.rs\<close>: room codes and the EasyTier credentials derived from them. SHA-256 and
  HMAC-SHA-256 come from the crates \<open>sha2\<close> and \<open>hmac\<close> and are the arguments \<open>sha256\<close> and
  \<open>hmac_sha256\<close>; the random device is what opening \<open>/dev/urandom\<close> gives.
\<close>

section \<open>Room codes\<close>

definition ROOM_SECRET_ROOT :: string where
  "ROOM_SECRET_ROOT = ''cn.pcln.terracotta.room.v1''"

definition ROOM_CODE_ALPHABET :: string where
  "ROOM_CODE_ALPHABET = ''ABCDEFGHJKLMNPQRSTUVWXYZ23456789''"

definition compact_room_code :: "string \<Rightarrow> string" where
  "compact_room_code value =
    map to_ascii_uppercase (filter (\<lambda>c. \<not> (c = CHR ''-'' \<or> c = CHR '' '')) value)"

text \<open>The slices \<open>[0..4]\<close>, \<open>[4..8]\<close>, \<open>[8..12]\<close>: both callers pass twelve ASCII characters.\<close>

definition format_room_code :: "string \<Rightarrow> string" where
  "format_room_code compact =
    take 4 compact @ ''-'' @ take 4 (drop 4 compact) @ ''-'' @ take 4 (drop 8 compact)"

definition invalid_code_error :: room_error where
  "invalid_code_error = room_error_new ''room.invalid-code''
     ''The room code must contain three groups of four ASCII letters or digits.'' False"

definition normalize_room_code :: "string \<Rightarrow> room_error + string" where
  "normalize_room_code value =
    (let compact = map to_ascii_uppercase (filter (\<lambda>c. \<not> (c = CHR ''-'' \<or> c = CHR '' '')) value)
     in if length compact \<noteq> 12 \<or> \<not> list_all is_ascii_alphanumeric compact
        then Err invalid_code_error
        else Ok (format_room_code compact))"

section \<open>Derived values\<close>

definition HEX :: string where
  "HEX = ''0123456789abcdef''"

definition hex_encode :: "bytes \<Rightarrow> string" where
  "hex_encode bs = concat (map (\<lambda>b. [HEX ! unat (drop_bit 4 b), HEX ! unat (b AND 15)]) bs)"

definition machine_id_from_identity :: "(bytes \<Rightarrow> bytes) \<Rightarrow> bytes \<Rightarrow> string" where
  "machine_id_from_identity sha256 identity = hex_encode (take 16 (sha256 identity))"

definition BASE32 :: string where
  "BASE32 = ''abcdefghijklmnopqrstuvwxyz234567''"

text \<open>The inner \<open>while bits >= 5\<close> loop over \<open>(bits, encoded)\<close>.\<close>

fun emit_groups :: "u32 \<Rightarrow> nat \<Rightarrow> string \<Rightarrow> nat \<times> string" where
  "emit_groups value bits encoded =
    (if 5 \<le> bits
     then emit_groups value (bits - 5)
            (encoded @ [BASE32 ! unat (drop_bit (bits - 5) value AND 31)])
     else (bits, encoded))"

declare emit_groups.simps [simp del]

text \<open>The loop over the digest bytes: \<open>value << 8\<close> drops the top bits of a \<open>u32\<close>.\<close>

fun encode_loop :: "bytes \<Rightarrow> nat \<Rightarrow> u32 \<Rightarrow> string \<Rightarrow> nat \<times> u32 \<times> string" where
  "encode_loop [] bits value encoded = (bits, value, encoded)"
| "encode_loop (b # bs) bits value encoded =
    (let value' = push_bit 8 value OR ucast b;
         (bits', encoded') = emit_groups value' (bits + 8) encoded
     in encode_loop bs bits' value' encoded')"

definition network_name_for :: "(bytes \<Rightarrow> bytes) \<Rightarrow> string \<Rightarrow> string" where
  "network_name_for sha256 compact =
    (case encode_loop (take 8 (sha256 (as_bytes compact))) 0 0 [] of (bits, value, encoded) \<Rightarrow>
      let encoded' = (if 0 < bits then encoded @ [BASE32 ! unat (push_bit (5 - bits) value AND 31)]
                      else encoded)
      in ''tc-'' @ take 10 encoded')"

definition network_secret_for :: "(bytes \<Rightarrow> bytes \<Rightarrow> bytes) \<Rightarrow> string \<Rightarrow> string" where
  "network_secret_for hmac_sha256 compact =
    hex_encode (hmac_sha256 (as_bytes ROOM_SECRET_ROOT) (as_bytes compact))"

section \<open>Credentials\<close>

record room_credentials =
  cred_room_code :: string
  network_name :: string
  network_secret :: string

definition from_room_code ::
    "(bytes \<Rightarrow> bytes) \<Rightarrow> (bytes \<Rightarrow> bytes \<Rightarrow> bytes) \<Rightarrow> string \<Rightarrow> room_error + room_credentials" where
  "from_room_code sha256 hmac_sha256 value =
    try_bind (normalize_room_code value) (\<lambda>room.
      let compact = compact_room_code room in
      Ok \<lparr>cred_room_code = room, network_name = network_name_for sha256 compact,
          network_secret = network_secret_for hmac_sha256 compact\<rparr>)"

definition fill_random :: "nat \<Rightarrow> io_error + reader \<Rightarrow> io_error + bytes" where
  "fill_random n urandom = try_bind urandom (\<lambda>r. fst (read_exact n r))"

definition getrandom_fill :: "nat \<Rightarrow> io_error + reader \<Rightarrow> room_error + bytes" where
  "getrandom_fill n urandom =
    map_err (\<lambda>_. room_error_new ''room.entropy-unavailable''
                   ''The system random number generator is unavailable.'' True)
      (fill_random n urandom)"

definition code_letter :: "u8 \<Rightarrow> char" where
  "code_letter b = ROOM_CODE_ALPHABET ! (unat b mod length ROOM_CODE_ALPHABET)"

definition generate ::
    "(bytes \<Rightarrow> bytes) \<Rightarrow> (bytes \<Rightarrow> bytes \<Rightarrow> bytes) \<Rightarrow> io_error + reader
      \<Rightarrow> room_error + room_credentials" where
  "generate sha256 hmac_sha256 urandom =
    try_bind (getrandom_fill 12 urandom) (\<lambda>material.
      from_room_code sha256 hmac_sha256 (format_room_code (map code_letter material)))"

section \<open>Normalisation\<close>

definition compact_ok :: "string \<Rightarrow> bool" where
  "compact_ok s \<longleftrightarrow> length s = 12 \<and> list_all is_ascii_alphanumeric s"

lemma normalize_room_code_alt:
  "normalize_room_code s =
    (if compact_ok (compact_room_code s) then Ok (format_room_code (compact_room_code s))
     else Err invalid_code_error)"
  by (simp add: normalize_room_code_def compact_room_code_def compact_ok_def Let_def)

lemma code_uppercase [simp]:
  "code (to_ascii_uppercase c) = (if is_ascii_lower c then code c - 32 else code c)"
proof (cases "is_ascii_lower c")
  case True
  then have "code c - 32 < 256" by (auto simp: is_ascii_lower_def)
  with True show ?thesis by (simp add: to_ascii_uppercase_def)
qed (simp add: to_ascii_uppercase_def)

lemma uppercase_not_lower [simp]: "\<not> is_ascii_lower (to_ascii_uppercase c)"
  by (auto simp: is_ascii_lower_def)

lemma uppercase_idem [simp]: "to_ascii_uppercase (to_ascii_uppercase c) = to_ascii_uppercase c"
  by (simp add: to_ascii_uppercase_def [of "to_ascii_uppercase c"])

lemma alphanumeric_not_sep: "is_ascii_alphanumeric c \<Longrightarrow> c \<noteq> CHR ''-'' \<and> c \<noteq> CHR '' ''"
  by (auto simp: is_ascii_alphanumeric_def is_ascii_digit_def is_ascii_lower_def is_ascii_upper_def)

text \<open>A compact code in normal form: no separators left, no lower-case letters.\<close>

definition compact_normal :: "string \<Rightarrow> bool" where
  "compact_normal s \<longleftrightarrow> list_all (\<lambda>c. is_ascii_alphanumeric c \<and> \<not> is_ascii_lower c) s"

lemma compact_of_normal: "compact_normal s \<Longrightarrow> compact_room_code s = s"
  by (induction s)
    (auto simp: compact_normal_def compact_room_code_def to_ascii_uppercase_def dest: alphanumeric_not_sep)

lemma compact_append: "compact_room_code (s @ t) = compact_room_code s @ compact_room_code t"
  by (simp add: compact_room_code_def)

lemma three_groups: "length s = 12 \<Longrightarrow> take 4 s @ take 4 (drop 4 s) @ take 4 (drop 8 s) = s"
  using append_take_drop_id [of 4 s] append_take_drop_id [of 4 "drop 4 s"] by simp

lemma compact_format: "compact_normal s \<Longrightarrow> length s = 12 \<Longrightarrow> compact_room_code (format_room_code s) = s"
proof -
  assume s: "compact_normal s" "length s = 12"
  have n: "compact_normal (take 4 s)" "compact_normal (take 4 (drop 4 s))" "compact_normal (take 4 (drop 8 s))"
    using s by (auto simp: compact_normal_def list_all_iff dest!: in_set_takeD in_set_dropD)
  have sep: "compact_room_code ''-'' = []" by (simp add: compact_room_code_def)
  have "take 4 s @ take 4 (drop 4 s) @ take 4 (drop 8 s) = s"
    by (rule three_groups [OF s(2)])
  with n show ?thesis by (simp only: format_room_code_def compact_append compact_of_normal sep) simp
qed

lemma compact_room_code_normal:
  "list_all is_ascii_alphanumeric (compact_room_code s) \<Longrightarrow> compact_normal (compact_room_code s)"
  by (auto simp: compact_normal_def compact_room_code_def list_all_iff)

lemma compact_format_ok:
  "compact_ok (compact_room_code s) \<Longrightarrow> compact_room_code (format_room_code (compact_room_code s)) = compact_room_code s"
  by (rule compact_format) (auto simp: compact_ok_def compact_room_code_normal)

lemma compact_ok_normal: "compact_ok (compact_room_code s) \<Longrightarrow> compact_normal (compact_room_code s)"
  by (simp add: compact_ok_def compact_room_code_normal)

text \<open>
  The contract of a room-code normaliser: it accepts exactly the inputs whose compact form is
  twelve ASCII letters or digits and returns the dashed form of it. Two independent copies of the
  function exist (the room service and the credentials); each is an interpretation.
\<close>

locale room_code_normalizer =
  fixes normalize :: "string \<Rightarrow> room_error + string"
  assumes normalize_Ok_iff:
    "normalize s = Ok c \<longleftrightarrow> compact_ok (compact_room_code s) \<and> c = format_room_code (compact_room_code s)"
begin

lemma compact_preserved: "normalize s = Ok c \<Longrightarrow> compact_room_code c = compact_room_code s"
  by (simp add: normalize_Ok_iff compact_format_ok)

lemma normalize_idem: "normalize s = Ok c \<Longrightarrow> normalize c = Ok c"
  using compact_preserved [of s c] by (simp add: normalize_Ok_iff)

lemma normalize_same_compact:
  "compact_room_code s = compact_room_code t \<Longrightarrow> normalize s = Ok c \<longleftrightarrow> normalize t = Ok c"
  by (simp add: normalize_Ok_iff)

lemma normalize_length: "normalize s = Ok c \<Longrightarrow> length c = 14"
  by (auto simp: normalize_Ok_iff format_room_code_def compact_ok_def)

end

interpretation credential_codes: room_code_normalizer normalize_room_code
  by unfold_locales (auto simp: normalize_room_code_alt)

section \<open>The network name\<close>

text \<open>
  The name is the first ten base-32 digits of the digest's leading 64 bits, read as one big-endian
  number. The loop keeps only 32 bits of that number, which is enough because every group is
  emitted while its five bits are still among the low 13.
\<close>

lemma unat_and_31: "unat (x AND 31 :: u32) = unat x mod 32"
proof -
  have "x AND 31 = take_bit 5 x"
    by (simp add: take_bit_eq_mask mask_eq_exp_minus_1)
  then have "unat (x AND 31) = take_bit 5 (unat x)"
    by (simp only: unsigned_take_bit_eq)
  then show ?thesis
    by (simp add: take_bit_eq_mod)
qed

lemma base32_index:
  assumes "n + 5 \<le> 32"
  shows "unat (drop_bit n (word_of_nat v :: u32) AND 31) = v div 2 ^ n mod 32"
proof -
  have "take_bit 5 (drop_bit n (take_bit 32 v)) = take_bit 5 (drop_bit n v)"
    using assms by (auto intro!: bit_eqI simp: bit_simps)
  moreover have "unat (drop_bit n (word_of_nat v :: u32)) = drop_bit n (take_bit 32 v)"
    by (simp only: unat_drop_bit_eq unat_of_nat) (simp add: take_bit_eq_mod)
  ultimately show ?thesis
    by (simp only: unat_and_31) (simp add: drop_bit_eq_div take_bit_eq_mod)
qed

lemma shift_in_byte: "push_bit 8 (word_of_nat v :: u32) OR ucast (b :: u8) = word_of_nat (v * 256 + unat b)"
proof -
  have "\<not> bit b n" if "8 \<le> n" for n
    using that by (simp add: impossible_bit)
  then have "push_bit 8 (word_of_nat v :: u32) AND ucast b = 0"
    by (intro bit_word_eqI) (auto simp: bit_simps)
  then have "push_bit 8 (word_of_nat v :: u32) OR ucast b = push_bit 8 (word_of_nat v) + ucast b"
    by (simp add: disjunctive_add_eq_or)
  also have "\<dots> = word_of_nat (v * 256 + unat b)"
    by (simp add: push_bit_eq_mult algebra_simps word_eq_iff_unsigned unsigned_ucast_eq)
  finally show ?thesis .
qed

lemma emit_groups_eq:
  "bits \<le> 32 \<Longrightarrow> emit_groups (word_of_nat v) bits enc =
    (bits mod 5, enc @ map (\<lambda>i. BASE32 ! (v div 2 ^ (bits - 5 * Suc i) mod 32)) [0..<bits div 5])"
proof (induction "word_of_nat v :: u32" bits enc rule: emit_groups.induct)
  case (1 bits enc)
  show ?case
  proof (cases "5 \<le> bits")
    case True
    have up: "[0..<bits div 5] = 0 # map Suc [0..<(bits - 5) div 5]"
    proof -
      have "bits div 5 = Suc ((bits - 5) div 5)" using True by (simp add: le_div_geq)
      then show ?thesis by (simp only: map_Suc_upt) (simp add: upt_conv_Cons)
    qed
    have "unat (drop_bit (bits - 5) (word_of_nat v :: u32) AND 31) = v div 2 ^ (bits - 5) mod 32"
      using True 1(2) by (intro base32_index) simp
    moreover have "(bits - 5) mod 5 = bits mod 5" using True by (simp add: le_mod_geq)
    ultimately show ?thesis
      using True 1 by (simp add: emit_groups.simps [of _ bits] up comp_def diff_diff_add algebra_simps)
  next
    case False
    then show ?thesis by (simp add: emit_groups.simps [of _ bits])
  qed
qed

lemma split_index:
  fixes v w :: nat
  assumes "w < 2 ^ (8 * m)"
  shows "(v * 2 ^ (8 * m) + w) div 2 ^ (8 * m + e) = v div 2 ^ e"
  using assms by (simp add: power_add div_mult2_eq)

abbreviation be_value :: "bytes \<Rightarrow> nat" where
  "be_value bs \<equiv> nat_of_le (rev bs)"

lemma nat_of_le_append: "nat_of_le (xs @ ys) = nat_of_le xs + 256 ^ length xs * nat_of_le ys"
  by (induction xs) (auto simp: algebra_simps)

lemma be_value_Cons: "be_value (b # bs) = unat b * 2 ^ (8 * length bs) + be_value bs"
  by (simp add: nat_of_le_append power_mult)

lemma be_value_bound: "be_value bs < 2 ^ (8 * length bs)"
  using nat_of_le_bound [of "rev bs"] by (simp add: power_mult)

lemma encode_loop_eq:
  "bits < 5 \<Longrightarrow> encode_loop bs bits (word_of_nat v) enc =
    (let V = v * 2 ^ (8 * length bs) + be_value bs; T = bits + 8 * length bs in
     (T mod 5, word_of_nat V,
      enc @ map (\<lambda>i. BASE32 ! (V div 2 ^ (T - 5 * Suc i) mod 32)) [0..<T div 5]))"
proof (induction bs arbitrary: bits v enc)
  case Nil
  then show ?case by simp
next
  case (Cons b bs)
  let ?m = "length bs" and ?v = "v * 256 + unat b"
  let ?V = "?v * 2 ^ (8 * ?m) + be_value bs"
  let ?q = "(bits + 8) div 5" and ?r = "(bits + 8) mod 5"
  let ?T = "bits + 8 * length (b # bs)"
  let ?g = "\<lambda>i. BASE32 ! (?V div 2 ^ (?T - 5 * Suc i) mod 32)"
  have V: "v * 2 ^ (8 * length (b # bs)) + be_value (b # bs) = ?V"
    by (simp only: be_value_Cons) (simp add: power_add algebra_simps)
  have T: "?T = 5 * ?q + (?r + 8 * ?m)" by simp
  have Tdiv: "?T div 5 = ?q + (?r + 8 * ?m) div 5" by (subst T) (simp only: div_mult_self4)
  have Tmod: "?T mod 5 = (?r + 8 * ?m) mod 5" by (subst T) (simp only: mod_mult_self4)
  have first: "map (\<lambda>i. BASE32 ! (?v div 2 ^ (bits + 8 - 5 * Suc i) mod 32)) [0..<?q] = map ?g [0..<?q]"
  proof (rule map_cong [OF refl])
    fix i assume "i \<in> set [0..<?q]"
    then have "5 * Suc i \<le> bits + 8" by auto
    then have "?T - 5 * Suc i = 8 * ?m + (bits + 8 - 5 * Suc i)" by simp
    then show "BASE32 ! (?v div 2 ^ (bits + 8 - 5 * Suc i) mod 32) = ?g i"
      by (simp only: split_index [OF be_value_bound])
  qed
  have second: "map (\<lambda>i. BASE32 ! (?V div 2 ^ (?r + 8 * ?m - 5 * Suc i) mod 32)) [0..<(?r + 8 * ?m) div 5]
      = map ?g [?q..<?q + (?r + 8 * ?m) div 5]"
  proof -
    have "[?q..<?q + (?r + 8 * ?m) div 5] = map (\<lambda>i. ?q + i) [0..<(?r + 8 * ?m) div 5]"
      by (simp add: map_add_upt add.commute)
    moreover have "?T - 5 * Suc (?q + i) = ?r + 8 * ?m - 5 * Suc i" for i
      using mult_div_mod_eq [of 5 "bits + 8"] by (simp only: list.size) arith
    ultimately show ?thesis by (simp only: map_map comp_def)
  qed
  have loop: "encode_loop (b # bs) bits (word_of_nat v) enc
      = encode_loop bs ?r (word_of_nat ?v) (enc @ map ?g [0..<?q])"
  proof -
    have le: "bits + 8 \<le> 32" using Cons.prems by simp
    have "emit_groups (word_of_nat ?v) (bits + 8) enc = (?r, enc @ map ?g [0..<?q])"
      unfolding emit_groups_eq [OF le] first by (rule refl)
    then show ?thesis by (simp only: encode_loop.simps shift_in_byte Let_def prod.case)
  qed
  have "?r < 5" by simp
  from Cons.IH [OF this] show ?case
    by (simp only: loop V Let_def second Tdiv Tmod upt_add_eq_append [OF le0] map_append append_assoc)
qed

text \<open>C37: The shift-register loop that spells the network name is base 32: character \<open>i\<close> is
  the \<open>i\<close>-th group of five bits of the first eight digest bytes, although the accumulator is a
  32-bit register that loses its upper bits.\<close>

theorem network_name_is_base32:
  assumes "8 \<le> length (sha256 (as_bytes c))"
  shows "network_name_for sha256 c =
    ''tc-'' @ map (\<lambda>i. BASE32 ! (be_value (take 8 (sha256 (as_bytes c))) div 2 ^ (59 - 5 * i) mod 32)) [0..<10]"
proof -
  let ?bs = "take 8 (sha256 (as_bytes c))"
  have len: "length ?bs = 8" using assms by simp
  have "encode_loop ?bs 0 (word_of_nat 0) [] = (4, word_of_nat (be_value ?bs),
      map (\<lambda>i. BASE32 ! (be_value ?bs div 2 ^ (64 - 5 * Suc i) mod 32)) [0..<12])"
    unfolding encode_loop_eq [of 0, OF zero_less_numeral] len Let_def by simp
  then have loop: "encode_loop ?bs 0 0 [] = (4, word_of_nat (be_value ?bs),
      map (\<lambda>i. BASE32 ! (be_value ?bs div 2 ^ (64 - 5 * Suc i) mod 32)) [0..<12])"
    by simp
  have "64 - 5 * Suc i = 59 - 5 * i" for i :: nat by simp
  then show ?thesis
    unfolding network_name_for_def loop by (simp only: prod.case Let_def) (simp add: take_map)
qed
theorem network_name_is_base32_witness:
  "network_name_for (\<lambda>_. [0, 0, 0, 0, 0, 0, 255, 255, 1]) ''ABCD'' = ''tc-aaaaaaaaad''"
proof -
  have ten: "[0..<10] = [0, 1, 2, 3, 4, 5, 6, 7, 8, 9 :: nat]" by (simp add: upt_rec)
  have v: "be_value (take 8 [0, 0, 0, 0, 0, 0, 255, 255, 1]) = 65535" by simp
  show ?thesis
    using network_name_is_base32 [of "\<lambda>_. [0, 0, 0, 0, 0, 0, 255, 255, 1]" "''ABCD''"]
    unfolding ten v by (simp add: BASE32_def)
qed

section \<open>Credentials depend on the compact code only\<close>

lemma from_room_code_Ok:
  "from_room_code sha256 hmac_sha256 s = Ok cr \<longleftrightarrow>
    compact_ok (compact_room_code s) \<and>
    cr = \<lparr>cred_room_code = format_room_code (compact_room_code s),
          network_name = network_name_for sha256 (compact_room_code s),
          network_secret = network_secret_for hmac_sha256 (compact_room_code s)\<rparr>"
  by (auto simp: from_room_code_def res_simps credential_codes.normalize_Ok_iff Let_def compact_format_ok)

lemma from_room_code_Err:
  "from_room_code sha256 hmac_sha256 s = Err e \<longleftrightarrow> \<not> compact_ok (compact_room_code s) \<and> e = invalid_code_error"
  by (auto simp: from_room_code_def normalize_room_code_alt res_simps Let_def)

lemma from_room_code_cong:
  "compact_room_code s = compact_room_code t
    \<Longrightarrow> from_room_code sha256 hmac_sha256 s = from_room_code sha256 hmac_sha256 t"
  by (simp add: from_room_code_def normalize_room_code_alt)

lemma alphabet_length [simp]: "length ROOM_CODE_ALPHABET = 32"
  by (simp add: ROOM_CODE_ALPHABET_def)

lemma alphabet_normal: "compact_normal ROOM_CODE_ALPHABET"
  by (simp add: compact_normal_def ROOM_CODE_ALPHABET_def is_ascii_alphanumeric_def is_ascii_digit_def
      is_ascii_lower_def is_ascii_upper_def)

lemma code_letter_alphabet: "code_letter b \<in> set ROOM_CODE_ALPHABET"
  unfolding code_letter_def by (rule nth_mem) simp

lemma code_letters_normal: "compact_normal (map code_letter bs)"
  using alphabet_normal code_letter_alphabet by (auto simp: compact_normal_def list_all_iff)

lemma compact_ok_letters: "length bs = 12 \<Longrightarrow> compact_ok (map code_letter bs)"
  using code_letters_normal [of bs] by (simp add: compact_ok_def compact_normal_def list_all_iff)

lemma generate_Ok:
  assumes "generate sha256 hmac_sha256 urandom = Ok cr"
  obtains material where "length material = 12"
    "cred_room_code cr = format_room_code (map code_letter material)"
    "compact_room_code (cred_room_code cr) = map code_letter material"
    "from_room_code sha256 hmac_sha256 (cred_room_code cr) = Ok cr"
proof -
  from assms obtain m where m: "getrandom_fill 12 urandom = Ok m"
    and c: "from_room_code sha256 hmac_sha256 (format_room_code (map code_letter m)) = Ok cr"
    by (auto simp: generate_def res_simps)
  from m have len: "length m = 12"
    by (auto simp: getrandom_fill_def fill_random_def res_simps read_exact_def split: if_splits option.splits)
  have comp: "compact_room_code (format_room_code (map code_letter m)) = map code_letter m"
    using len code_letters_normal by (simp add: compact_format)
  with c have code: "cred_room_code cr = format_room_code (map code_letter m)"
    by (simp add: from_room_code_Ok)
  with c comp len show ?thesis using that by metis
qed

lemma generate_total:
  assumes "urandom = Ok r" "12 \<le> length (rx r)"
  shows "\<exists>cr. generate sha256 hmac_sha256 urandom = Ok cr"
proof -
  have "getrandom_fill 12 urandom = Ok (take 12 (rx r))"
    using assms by (simp add: getrandom_fill_def fill_random_def read_exact_def)
  moreover have "compact_ok (compact_room_code (format_room_code (map code_letter (take 12 (rx r)))))"
    using assms(2) code_letters_normal by (simp add: compact_format compact_ok_letters)
  ultimately show ?thesis by (auto simp: generate_def from_room_code_Ok)
qed

section \<open>Hexadecimal text\<close>

lemma HEX_lower: "n < 16 \<Longrightarrow> is_lower_hex (HEX ! n)"
proof -
  assume "n < 16"
  then have "HEX ! n \<in> set HEX" by (intro nth_mem) (simp add: HEX_def)
  then show ?thesis by (auto simp: HEX_def is_lower_hex_def is_ascii_digit_def)
qed

lemma unat_high_nibble: "unat (drop_bit 4 (b :: u8)) = unat b div 16"
  by (simp only: unat_drop_bit_eq) (simp add: drop_bit_eq_div)

lemma unat_low_nibble: "unat (b AND 15 :: u8) = unat b mod 16"
proof -
  have "b AND 15 = take_bit 4 b" by (simp add: take_bit_eq_mask mask_eq_exp_minus_1)
  then have "unat (b AND 15) = take_bit 4 (unat b)" by (simp only: unsigned_take_bit_eq)
  then show ?thesis by (simp add: take_bit_eq_mod)
qed

lemma nibbles_less: "unat (drop_bit 4 (b :: u8)) < 16" "unat (b AND 15 :: u8) < 16"
  using u8_bound [of b] by (simp_all add: unat_high_nibble unat_low_nibble)

lemma length_hex_encode [simp]: "length (hex_encode bs) = 2 * length bs"
  by (induction bs) (auto simp: hex_encode_def)

lemma hex_encode_lower: "list_all is_lower_hex (hex_encode bs)"
  by (induction bs) (auto simp: hex_encode_def HEX_lower nibbles_less)

lemma hex_encode_Cons:
  "hex_encode (b # bs) = HEX ! unat (drop_bit 4 b) # HEX ! unat (b AND 15) # hex_encode bs"
  by (simp add: hex_encode_def)

end
