(* ===== verification/Mesh.thy ===== *)
theory Mesh
  imports Credentials
begin

text \<open>
  \<open>network/mesh.rs\<close>: the ports of the EasyTier mesh that host and members derive from the room code
  alone, and the loopback RPC portal of \<open>network/easytier.rs\<close>, derived the same way. Port
  arithmetic is on 16-bit words, so an overflow would be visible as a wrap-around.
\<close>

section \<open>Endpoints\<close>

record mesh_endpoints =
  scaffolding_port :: u16
  minecraft_port :: u16
  member_local_scaffolding_port :: u16
  member_local_minecraft_port :: u16

definition mesh_from_room_code :: "(bytes \<Rightarrow> bytes) \<Rightarrow> string \<Rightarrow> mesh_endpoints" where
  "mesh_from_room_code sha256 code_text =
    (let digest = sha256 (as_bytes (compact_room_code code_text));
         a = u16_from_be_bytes [digest ! 0, digest ! 1];
         b = u16_from_be_bytes [digest ! 2, digest ! 3]
     in \<lparr>scaffolding_port = 41000 + a mod 9000,
         minecraft_port = 51000 + b mod 9000,
         member_local_scaffolding_port = 42000 + a mod 9000,
         member_local_minecraft_port = 52000 + b mod 9000\<rparr>)"

definition HOST_VIRTUAL_IPV4 :: string where
  "HOST_VIRTUAL_IPV4 = show_v4 10 144 144 1"

definition host_scaffolding_addr :: "mesh_endpoints \<Rightarrow> socket_addr" where
  "host_scaffolding_addr m = SocketV4 10 144 144 1 (scaffolding_port m)"

definition host_minecraft_addr :: "mesh_endpoints \<Rightarrow> socket_addr" where
  "host_minecraft_addr m = SocketV4 10 144 144 1 (minecraft_port m)"

definition member_local_scaffolding_addr :: "mesh_endpoints \<Rightarrow> socket_addr" where
  "member_local_scaffolding_addr m = SocketV4 127 0 0 1 (member_local_scaffolding_port m)"

definition member_local_minecraft_addr :: "mesh_endpoints \<Rightarrow> socket_addr" where
  "member_local_minecraft_addr m = SocketV4 127 0 0 1 (member_local_minecraft_port m)"

definition member_port_forwards :: "mesh_endpoints \<Rightarrow> string list" where
  "member_port_forwards m =
    [''tcp://127.0.0.1:'' @ dec (unat (member_local_scaffolding_port m)) @ ''/'' @ HOST_VIRTUAL_IPV4
       @ '':'' @ dec (unat (scaffolding_port m)),
     ''tcp://127.0.0.1:'' @ dec (unat (member_local_minecraft_port m)) @ ''/'' @ HOST_VIRTUAL_IPV4
       @ '':'' @ dec (unat (minecraft_port m))]"

definition mesh_ingress_bind_scaffolding :: "mesh_endpoints \<Rightarrow> socket_addr" where
  "mesh_ingress_bind_scaffolding m = SocketV4 0 0 0 0 (scaffolding_port m)"

definition mesh_ingress_bind_minecraft :: "mesh_endpoints \<Rightarrow> socket_addr" where
  "mesh_ingress_bind_minecraft m = SocketV4 0 0 0 0 (minecraft_port m)"

definition rpc_portal_for_room :: "(bytes \<Rightarrow> bytes) \<Rightarrow> string \<Rightarrow> socket_addr" where
  "rpc_portal_for_room sha256 code_text =
    (let digest = sha256 (as_bytes code_text);
         port = 19000 + u16_from_be_bytes [digest ! 0, digest ! 1] mod 1000
     in SocketV4 127 0 0 1 port)"

section \<open>Ranges\<close>

lemma unat_port_offset:
  assumes "base + m \<le> 65536" "0 < m" "m < 65536"
  shows "unat (word_of_nat base + w mod word_of_nat m :: u16) = base + unat w mod m"
proof -
  have m: "unat (word_of_nat m :: u16) = m" using assms by (simp add: unat_of_nat)
  have b: "unat (word_of_nat base :: u16) = base" using assms by (simp add: unat_of_nat)
  have "unat w mod m < m" using assms by simp
  then have "base + unat w mod m < 65536" using assms by linarith
  then show ?thesis by (simp add: unat_word_ariths m b unat_mod_distrib)
qed

lemmas port_offset_simps =
  unat_port_offset [of 41000 9000, simplified] unat_port_offset [of 51000 9000, simplified]
  unat_port_offset [of 42000 9000, simplified] unat_port_offset [of 52000 9000, simplified]
  unat_port_offset [of 19000 1000, simplified]

text \<open>The four ports of a room as numbers: two offsets below 9000 on four bases.\<close>

lemma mesh_ports:
  obtains a b where "a < 9000" "b < 9000"
    "unat (scaffolding_port (mesh_from_room_code sha256 s)) = 41000 + a"
    "unat (member_local_scaffolding_port (mesh_from_room_code sha256 s)) = 42000 + a"
    "unat (minecraft_port (mesh_from_room_code sha256 s)) = 51000 + b"
    "unat (member_local_minecraft_port (mesh_from_room_code sha256 s)) = 52000 + b"
proof -
  let ?d = "sha256 (as_bytes (compact_room_code s))"
  let ?a = "u16_from_be_bytes [?d ! 0, ?d ! 1]" and ?b = "u16_from_be_bytes [?d ! 2, ?d ! 3]"
  show ?thesis
    by (rule that [of "unat ?a mod 9000" "unat ?b mod 9000"])
      (simp_all add: mesh_from_room_code_def Let_def port_offset_simps)
qed

lemma mesh_from_room_code_cong:
  "compact_room_code s = compact_room_code t \<Longrightarrow> mesh_from_room_code sha256 s = mesh_from_room_code sha256 t"
  by (simp add: mesh_from_room_code_def)

lemma rpc_portal_range:
  obtains p where "rpc_portal_for_room sha256 s = SocketV4 127 0 0 1 p" "19000 \<le> unat p" "unat p < 20000"
proof -
  let ?d = "sha256 (as_bytes s)"
  let ?p = "19000 + u16_from_be_bytes [?d ! 0, ?d ! 1] mod 1000"
  have "unat ?p = 19000 + unat (u16_from_be_bytes [?d ! 0, ?d ! 1]) mod 1000"
    by (rule port_offset_simps)
  then show ?thesis by (intro that [of ?p]) (simp_all add: rpc_portal_for_room_def Let_def)
qed

section \<open>Properties\<close>

text \<open>Everything a guest derives from a room code is what the host derived: any two spellings
  of a code (case, spaces, hyphens) give the same credentials, the same network name and secret
  and the same ports.\<close>

theorem spelling_does_not_matter:
  assumes "compact_room_code s = compact_room_code t"
  shows "from_room_code sha256 hmac s = from_room_code sha256 hmac t
    \<and> mesh_from_room_code sha256 s = mesh_from_room_code sha256 t"
  using from_room_code_cong [OF assms] mesh_from_room_code_cong [OF assms] by simp

theorem spelling_does_not_matter_witness:
  "from_room_code (\<lambda>b. b) (\<lambda>k m. m) ''abcd-efgh-jkmn'' = from_room_code (\<lambda>b. b) (\<lambda>k m. m) '' ABCD EFGH JKMN ''
    \<and> mesh_from_room_code (\<lambda>b. b) ''abcd-efgh-jkmn'' = mesh_from_room_code (\<lambda>b. b) '' ABCD EFGH JKMN ''"
  by (rule spelling_does_not_matter) code_simp

text \<open>C35: A generated room code is valid and shareable: whenever twelve random bytes can be read,
  generation succeeds; the code has three groups of four letters of the alphabet, and a guest who
  types it obtains exactly the host's credentials.\<close>

theorem generated_code_joins:
  assumes "12 \<le> length (rx r)"
  shows "\<exists>cr. generate sha256 hmac (Ok r) = Ok cr
    \<and> from_room_code sha256 hmac (cred_room_code cr) = Ok cr
    \<and> normalize_room_code (cred_room_code cr) = Ok (cred_room_code cr)
    \<and> length (cred_room_code cr) = 14
    \<and> set (compact_room_code (cred_room_code cr)) \<subseteq> set ROOM_CODE_ALPHABET"
proof -
  obtain cr where cr: "generate sha256 hmac (Ok r) = Ok cr"
    using generate_total [OF refl assms] by blast
  obtain material where m: "length material = 12"
    "cred_room_code cr = format_room_code (map code_letter material)"
    "compact_room_code (cred_room_code cr) = map code_letter material"
    "from_room_code sha256 hmac (cred_room_code cr) = Ok cr"
    by (rule generate_Ok [OF cr])
  have n: "normalize_room_code (cred_room_code cr) = Ok (cred_room_code cr)"
    using m by (simp add: normalize_room_code_alt compact_ok_letters)
  have "set (compact_room_code (cred_room_code cr)) \<subseteq> set ROOM_CODE_ALPHABET"
    using m(3) code_letter_alphabet by auto
  with cr m(4) n credential_codes.normalize_length [OF n] show ?thesis by blast
qed

theorem generated_code_joins_witness:
  "\<exists>cr. generate (\<lambda>b. b) (\<lambda>k m. m) (Ok \<lparr>rx = replicate 12 0, rx_end = None\<rparr>) = Ok cr
    \<and> from_room_code (\<lambda>b. b) (\<lambda>k m. m) (cred_room_code cr) = Ok cr"
  using generated_code_joins [of "\<lparr>rx = replicate 12 0, rx_end = None\<rparr>" "\<lambda>b. b" "\<lambda>k m. m"] by auto

text \<open>C36: The four ports derived from a room code are distinct, above 41000 and computed without
  wrap-around, and none of them is the port of the sidecar's control portal.\<close>

theorem mesh_ports_distinct:
  "case mesh_from_room_code sha256 s of m \<Rightarrow>
     distinct [unat (scaffolding_port m), unat (minecraft_port m), unat (member_local_scaffolding_port m),
       unat (member_local_minecraft_port m), unat (addr_port (rpc_portal_for_room sha256 t))]
     \<and> 41000 \<le> unat (scaffolding_port m) \<and> unat (scaffolding_port m) < 50000
     \<and> 51000 \<le> unat (minecraft_port m) \<and> unat (minecraft_port m) < 60000
     \<and> unat (member_local_scaffolding_port m) = unat (scaffolding_port m) + 1000
     \<and> unat (member_local_minecraft_port m) = unat (minecraft_port m) + 1000"
proof -
  obtain p where p: "rpc_portal_for_room sha256 t = SocketV4 127 0 0 1 p" "19000 \<le> unat p" "unat p < 20000"
    by (rule rpc_portal_range)
  show ?thesis by (rule mesh_ports [of sha256 s]) (use p in simp)
qed

end
