(* ===== verification/Room_Service.thy ===== *)
theory Room_Service
  imports Credentials "HOL-Library.AList"
begin

text \<open>
  \<open>room/events.rs\<close> and \<open>room/service.rs\<close>: the room service, its validation of requests and of the
  backend's answers, its lifecycle and the events it publishes.

  The state of \<open>RoomService\<close> is a record: the snapshot, the state of the backend behind the
  \<open>RoomBackend\<close> trait, the events published so far and the members known to the event
  subscribers (a hash map, as an association list without duplicate keys). The backend is a record
  of functions over its own state, one per method of the trait. The order in which a hash map
  yields its keys is unspecified and is the argument \<open>key_order\<close>. Every method awaits the backend
  while the session that called it waits, so a method is one function from state to state.
\<close>

section \<open>Events\<close>

datatype room_event =
    PeerJoined room_member
  | PeerLeft string
  | PeerUpdated room_member
  | NetworkUpdated network_status
  | StateChanged room_snapshot

fun message_type :: "room_event \<Rightarrow> string" where
  "message_type (PeerJoined m) = ''peer.joined''"
| "message_type (PeerLeft i) = ''peer.left''"
| "message_type (PeerUpdated m) = ''peer.updated''"
| "message_type (NetworkUpdated n) = ''network.updated''"
| "message_type (StateChanged s) = ''room.state-changed''"

section \<open>The backend and the service\<close>

record 'b room_backend =
  be_set_identity :: "bytes \<Rightarrow> 'b \<Rightarrow> 'b"
  be_create :: "create_room_request \<Rightarrow> 'b \<Rightarrow> (room_error + backend_room) \<times> 'b"
  be_join :: "join_room_request \<Rightarrow> 'b \<Rightarrow> (room_error + backend_room) \<times> 'b"
  be_set_lan_address :: "socket_addr \<Rightarrow> 'b \<Rightarrow> (room_error + unit) \<times> 'b"
  be_diagnose :: "'b \<Rightarrow> (room_error + network_status) \<times> 'b"
  be_leave :: "'b \<Rightarrow> (room_error + unit) \<times> 'b"
  be_refresh :: "'b \<Rightarrow> (room_error + backend_refresh) \<times> 'b"

type_synonym known_members = "(string \<times> room_member) list"

record 'b room_service =
  svc_state :: room_snapshot
  svc_backend :: 'b
  svc_events :: "room_event list"
  svc_known :: known_members

definition new_room_service :: "'b \<Rightarrow> 'b room_service" where
  "new_room_service b =
    \<lparr>svc_state = idle_snapshot, svc_backend = b, svc_events = [], svc_known = []\<rparr>"

definition publish :: "room_event \<Rightarrow> 'b room_service \<Rightarrow> 'b room_service" where
  "publish e s = s\<lparr>svc_events := svc_events s @ [e]\<rparr>"

section \<open>Validation\<close>

definition validate_session_id :: "string \<Rightarrow> room_error + string" where
  "validate_session_id value =
    (let v = trim value in
     if v = [] \<or> 128 < length v \<or> has_control v
     then Err (room_error_invalid ''The game session ID must contain 1 to 128 non-control characters.'')
     else Ok v)"

definition validate_loopback_address :: "string \<Rightarrow> room_error + socket_addr" where
  "validate_loopback_address value =
    try_bind (ok_or (room_error_invalid ''The LAN address must be a valid IP endpoint.'')
                (parse_socket_addr value)) (\<lambda>address.
      if \<not> is_loopback address \<or> addr_port address = 0
      then Err (room_error_invalid ''The LAN address must use a loopback IP and a non-zero port.'')
      else Ok address)"

definition service_normalize_room_code :: "string \<Rightarrow> room_error + string" where
  "service_normalize_room_code value =
    (let compact = map to_ascii_uppercase (filter (\<lambda>c. \<not> (c = CHR ''-'' \<or> c = CHR '' '')) value)
     in if length compact \<noteq> 12 \<or> \<not> list_all is_ascii_alphanumeric compact
        then Err (room_error_new ''room.invalid-code''
               ''The room code must contain three groups of four ASCII letters or digits.'' False)
        else Ok (take 4 compact @ ''-'' @ take 4 (drop 4 compact) @ ''-'' @ take 4 (drop 8 compact)))"

definition validate_backend_room :: "backend_room \<Rightarrow> bool \<Rightarrow> room_error + backend_room" where
  "validate_backend_room room require_local_address =
    try_bind (service_normalize_room_code (br_room_code room)) (\<lambda>c.
    try_bind (transpose_map validate_loopback_address (br_local_address room)) (\<lambda>la.
      let room' = room\<lparr>br_room_code := c, br_local_address := map_option addr_to_string la\<rparr> in
      if require_local_address \<and> br_local_address room' = None
      then Err (room_error_new ''network.forward-missing''
             ''The network backend did not provide a local Minecraft address.'' False)
      else Ok room'))"

section \<open>Polling\<close>

text \<open>
  The part of \<open>poll_and_emit\<close> under the state lock that handles a refreshed network status: the
  new snapshot, the status to publish (when it differs by \<open>PartialEq\<close>) and the snapshot to
  publish (when the lifecycle state changes).
\<close>

definition apply_network ::
    "network_status \<Rightarrow> room_snapshot \<Rightarrow> room_snapshot \<times> network_status option \<times> room_snapshot option" where
  "apply_network n st =
    (let previous = network st;
         st1 = st\<lparr>network := Some n\<rparr>;
         emit_network = (if option_eq network_status_eq previous (Some n) then None else Some n)
     in if room_st st1 = Connected \<and> \<not> is_healthy n
        then (let st2 = st1\<lparr>room_st := Reconnecting\<rparr> in (st2, emit_network, Some st2))
        else if room_st st1 = Reconnecting \<and> is_healthy n
        then (let st2 = st1\<lparr>room_st := Connected\<rparr> in (st2, emit_network, Some st2))
        else (st1, emit_network, None))"

definition refresh_snapshot ::
    "backend_refresh \<Rightarrow> room_snapshot \<Rightarrow> room_snapshot \<times> network_status option \<times> room_snapshot option" where
  "refresh_snapshot rf st =
    (let (st1, emit_network, emit_state) =
           (case rf_network rf of None \<Rightarrow> (st, None, None) | Some n \<Rightarrow> apply_network n st);
         st2 = (case rf_local_address rf of None \<Rightarrow> st1 | Some a \<Rightarrow> st1\<lparr>local_address := Some a\<rparr>);
         st3 = (case rf_members rf of None \<Rightarrow> st2 | Some ms \<Rightarrow> st2\<lparr>members := ms\<rparr>)
     in (st3, emit_network, emit_state))"

definition member_map :: "room_member list \<Rightarrow> known_members" where
  "member_map ms = fold (\<lambda>m. AList.update (member_id m) m) ms []"

definition member_event :: "known_members \<Rightarrow> room_member \<Rightarrow> room_event list" where
  "member_event known m = (case map_of known (member_id m) of
      None \<Rightarrow> [PeerJoined m]
    | Some previous \<Rightarrow> if \<not> room_member_eq previous m then [PeerUpdated m] else [])"

definition member_diff ::
    "(string list \<Rightarrow> string list) \<Rightarrow> known_members \<Rightarrow> room_member list \<Rightarrow> room_event list" where
  "member_diff key_order known ms =
    concat (map (member_event known) ms)
    @ map PeerLeft (filter (\<lambda>i. map_of (member_map ms) i = None) (key_order (map fst known)))"

definition poll_and_emit ::
    "'b room_backend \<Rightarrow> (string list \<Rightarrow> string list) \<Rightarrow> 'b room_service \<Rightarrow> 'b room_service" where
  "poll_and_emit B key_order s = (case be_refresh B (svc_backend s) of
      (Err _, b) \<Rightarrow> s\<lparr>svc_backend := b\<rparr>
    | (Ok rf, b) \<Rightarrow>
        (let s1 = s\<lparr>svc_backend := b\<rparr> in
         if room_st (svc_state s1) \<notin> {Connected, Reconnecting, Diagnosing} then s1
         else
           (let (st, emit_network, emit_state) = refresh_snapshot rf (svc_state s1);
                s2 = s1\<lparr>svc_state := st\<rparr>;
                s3 = (case rf_members rf of None \<Rightarrow> s2
                      | Some ms \<Rightarrow> s2\<lparr>svc_events := svc_events s2 @ member_diff key_order (svc_known s2) ms,
                                      svc_known := member_map ms\<rparr>);
                s4 = (case emit_network of None \<Rightarrow> s3 | Some n \<Rightarrow> publish (NetworkUpdated n) s3)
            in (case emit_state of None \<Rightarrow> s4 | Some sn \<Rightarrow> publish (StateChanged sn) s4))))"

definition status ::
    "'b room_backend \<Rightarrow> (string list \<Rightarrow> string list) \<Rightarrow> 'b room_service \<Rightarrow> room_snapshot \<times> 'b room_service" where
  "status B key_order s = (let s' = poll_and_emit B key_order s in (svc_state s', s'))"

section \<open>Operations\<close>

definition initialize_identity :: "'b room_backend \<Rightarrow> bytes \<Rightarrow> 'b room_service \<Rightarrow> 'b room_service" where
  "initialize_identity B k s = s\<lparr>svc_backend := be_set_identity B k (svc_backend s)\<rparr>"

definition replace_known_members :: "room_member list \<Rightarrow> 'b room_service \<Rightarrow> 'b room_service" where
  "replace_known_members ms s = s\<lparr>svc_known := member_map ms\<rparr>"

definition connected_snapshot :: "room_role \<Rightarrow> string option \<Rightarrow> backend_room \<Rightarrow> room_snapshot" where
  "connected_snapshot r sid room =
    \<lparr>room_st = Connected, role = r, room_code = Some (br_room_code room),
     local_address = br_local_address room, game_session_id = sid,
     network = Some (br_network room), members = br_members room, error_code = None,
     error_message = None\<rparr>"

text \<open>
  What \<open>create\<close> and \<open>join\<close> do with the backend's answer: the two methods contain the same code with
  another role and another flag.
\<close>

definition enter_room ::
    "room_role \<Rightarrow> bool \<Rightarrow> string option \<Rightarrow> room_error + backend_room \<Rightarrow> 'b room_service
      \<Rightarrow> (room_error + room_snapshot) \<times> 'b room_service" where
  "enter_room r require_local sid answer s = (case answer of
      Ok room0 \<Rightarrow> (case validate_backend_room room0 require_local of
          Err e \<Rightarrow> (Err e, s\<lparr>svc_state := faulted_snapshot r sid e\<rparr>)
        | Ok room \<Rightarrow>
            (let snapshot = connected_snapshot r sid room;
                 s1 = replace_known_members (br_members room) s;
                 s2 = s1\<lparr>svc_state := snapshot\<rparr>;
                 s3 = publish (StateChanged snapshot) s2
             in (Ok snapshot, s3)))
    | Err e \<Rightarrow> (Err e, s\<lparr>svc_state := faulted_snapshot r sid e\<rparr>))"

definition create ::
    "'b room_backend \<Rightarrow> create_room_request \<Rightarrow> 'b room_service
      \<Rightarrow> (room_error + room_snapshot) \<times> 'b room_service" where
  "create B request s = (case validate_session_id (create_session_id request) of
      Err e \<Rightarrow> (Err e, s)
    | Ok sid \<Rightarrow> (case validate_loopback_address (create_lan_address request) of
          Err e \<Rightarrow> (Err e, s)
        | Ok address \<Rightarrow>
            (let request' = request\<lparr>create_session_id := sid, create_lan_address := addr_to_string address\<rparr>
             in if room_st (svc_state s) \<noteq> Idle then (Err room_error_busy, s)
                else
                  (let s1 = s\<lparr>svc_state := pending_snapshot Creating RoleHost (Some sid)\<rparr>;
                       (answer, b) = be_create B request' (svc_backend s1)
                   in enter_room RoleHost False (Some sid) answer (s1\<lparr>svc_backend := b\<rparr>)))))"

definition join_room ::
    "'b room_backend \<Rightarrow> join_room_request \<Rightarrow> 'b room_service
      \<Rightarrow> (room_error + room_snapshot) \<times> 'b room_service" where
  "join_room B request s = (case service_normalize_room_code (join_room_code request) of
      Err e \<Rightarrow> (Err e, s)
    | Ok c \<Rightarrow> (case transpose_map validate_session_id (join_session_id request) of
          Err e \<Rightarrow> (Err e, s)
        | Ok sid \<Rightarrow>
            (let request' = request\<lparr>join_room_code := c, join_session_id := sid\<rparr>
             in if room_st (svc_state s) \<noteq> Idle then (Err room_error_busy, s)
                else
                  (let s1 = s\<lparr>svc_state := pending_snapshot Joining RoleMember sid\<rparr>;
                       (answer, b) = be_join B request' (svc_backend s1)
                   in enter_room RoleMember True sid answer (s1\<lparr>svc_backend := b\<rparr>)))))"

definition not_host_error :: room_error where
  "not_host_error = room_error_new ''room.not-host''
     ''Only a connected room host can change the LAN address.'' False"

definition set_lan_address ::
    "'b room_backend \<Rightarrow> (string list \<Rightarrow> string list) \<Rightarrow> set_lan_address_request \<Rightarrow> 'b room_service
      \<Rightarrow> (room_error + room_snapshot) \<times> 'b room_service" where
  "set_lan_address B key_order request s =
    (case validate_loopback_address (lan_address request) of
      Err e \<Rightarrow> (Err e, s)
    | Ok address \<Rightarrow>
        if room_st (svc_state s) \<noteq> Connected \<or> role (svc_state s) \<noteq> RoleHost
        then (Err not_host_error, s)
        else (case be_set_lan_address B address (svc_backend s) of
            (Err e, b) \<Rightarrow> (Err e, s\<lparr>svc_backend := b\<rparr>)
          | (Ok _, b) \<Rightarrow>
              (let (snapshot, s') = status B key_order (s\<lparr>svc_backend := b\<rparr>)
               in (Ok snapshot, s'))))"

definition not_connected_error :: room_error where
  "not_connected_error = room_error_new ''room.not-connected''
     ''Network diagnostics require an active room.'' False"

definition diagnose ::
    "'b room_backend \<Rightarrow> 'b room_service \<Rightarrow> (room_error + network_status) \<times> 'b room_service" where
  "diagnose B s =
    (if room_st (svc_state s) \<noteq> Connected \<and> room_st (svc_state s) \<noteq> Reconnecting
     then (Err not_connected_error, s)
     else
       (let previous = room_st (svc_state s);
            s1 = s\<lparr>svc_state := (svc_state s)\<lparr>room_st := Diagnosing\<rparr>\<rparr>;
            (answer, b) = be_refresh B (svc_backend s1);
            refresh = (case answer of Err _ \<Rightarrow> backend_refresh_default | Ok rf \<Rightarrow> rf);
            s2 = s1\<lparr>svc_backend := b\<rparr>
        in (case rf_network refresh of
            Some n \<Rightarrow>
              (let st = (svc_state s2)\<lparr>room_st := previous, network := Some n\<rparr>;
                   st' = (case rf_members refresh of None \<Rightarrow> st | Some ms \<Rightarrow> st\<lparr>members := ms\<rparr>);
                   st'' = (case rf_local_address refresh of None \<Rightarrow> st' | Some a \<Rightarrow> st'\<lparr>local_address := Some a\<rparr>)
               in (Ok n, s2\<lparr>svc_state := st''\<rparr>))
          | None \<Rightarrow> (case be_diagnose B (svc_backend s2) of
                (Ok n, b') \<Rightarrow>
                  (Ok n, s2\<lparr>svc_backend := b',
                            svc_state := (svc_state s2)\<lparr>room_st := previous, network := Some n\<rparr>\<rparr>)
              | (Err e, b') \<Rightarrow>
                  (Err e, s2\<lparr>svc_backend := b',
                             svc_state := faulted_snapshot (role (svc_state s2))
                               (game_session_id (svc_state s2)) e\<rparr>)))))"

definition leave :: "'b room_backend \<Rightarrow> 'b room_service \<Rightarrow> (room_error + room_snapshot) \<times> 'b room_service" where
  "leave B s =
    (if room_st (svc_state s) = Idle then (Ok (svc_state s), s)
     else if room_st (svc_state s) = Leaving then (Err room_error_busy, s)
     else
       (let s1 = s\<lparr>svc_state := (svc_state s)\<lparr>room_st := Leaving\<rparr>\<rparr> in
        case be_leave B (svc_backend s1) of
          (Ok _, b) \<Rightarrow>
            (let s2 = s1\<lparr>svc_backend := b, svc_state := idle_snapshot, svc_known := []\<rparr>
             in (Ok idle_snapshot, publish (StateChanged idle_snapshot) s2))
        | (Err e, b) \<Rightarrow>
            (Err e, s1\<lparr>svc_backend := b,
                       svc_state := faulted_snapshot (role (svc_state s1))
                         (game_session_id (svc_state s1)) e\<rparr>)))"

section \<open>The service as a machine\<close>

datatype service_op =
    OpInitializeIdentity bytes
  | OpPoll
  | OpStatus
  | OpCreate create_room_request
  | OpJoin join_room_request
  | OpSetLanAddress set_lan_address_request
  | OpDiagnose
  | OpLeave

fun service_step ::
    "'b room_backend \<Rightarrow> (string list \<Rightarrow> string list) \<Rightarrow> service_op \<Rightarrow> 'b room_service \<Rightarrow> 'b room_service" where
  "service_step B ko (OpInitializeIdentity k) s = initialize_identity B k s"
| "service_step B ko OpPoll s = poll_and_emit B ko s"
| "service_step B ko OpStatus s = snd (status B ko s)"
| "service_step B ko (OpCreate r) s = snd (create B r s)"
| "service_step B ko (OpJoin r) s = snd (join_room B r s)"
| "service_step B ko (OpSetLanAddress r) s = snd (set_lan_address B ko r s)"
| "service_step B ko OpDiagnose s = snd (diagnose B s)"
| "service_step B ko OpLeave s = snd (leave B s)"

section \<open>Validators\<close>

interpretation service_addresses: loopback_validator validate_loopback_address
  by unfold_locales
    (auto simp: validate_loopback_address_def loopback_endpoint_def res_simps split: if_splits)

lemma service_normalize_eq: "service_normalize_room_code s = normalize_room_code s"
  by (simp add: service_normalize_room_code_def normalize_room_code_def invalid_code_error_def
      format_room_code_def Let_def)

interpretation service_codes: room_code_normalizer service_normalize_room_code
  by unfold_locales (simp add: service_normalize_eq credential_codes.normalize_Ok_iff)

lemma validate_session_id_Ok_iff:
  "validate_session_id s = Ok v \<longleftrightarrow> v = trim s \<and> v \<noteq> [] \<and> length v \<le> 128 \<and> \<not> has_control v"
  by (auto simp: validate_session_id_def Let_def not_less)

lemma validate_session_id_stable: "validate_session_id s = Ok v \<Longrightarrow> validate_session_id v = Ok v"
  by (auto simp: validate_session_id_Ok_iff)

lemma validate_backend_room_Ok:
  assumes "validate_backend_room room req = Ok room'"
  shows "service_normalize_room_code (br_room_code room') = Ok (br_room_code room')"
    and "br_network room' = br_network room" "br_members room' = br_members room"
    and "br_local_address room = None \<longleftrightarrow> br_local_address room' = None"
    and "req \<Longrightarrow> br_local_address room' \<noteq> None"
    and "br_local_address room' = Some a
      \<Longrightarrow> \<exists>e. validate_loopback_address a = Ok e \<and> addr_to_string e = a"
proof -
  from assms obtain c la where c: "service_normalize_room_code (br_room_code room) = Ok c"
    and la: "transpose_map validate_loopback_address (br_local_address room) = Ok la"
    and r: "room' = room\<lparr>br_room_code := c, br_local_address := map_option addr_to_string la\<rparr>"
    and q: "\<not> (req \<and> la = None)"
    by (auto simp: validate_backend_room_def Let_def res_simps split: if_splits)
  show "service_normalize_room_code (br_room_code room') = Ok (br_room_code room')"
    using service_codes.normalize_idem [OF c] r by simp
  show "br_network room' = br_network room" "br_members room' = br_members room"
    using r by simp_all
  show "br_local_address room = None \<longleftrightarrow> br_local_address room' = None"
    using la r by (cases "br_local_address room") (auto simp: res_simps)
  show "req \<Longrightarrow> br_local_address room' \<noteq> None" using q r by simp
  assume "br_local_address room' = Some a"
  with r obtain e where "la = Some e" "a = addr_to_string e" by auto
  with la show "\<exists>e. validate_loopback_address a = Ok e \<and> addr_to_string e = a"
    by (auto simp: res_simps dest: service_addresses.validate_stable)
qed

section \<open>The invariant of the service\<close>

text \<open>
  Between two operations the service is in one of four states (the others are passed through
  inside an operation), and its snapshot has the shape of that state: an idle snapshot is empty; a
  snapshot of a room has a role, a normalised code, a network status, no error and, for a
  member, a local address; a faulted one has a role and the error and nothing of the room.
\<close>

definition session_id_ok :: "string option \<Rightarrow> bool" where
  "session_id_ok sid = (case sid of None \<Rightarrow> True | Some v \<Rightarrow> validate_session_id v = Ok v)"

definition room_ok :: "room_snapshot \<Rightarrow> bool" where
  "room_ok st \<longleftrightarrow>
    (case room_code st of None \<Rightarrow> False | Some c \<Rightarrow> service_normalize_room_code c = Ok c)
    \<and> role st \<noteq> RoleNone \<and> network st \<noteq> None
    \<and> (role st = RoleMember \<longrightarrow> local_address st \<noteq> None)
    \<and> (role st = RoleHost \<longrightarrow> game_session_id st \<noteq> None)
    \<and> session_id_ok (game_session_id st)
    \<and> error_code st = None \<and> error_message st = None"

definition fault_ok :: "room_snapshot \<Rightarrow> bool" where
  "fault_ok st \<longleftrightarrow> role st \<noteq> RoleNone \<and> error_code st \<noteq> None \<and> error_message st \<noteq> None
    \<and> room_code st = None \<and> local_address st = None \<and> network st = None \<and> members st = []
    \<and> session_id_ok (game_session_id st)"

fun snapshot_ok :: "room_snapshot \<Rightarrow> bool" where
  "snapshot_ok st = (case room_st st of
      Idle \<Rightarrow> st = idle_snapshot
    | Connected \<Rightarrow> room_ok st
    | Reconnecting \<Rightarrow> room_ok st
    | Faulted \<Rightarrow> fault_ok st
    | _ \<Rightarrow> False)"

definition service_ok :: "'b room_service \<Rightarrow> bool" where
  "service_ok s \<longleftrightarrow> snapshot_ok (svc_state s) \<and> distinct (map fst (svc_known s))"

lemma snapshot_ok_simps [simp]:
  "snapshot_ok idle_snapshot"
  "snapshot_ok (faulted_snapshot r sid e) \<longleftrightarrow> r \<noteq> RoleNone \<and> session_id_ok sid"
  by (auto simp: idle_snapshot_def faulted_snapshot_def fault_ok_def)

lemma fold_update_distinct: "distinct (map fst xs) \<Longrightarrow>
    distinct (map fst (fold (\<lambda>m. AList.update (member_id m) m) ms xs))"
  by (induction ms arbitrary: xs) (auto simp: distinct_update)

lemma member_map_distinct [simp]: "distinct (map fst (member_map ms))"
  unfolding member_map_def by (rule fold_update_distinct) simp

lemma service_ok_new: "service_ok (new_room_service b)"
  by (simp add: service_ok_def new_room_service_def del: snapshot_ok.simps)

lemma publish_simps [simp]:
  "svc_state (publish e s) = svc_state s" "svc_known (publish e s) = svc_known s"
  "svc_backend (publish e s) = svc_backend s" "svc_events (publish e s) = svc_events s @ [e]"
  by (simp_all add: publish_def)

lemma service_ok_publish [simp]: "service_ok (publish e s) = service_ok s"
  by (simp add: service_ok_def)

lemma service_ok_fields [simp]:
  "service_ok (s\<lparr>svc_backend := b\<rparr>) = service_ok s"
  "service_ok (s\<lparr>svc_events := es\<rparr>) = service_ok s"
  "service_ok (s\<lparr>svc_known := member_map ms\<rparr>) \<longleftrightarrow> snapshot_ok (svc_state s)"
  by (simp_all add: service_ok_def)

section \<open>Polling keeps it\<close>

text \<open>The reconnect transition: what a refreshed network status does to the lifecycle state.\<close>

definition health_step :: "network_status option \<Rightarrow> room_state \<Rightarrow> room_state" where
  "health_step n st = (case n of None \<Rightarrow> st
    | Some v \<Rightarrow> if st = Connected \<and> \<not> is_healthy v then Reconnecting
               else if st = Reconnecting \<and> is_healthy v then Connected else st)"

lemma refresh_snapshot_eq:
  "refresh_snapshot rf st =
    (st\<lparr>room_st := health_step (rf_network rf) (room_st st),
        local_address := (case rf_local_address rf of None \<Rightarrow> local_address st | Some a \<Rightarrow> Some a),
        network := (case rf_network rf of None \<Rightarrow> network st | Some n \<Rightarrow> Some n),
        members := (case rf_members rf of None \<Rightarrow> members st | Some ms \<Rightarrow> ms)\<rparr>,
     (case rf_network rf of None \<Rightarrow> None
      | Some n \<Rightarrow> if option_eq network_status_eq (network st) (Some n) then None else Some n),
     (if health_step (rf_network rf) (room_st st) = room_st st then None
      else Some (st\<lparr>room_st := health_step (rf_network rf) (room_st st), network := rf_network rf\<rparr>)))"
  by (cases "rf_network rf"; cases "rf_members rf"; cases "rf_local_address rf"; cases st)
    (simp_all add: refresh_snapshot_def apply_network_def health_step_def Let_def)

lemma refresh_snapshot_fields:
  assumes "refresh_snapshot rf st = (st', en, es)"
  shows "room_st st' = health_step (rf_network rf) (room_st st)"
    and "role st' = role st" "room_code st' = room_code st"
    and "game_session_id st' = game_session_id st"
    and "error_code st' = error_code st" "error_message st' = error_message st"
    and "network st' = (case rf_network rf of None \<Rightarrow> network st | Some n \<Rightarrow> Some n)"
    and "local_address st' = (case rf_local_address rf of None \<Rightarrow> local_address st | Some a \<Rightarrow> Some a)"
  using assms by (auto simp: refresh_snapshot_eq)

text \<open>The events of one poll of a service in a room.\<close>

definition poll_events ::
    "(string list \<Rightarrow> string list) \<Rightarrow> backend_refresh \<Rightarrow> 'b room_service \<Rightarrow> room_event list" where
  "poll_events key_order rf s = (case refresh_snapshot rf (svc_state s) of (st, en, es) \<Rightarrow>
     (case rf_members rf of None \<Rightarrow> [] | Some ms \<Rightarrow> member_diff key_order (svc_known s) ms)
     @ (case en of None \<Rightarrow> [] | Some n \<Rightarrow> [NetworkUpdated n])
     @ (case es of None \<Rightarrow> [] | Some sn \<Rightarrow> [StateChanged sn]))"

lemma poll_cases:
  obtains (err) e b where "be_refresh B (svc_backend s) = (Err e, b)"
      "poll_and_emit B ko s = s\<lparr>svc_backend := b\<rparr>"
  | (outside) rf b where "be_refresh B (svc_backend s) = (Ok rf, b)"
      "room_st (svc_state s) \<notin> {Connected, Reconnecting, Diagnosing}"
      "poll_and_emit B ko s = s\<lparr>svc_backend := b\<rparr>"
  | (room) rf b st' en es where "be_refresh B (svc_backend s) = (Ok rf, b)"
      "room_st (svc_state s) \<in> {Connected, Reconnecting, Diagnosing}"
      "refresh_snapshot rf (svc_state s) = (st', en, es)"
      "poll_and_emit B ko s = s\<lparr>svc_backend := b, svc_state := st',
         svc_events := svc_events s @ poll_events ko rf s,
         svc_known := (case rf_members rf of None \<Rightarrow> svc_known s | Some ms \<Rightarrow> member_map ms)\<rparr>"
proof -
  obtain a b where ab: "be_refresh B (svc_backend s) = (a, b)" by (cases "be_refresh B (svc_backend s)")
  show ?thesis
  proof (cases a)
    case (Inl e)
    with ab err show ?thesis by (simp add: poll_and_emit_def)
  next
    case (Inr rf)
    obtain st' en es where r: "refresh_snapshot rf (svc_state s) = (st', en, es)"
      by (cases "refresh_snapshot rf (svc_state s)") auto
    show ?thesis
    proof (cases "room_st (svc_state s) \<in> {Connected, Reconnecting, Diagnosing}")
      case False
      with ab Inr outside show ?thesis by (simp add: poll_and_emit_def)
    next
      case True
      have "poll_and_emit B ko s = s\<lparr>svc_backend := b, svc_state := st',
         svc_events := svc_events s @ poll_events ko rf s,
         svc_known := (case rf_members rf of None \<Rightarrow> svc_known s | Some ms \<Rightarrow> member_map ms)\<rparr>"
        unfolding poll_and_emit_def poll_events_def ab Inr
        using True
        by (cases "room_st (svc_state s)") (simp_all add: r publish_def Let_def split: option.split)
      with True ab Inr r room show ?thesis by simp
    qed
  qed
qed

lemma health_step_room:
  "st \<in> {Connected, Reconnecting} \<Longrightarrow> health_step n st \<in> {Connected, Reconnecting}"
  by (auto simp: health_step_def split: option.splits)

lemma snapshot_ok_room:
  "room_st st \<in> {Connected, Reconnecting} \<Longrightarrow> snapshot_ok st \<longleftrightarrow> room_ok st"
  by auto

lemma room_ok_refresh:
  assumes "room_ok st" "refresh_snapshot rf st = (st', en, es)"
  shows "room_ok st'"
  using assms(1) refresh_snapshot_fields [OF assms(2)]
  by (auto simp: room_ok_def split: option.splits)

lemma service_ok_poll:
  assumes "service_ok s"
  shows "service_ok (poll_and_emit B ko s)"
proof (cases rule: poll_cases [of B s ko])
  case (room rf b st' en es)
  have "snapshot_ok (svc_state s)" using assms by (simp add: service_ok_def del: snapshot_ok.simps)
  with room(2) have st: "room_st (svc_state s) \<in> {Connected, Reconnecting}" "room_ok (svc_state s)"
    by auto
  have "room_st st' \<in> {Connected, Reconnecting}"
    using st(1) health_step_room refresh_snapshot_fields(1) [OF room(3)] by metis
  then have "snapshot_ok st'"
    using room_ok_refresh [OF st(2) room(3)] snapshot_ok_room by blast
  with assms room(4) show ?thesis
    by (auto simp: service_ok_def simp del: snapshot_ok.simps split: option.splits)
qed (use assms in simp_all)

section \<open>The other operations keep it\<close>

lemma service_ok_snapshot:
  "service_ok s \<Longrightarrow> snapshot_ok st \<Longrightarrow> service_ok (s\<lparr>svc_state := st\<rparr>)"
  by (simp add: service_ok_def del: snapshot_ok.simps)

lemma connected_snapshot_ok:
  assumes "validate_backend_room room0 req = Ok room" "r \<noteq> RoleNone" "session_id_ok sid"
    "r = RoleMember \<Longrightarrow> req" "r = RoleHost \<Longrightarrow> sid \<noteq> None"
  shows "snapshot_ok (connected_snapshot r sid room)"
  using validate_backend_room_Ok(1,5) [OF assms(1)] assms(2-)
  by (auto simp: connected_snapshot_def room_ok_def)

text \<open>
  The outcome of \<open>create\<close> and \<open>join\<close> after the backend answered: in the room, with one event, or
  faulted without one.
\<close>

lemma enter_room_cases:
  obtains (entered) room0 room where "answer = Ok room0" "validate_backend_room room0 req = Ok room"
      "enter_room r req sid answer s = (Ok (connected_snapshot r sid room),
         s\<lparr>svc_known := member_map (br_members room), svc_state := connected_snapshot r sid room,
           svc_events := svc_events s @ [StateChanged (connected_snapshot r sid room)]\<rparr>)"
  | (faulted) e where "enter_room r req sid answer s = (Err e, s\<lparr>svc_state := faulted_snapshot r sid e\<rparr>)"
      "answer = Err e \<or> (\<exists>room0. answer = Ok room0 \<and> validate_backend_room room0 req = Err e)"
proof (cases answer)
  case (Inl e)
  then show ?thesis using faulted by (simp add: enter_room_def)
next
  case (Inr room0)
  then show ?thesis using entered faulted
    by (cases "validate_backend_room room0 req")
      (auto simp: enter_room_def Let_def publish_def replace_known_members_def)
qed

lemma service_ok_enter:
  assumes "distinct (map fst (svc_known s))" "r \<noteq> RoleNone" "session_id_ok sid"
    "r = RoleMember \<Longrightarrow> req" "r = RoleHost \<Longrightarrow> sid \<noteq> None"
  shows "service_ok (snd (enter_room r req sid answer s))"
proof (cases rule: enter_room_cases [of answer req r sid s])
  case (entered room0 room)
  from connected_snapshot_ok [OF entered(2) assms(2-)] entered(3)
  show ?thesis by (simp add: service_ok_def del: snapshot_ok.simps)
next
  case (faulted e)
  with assms show ?thesis by (simp add: service_ok_def del: snapshot_ok.simps)
qed

lemma create_cases:
  obtains (rejected) e where "create B request s = (Err e, s)"
  | (called) sid address answer b where
      "validate_session_id (create_session_id request) = Ok sid"
      "validate_loopback_address (create_lan_address request) = Ok address"
      "room_st (svc_state s) = Idle"
      "be_create B (request\<lparr>create_session_id := sid, create_lan_address := addr_to_string address\<rparr>)
         (svc_backend s) = (answer, b)"
      "create B request s = enter_room RoleHost False (Some sid) answer
         (s\<lparr>svc_state := pending_snapshot Creating RoleHost (Some sid), svc_backend := b\<rparr>)"
proof (cases "validate_session_id (create_session_id request)")
  case (Inl e)
  then show ?thesis using rejected by (simp add: create_def)
next
  case sid: (Inr sid)
  show ?thesis
  proof (cases "validate_loopback_address (create_lan_address request)")
    case (Inl e)
    then show ?thesis using rejected sid by (simp add: create_def)
  next
    case (Inr address)
    obtain answer b where "be_create B
        (request\<lparr>create_session_id := sid, create_lan_address := addr_to_string address\<rparr>) (svc_backend s)
        = (answer, b)" by (rule prod.exhaust)
    then show ?thesis using rejected called [of sid address answer b] sid Inr
      by (cases "room_st (svc_state s) = Idle") (simp_all add: create_def Let_def)
  qed
qed

lemma join_cases:
  obtains (rejected) e where "join_room B request s = (Err e, s)"
  | (called) c sid answer b where
      "service_normalize_room_code (join_room_code request) = Ok c"
      "transpose_map validate_session_id (join_session_id request) = Ok sid"
      "room_st (svc_state s) = Idle"
      "be_join B (request\<lparr>join_room_code := c, join_session_id := sid\<rparr>) (svc_backend s) = (answer, b)"
      "join_room B request s = enter_room RoleMember True sid answer
         (s\<lparr>svc_state := pending_snapshot Joining RoleMember sid, svc_backend := b\<rparr>)"
proof (cases "service_normalize_room_code (join_room_code request)")
  case (Inl e)
  then show ?thesis using rejected by (simp add: join_room_def)
next
  case c: (Inr c)
  show ?thesis
  proof (cases "transpose_map validate_session_id (join_session_id request)")
    case (Inl e)
    then show ?thesis using rejected c by (simp add: join_room_def)
  next
    case (Inr sid)
    obtain answer b where "be_join B (request\<lparr>join_room_code := c, join_session_id := sid\<rparr>) (svc_backend s)
        = (answer, b)" by (rule prod.exhaust)
    then show ?thesis using rejected called [of c sid answer b] c Inr
      by (cases "room_st (svc_state s) = Idle") (simp_all add: join_room_def Let_def)
  qed
qed

lemma service_ok_create:
  assumes "service_ok s" shows "service_ok (snd (create B request s))"
proof (cases rule: create_cases [of B request s])
  case (called sid address answer b)
  have "session_id_ok (Some sid)"
    using validate_session_id_stable [OF called(1)] by (simp add: session_id_ok_def)
  with called(5) assms show ?thesis
    by (auto simp: service_ok_def [of s] intro!: service_ok_enter)
qed (use assms in simp)

lemma service_ok_join:
  assumes "service_ok s" shows "service_ok (snd (join_room B request s))"
proof (cases rule: join_cases [of B request s])
  case (called c sid answer b)
  have "session_id_ok sid"
    using called(2) by (cases sid) (auto simp: session_id_ok_def res_simps dest: validate_session_id_stable)
  with called(5) assms show ?thesis
    by (auto simp: service_ok_def [of s] intro!: service_ok_enter)
qed (use assms in simp)

lemma diagnose_cases:
  assumes settled: "room_st (svc_state s) \<in> {Idle, Connected, Reconnecting, Faulted}"
  obtains (rejected) "diagnose B s = (Err not_connected_error, s)"
      "room_st (svc_state s) \<in> {Idle, Faulted}"
  | (refreshed) rf b n where "room_st (svc_state s) \<in> {Connected, Reconnecting}"
      "be_refresh B (svc_backend s) = (Ok rf, b)" "rf_network rf = Some n"
      "diagnose B s = (Ok n, s\<lparr>svc_backend := b, svc_state := (svc_state s)\<lparr>network := Some n,
         members := (case rf_members rf of None \<Rightarrow> members (svc_state s) | Some ms \<Rightarrow> ms),
         local_address := (case rf_local_address rf of None \<Rightarrow> local_address (svc_state s)
                           | Some a \<Rightarrow> Some a)\<rparr>\<rparr>)"
  | (probed) n b where "room_st (svc_state s) \<in> {Connected, Reconnecting}"
      "diagnose B s = (Ok n, s\<lparr>svc_backend := b, svc_state := (svc_state s)\<lparr>network := Some n\<rparr>\<rparr>)"
  | (failed) e b0 b where "room_st (svc_state s) \<in> {Connected, Reconnecting}"
      "be_diagnose B b0 = (Err e, b)"
      "diagnose B s = (Err e, s\<lparr>svc_backend := b, svc_state :=
         faulted_snapshot (role (svc_state s)) (game_session_id (svc_state s)) e\<rparr>)"
proof (cases "room_st (svc_state s) \<in> {Connected, Reconnecting}")
  case False
  with settled rejected show ?thesis by (auto simp: diagnose_def)
next
  case True
  obtain answer b where r: "be_refresh B (svc_backend s) = (answer, b)" by (rule prod.exhaust)
  obtain d b' where d: "be_diagnose B b = (d, b')" by (rule prod.exhaust)
  let ?rf = "case answer of Err _ \<Rightarrow> backend_refresh_default | Ok rf \<Rightarrow> rf"
  show ?thesis
  proof (cases "rf_network ?rf")
    case (Some n)
    then obtain rf where rf: "answer = Ok rf" "rf_network rf = Some n"
      by (cases answer) (auto simp: backend_refresh_default_def)
    show ?thesis
      by (rule refreshed [OF True r [unfolded rf(1)] rf(2)])
        (use True r rf in \<open>cases s, auto simp: diagnose_def Let_def split: option.splits\<close>)
  next
    case None
    show ?thesis
    proof (cases d)
      case (Inl e)
      show ?thesis
        by (rule failed [OF True, of b e b'])
          (use True r d None Inl in \<open>auto simp: diagnose_def Let_def\<close>)
    next
      case (Inr n)
      show ?thesis
        by (rule probed [OF True, of n b'])
          (use True r d None Inr in \<open>cases s, auto simp: diagnose_def Let_def\<close>)
    qed
  qed
qed

lemma service_ok_settled:
  "service_ok s \<Longrightarrow> room_st (svc_state s) \<in> {Idle, Connected, Reconnecting, Faulted}"
  by (auto simp: service_ok_def split: room_state.splits)

lemma service_ok_room:
  "service_ok s \<Longrightarrow> room_st (svc_state s) \<in> {Connected, Reconnecting} \<Longrightarrow> room_ok (svc_state s)"
  by (auto simp: service_ok_def)

lemma service_ok_role:
  "service_ok s \<Longrightarrow> room_st (svc_state s) \<noteq> Idle
    \<Longrightarrow> role (svc_state s) \<noteq> RoleNone \<and> session_id_ok (game_session_id (svc_state s))"
  by (auto simp: service_ok_def room_ok_def fault_ok_def split: room_state.splits)

lemma service_ok_diagnose:
  assumes ok: "service_ok s" shows "service_ok (snd (diagnose B s))"
proof (cases rule: diagnose_cases [OF service_ok_settled [OF ok], of B])
  case 1
  with ok show ?thesis by simp
next
  case (2 rf b n)
  have "snapshot_ok (svc_state (snd (diagnose B s)))"
    using 2(1,4) service_ok_room [OF ok 2(1)] by (auto simp: room_ok_def split: option.splits)
  with ok 2(4) show ?thesis by (simp add: service_ok_def del: snapshot_ok.simps)
next
  case (3 n b)
  have "snapshot_ok (svc_state (snd (diagnose B s)))"
    using 3 service_ok_room [OF ok 3(1)] by (auto simp: room_ok_def split: option.splits)
  with ok 3(2) show ?thesis by (simp add: service_ok_def del: snapshot_ok.simps)
next
  case (4 e b0 b)
  with ok service_ok_role [OF ok] show ?thesis
    by (auto simp: service_ok_def simp del: snapshot_ok.simps)
qed

lemma leave_cases:
  assumes settled: "room_st (svc_state s) \<in> {Idle, Connected, Reconnecting, Faulted}"
  obtains (idle) "room_st (svc_state s) = Idle" "leave B s = (Ok (svc_state s), s)"
  | (left) b where "room_st (svc_state s) \<noteq> Idle" "be_leave B (svc_backend s) = (Ok (), b)"
      "leave B s = (Ok idle_snapshot, s\<lparr>svc_backend := b, svc_state := idle_snapshot, svc_known := [],
         svc_events := svc_events s @ [StateChanged idle_snapshot]\<rparr>)"
  | (failed) e b where "room_st (svc_state s) \<noteq> Idle" "be_leave B (svc_backend s) = (Err e, b)"
      "leave B s = (Err e, s\<lparr>svc_backend := b, svc_state :=
         faulted_snapshot (role (svc_state s)) (game_session_id (svc_state s)) e\<rparr>)"
proof (cases "room_st (svc_state s) = Idle")
  case True
  with idle show ?thesis by (simp add: leave_def)
next
  case False
  obtain d b where d: "be_leave B (svc_backend s) = (d, b)" by (rule prod.exhaust)
  with settled False left failed show ?thesis
    by (cases d) (auto simp: leave_def publish_def)
qed

lemma service_ok_leave:
  assumes ok: "service_ok s" shows "service_ok (snd (leave B s))"
proof (cases rule: leave_cases [OF service_ok_settled [OF ok], of B])
  case 1
  with ok show ?thesis by simp
next
  case (2 b)
  then show ?thesis by (simp add: service_ok_def del: snapshot_ok.simps)
next
  case (3 e b)
  with ok service_ok_role [OF ok] show ?thesis
    by (simp add: service_ok_def del: snapshot_ok.simps)
qed

lemma set_lan_address_cases:
  obtains (rejected) e where "set_lan_address B ko request s = (Err e, s)"
  | (refused) address e b where "validate_loopback_address (lan_address request) = Ok address"
      "be_set_lan_address B address (svc_backend s) = (Err e, b)"
      "set_lan_address B ko request s = (Err e, s\<lparr>svc_backend := b\<rparr>)"
  | (moved) address b where "validate_loopback_address (lan_address request) = Ok address"
      "room_st (svc_state s) = Connected" "role (svc_state s) = RoleHost"
      "be_set_lan_address B address (svc_backend s) = (Ok (), b)"
      "set_lan_address B ko request s
        = (Ok (svc_state (poll_and_emit B ko (s\<lparr>svc_backend := b\<rparr>))),
           poll_and_emit B ko (s\<lparr>svc_backend := b\<rparr>))"
proof (cases "validate_loopback_address (lan_address request)")
  case (Inl e)
  with rejected show ?thesis by (simp add: set_lan_address_def)
next
  case (Inr address)
  obtain d b where d: "be_set_lan_address B address (svc_backend s) = (d, b)" by (rule prod.exhaust)
  show ?thesis
  proof (cases "room_st (svc_state s) = Connected \<and> role (svc_state s) = RoleHost")
    case False
    with rejected Inr show ?thesis by (auto simp: set_lan_address_def)
  next
    case True
    with d Inr refused moved show ?thesis
      by (cases d) (simp_all add: set_lan_address_def status_def Let_def)
  qed
qed

lemma service_ok_set_lan_address:
  assumes "service_ok s" shows "service_ok (snd (set_lan_address B ko request s))"
  by (cases rule: set_lan_address_cases [of B ko request s])
    (use assms in \<open>simp_all add: service_ok_poll\<close>)

lemma service_ok_step: "service_ok s \<Longrightarrow> service_ok (service_step B ko x s)"
  by (cases x) (simp_all add: initialize_identity_def status_def Let_def service_ok_poll
      service_ok_create service_ok_join service_ok_set_lan_address service_ok_diagnose service_ok_leave)

interpretation service: invariant_machine "service_step B ko" service_ok for B ko
  by unfold_locales (rule service_ok_step)

section \<open>The lifecycle of a room\<close>

text \<open>
  The lifecycle as a relation on settled states: \<open>room_edge\<close> holds of the changes an operation can
  make. A room is entered from \<open>Idle\<close> only, and only leaving returns to \<open>Idle\<close>.
\<close>

inductive room_edge :: "room_state \<Rightarrow> room_state \<Rightarrow> bool" where
  stay: "room_edge st st"
| enter: "room_edge Idle Connected"
| degrade: "room_edge Connected Reconnecting"
| recover: "room_edge Reconnecting Connected"
| fault: "room_edge st Faulted"
| left: "room_edge st Idle"

inductive_cases room_edge_IdleE: "room_edge st Idle"
inductive_cases room_edge_ConnectedE: "room_edge st Connected"
inductive_simps room_edge_simps: "room_edge Faulted st" "room_edge Idle st"

abbreviation lifecycle_state :: "'b room_service \<Rightarrow> room_state" where
  "lifecycle_state s \<equiv> room_st (svc_state s)"

lemma poll_lifecycle:
  assumes "service_ok s"
  shows "lifecycle_state (poll_and_emit B ko s) = lifecycle_state s
    \<or> lifecycle_state s = Connected \<and> lifecycle_state (poll_and_emit B ko s) = Reconnecting
    \<or> lifecycle_state s = Reconnecting \<and> lifecycle_state (poll_and_emit B ko s) = Connected"
proof (cases rule: poll_cases [of B s ko])
  case (room rf b st' en es)
  with refresh_snapshot_fields(1) [OF room(3)] show ?thesis
    by (auto simp: health_step_def split: option.splits)
qed simp_all

lemma poll_edge: "service_ok s \<Longrightarrow> room_edge (lifecycle_state s) (lifecycle_state (poll_and_emit B ko s))"
  using poll_lifecycle [of s B ko] by (auto intro: room_edge.intros)

lemma enter_room_edge:
  "room_edge Idle (lifecycle_state (snd (enter_room r req sid answer s)))"
  by (cases rule: enter_room_cases [of answer req r sid s])
    (auto simp: connected_snapshot_def faulted_snapshot_def intro: room_edge.intros)

lemma service_step_edge:
  assumes ok: "service_ok s"
  shows "room_edge (lifecycle_state s) (lifecycle_state (service_step B ko x s))"
proof (cases x)
  case (OpCreate r)
  then show ?thesis
    by (cases rule: create_cases [of B r s]) (auto simp: enter_room_edge intro: room_edge.stay)
next
  case (OpJoin r)
  then show ?thesis
    by (cases rule: join_cases [of B r s]) (auto simp: enter_room_edge intro: room_edge.stay)
next
  case (OpSetLanAddress r)
  have poll: "room_edge (lifecycle_state s) (lifecycle_state (poll_and_emit B ko (s\<lparr>svc_backend := b\<rparr>)))" for b
    using poll_edge [of "s\<lparr>svc_backend := b\<rparr>" B ko] ok by simp
  show ?thesis
    unfolding OpSetLanAddress
    by (cases rule: set_lan_address_cases [of B ko r s]) (use poll in \<open>simp_all add: room_edge.stay\<close>)
next
  case OpDiagnose
  then show ?thesis
    by (cases rule: diagnose_cases [OF service_ok_settled [OF ok], of B])
      (auto simp: faulted_snapshot_def intro: room_edge.intros)
next
  case OpLeave
  then show ?thesis
    by (cases rule: leave_cases [OF service_ok_settled [OF ok], of B])
      (auto simp: faulted_snapshot_def idle_snapshot_def intro: room_edge.intros)
qed (use ok in \<open>auto simp: initialize_identity_def status_def Let_def intro: room_edge.stay poll_edge\<close>)

text \<open>
  Only leaving ends a room: while no leave is asked for, a service that is in a room stays in that
  room, with the same code, role and game session, unless it faults; and a fault stays a fault.
\<close>

definition same_room :: "room_snapshot \<Rightarrow> room_snapshot \<Rightarrow> bool" where
  "same_room st st' \<longleftrightarrow> role st' = role st \<and> game_session_id st' = game_session_id st
    \<and> (room_st st' = Faulted \<or>
       room_st st \<noteq> Faulted \<and> room_st st' \<in> {Connected, Reconnecting} \<and> room_code st' = room_code st)"

lemma same_room_trans: "same_room a b \<Longrightarrow> same_room b c \<Longrightarrow> same_room a c"
  by (auto simp: same_room_def)

lemma same_room_refl: "room_st st \<in> {Connected, Reconnecting, Faulted} \<Longrightarrow> same_room st st"
  by (auto simp: same_room_def)

lemma poll_same_room:
  assumes ok: "service_ok s" and st: "lifecycle_state s \<in> {Connected, Reconnecting, Faulted}"
  shows "same_room (svc_state s) (svc_state (poll_and_emit B ko s))"
proof (cases rule: poll_cases [of B s ko])
  case (room rf b st' en es)
  with poll_lifecycle [OF ok, of B ko] refresh_snapshot_fields(2-4) [OF room(3)] st show ?thesis
    by (auto simp: same_room_def)
qed (use st in \<open>simp_all add: same_room_refl\<close>)

lemma step_same_room:
  assumes ok: "service_ok s" and st: "lifecycle_state s \<in> {Connected, Reconnecting, Faulted}"
    and x: "x \<noteq> OpLeave"
  shows "same_room (svc_state s) (svc_state (service_step B ko x s))"
proof (cases x)
  case (OpCreate r)
  with st show ?thesis by (cases rule: create_cases [of B r s]) (auto simp: same_room_refl)
next
  case (OpJoin r)
  with st show ?thesis by (cases rule: join_cases [of B r s]) (auto simp: same_room_refl)
next
  case (OpSetLanAddress r)
  with st ok show ?thesis
    by (cases rule: set_lan_address_cases [of B ko r s])
      (auto simp: same_room_refl poll_same_room [where s = "s\<lparr>svc_backend := b\<rparr>" for b, simplified])
next
  case OpDiagnose
  with st show ?thesis
    by (cases rule: diagnose_cases [OF service_ok_settled [OF ok], of B])
      (auto simp: same_room_def faulted_snapshot_def)
qed (use st ok x in \<open>auto simp: initialize_identity_def status_def Let_def same_room_refl poll_same_room\<close>)

lemma run_same_room:
  assumes "service_ok s" "lifecycle_state s \<in> {Connected, Reconnecting, Faulted}" "OpLeave \<notin> set xs"
  shows "same_room (svc_state s) (svc_state (run_ops (service_step B ko) xs s))"
  using assms
proof (induction xs arbitrary: s)
  case Nil
  then show ?case by (simp add: same_room_refl)
next
  case (Cons x xs)
  let ?s = "service_step B ko x s"
  have step: "same_room (svc_state s) (svc_state ?s)"
    using Cons.prems by (intro step_same_room) auto
  then have "lifecycle_state ?s \<in> {Connected, Reconnecting, Faulted}"
    by (auto simp: same_room_def)
  with Cons.IH [of ?s] Cons.prems service_ok_step have "same_room (svc_state ?s) (svc_state (run_ops (service_step B ko) xs ?s))"
    by fastforce
  with step show ?case by (auto intro: same_room_trans)
qed

section \<open>Member events\<close>

text \<open>A subscriber that keeps its own map of the members and applies the events to it.\<close>

type_synonym member_view = "string \<Rightarrow> room_member option"

fun view_event :: "room_event \<Rightarrow> member_view \<Rightarrow> member_view" where
  "view_event (PeerJoined m) v = v(member_id m := Some m)"
| "view_event (PeerUpdated m) v = v(member_id m := Some m)"
| "view_event (PeerLeft i) v = v(i := None)"
| "view_event (NetworkUpdated n) v = v"
| "view_event (StateChanged st) v = (\<lambda>i. map_of (member_map (members st)) i)"

definition view_events :: "room_event list \<Rightarrow> member_view \<Rightarrow> member_view" where
  "view_events es v = fold view_event es v"

text \<open>Two views that agree up to \<open>PartialEq\<close> of the members.\<close>

definition view_eq :: "member_view \<Rightarrow> member_view \<Rightarrow> bool" where
  "view_eq v w \<longleftrightarrow> (\<forall>i. v i = w i \<or> (\<exists>a b. v i = Some a \<and> w i = Some b \<and> room_member_eq a b))"

lemma view_events_simps [simp]:
  "view_events [] v = v" "view_events (e # es) v = view_events es (view_event e v)"
  "view_events (es @ fs) v = view_events fs (view_events es v)"
  by (simp_all add: view_events_def)

lemma fold_update_Some:
  "map_of (fold (\<lambda>m. AList.update (member_id m) m) ms xs) i = Some m
    \<Longrightarrow> m \<in> set ms \<and> member_id m = i \<or> map_of xs i = Some m"
  by (induction ms arbitrary: xs) (fastforce simp: update_conv' split: if_splits)+

lemma fold_update_None:
  "map_of (fold (\<lambda>m. AList.update (member_id m) m) ms xs) i = None
    \<longleftrightarrow> i \<notin> member_id ` set ms \<and> map_of xs i = None"
  by (induction ms arbitrary: xs) (auto simp: update_conv')

lemma member_map_None: "map_of (member_map ms) i = None \<longleftrightarrow> i \<notin> member_id ` set ms"
  by (simp add: member_map_def fold_update_None)

lemma member_map_Some:
  assumes "distinct (map member_id ms)" "m \<in> set ms"
  shows "map_of (member_map ms) (member_id m) = Some m"
proof -
  obtain m' where m': "map_of (member_map ms) (member_id m) = Some m'"
    using assms(2) member_map_None [of ms "member_id m"] by fastforce
  then have "m' \<in> set ms" "member_id m' = member_id m"
    using fold_update_Some [of ms "[]" "member_id m" m'] by (simp_all add: member_map_def)
  moreover have "inj_on member_id (set ms)" using assms(1) by (simp add: distinct_map)
  ultimately have "m' = m" using assms(2) by (meson inj_onD)
  with m' show ?thesis by simp
qed

lemma view_joined_other:
  "i \<notin> member_id ` set ms \<Longrightarrow> view_events (concat (map (member_event known) ms)) v i = v i"
  by (induction ms arbitrary: v) (auto simp: member_event_def split: option.splits)

lemma view_joined:
  assumes "distinct (map member_id ms)" "m \<in> set ms"
  shows "view_events (concat (map (member_event known) ms)) v (member_id m) =
    (case map_of known (member_id m) of None \<Rightarrow> Some m
     | Some p \<Rightarrow> if room_member_eq p m then v (member_id m) else Some m)"
proof -
  from assms(2) obtain xs ys where ms: "ms = xs @ m # ys" by (auto simp: in_set_conv_decomp)
  with assms(1) have "member_id m \<notin> member_id ` set xs" "member_id m \<notin> member_id ` set ys" by auto
  then show ?thesis
    by (auto simp: ms view_joined_other member_event_def split: option.splits)
qed

lemma view_left: "view_events (map PeerLeft is) v i = (if i \<in> set is then None else v i)"
  by (induction "is" arbitrary: v) auto

lemma member_diff_view:
  assumes ids: "distinct (map member_id ms)" and ko: "set (ko (map fst known)) = set (map fst known)"
  shows "view_eq (view_events (member_diff ko known ms) (map_of known)) (map_of (member_map ms))"
  unfolding view_eq_def
proof
  fix i
  let ?v = "view_events (concat (map (member_event known) ms)) (map_of known)"
  have diff: "view_events (member_diff ko known ms) (map_of known) i
      = (if i \<in> fst ` set known \<and> i \<notin> member_id ` set ms then None else ?v i)"
    using ko by (auto simp: member_diff_def view_left member_map_None)
  show "view_events (member_diff ko known ms) (map_of known) i = map_of (member_map ms) i
    \<or> (\<exists>a b. view_events (member_diff ko known ms) (map_of known) i = Some a
         \<and> map_of (member_map ms) i = Some b \<and> room_member_eq a b)"
  proof (cases "i \<in> member_id ` set ms")
    case True
    then obtain m where m: "m \<in> set ms" "i = member_id m" by blast
    with diff member_map_Some [OF ids m(1)] view_joined [OF ids m(1), of known "map_of known"] show ?thesis
      by (auto split: option.splits)
  next
    case False
    then have "map_of (member_map ms) i = None" "?v i = map_of known i"
      by (simp_all add: member_map_None view_joined_other)
    moreover have "map_of known i = None" if "i \<notin> fst ` set known"
      using that by (simp add: map_of_eq_None_iff)
    ultimately show ?thesis using diff False by (cases "i \<in> fst ` set known") simp_all
  qed
qed

text \<open>A poll that finds what is known publishes nothing about the members.\<close>

lemma member_diff_quiet:
  assumes "\<And>m. m \<in> set ms \<Longrightarrow> \<exists>p. map_of known (member_id m) = Some p \<and> room_member_eq p m"
    and "fst ` set known \<subseteq> member_id ` set ms" "set (ko (map fst known)) = set (map fst known)"
  shows "member_diff ko known ms = []"
proof -
  have "concat (map (member_event known) ms) = []"
    using assms(1) by (force simp: member_event_def)
  moreover have "filter (\<lambda>i. map_of (member_map ms) i = None) (ko (map fst known)) = []"
    using assms(2,3) by (auto simp: filter_empty_conv member_map_None)
  ultimately show ?thesis by (simp add: member_diff_def)
qed

section \<open>Properties\<close>

text \<open>A backend with fixed answers and one room, for the witnesses below.\<close>

definition sample_member :: "string \<Rightarrow> room_member" where
  "sample_member i = \<lparr>member_id = i, display_name = ''Player'', member_mode = ModeDirect,
     member_rtt = Some 20, member_loss = None\<rparr>"

definition sample_net :: "bool \<Rightarrow> network_status" where
  "sample_net healthy = \<lparr>nat_type = None, net_mode = ModeDirect, net_rtt = Some 20,
     net_loss = None, relay_node = None, is_healthy = healthy\<rparr>"

definition sample_room :: backend_room where
  "sample_room = \<lparr>br_room_code = ''abcd-efgh-jkmn'', br_local_address = Some ''127.0.0.1:25565'',
     br_network = sample_net True, br_members = [sample_member ''a'']\<rparr>"

definition sample_refresh :: backend_refresh where
  "sample_refresh = \<lparr>rf_network = Some (sample_net False),
     rf_members = Some [sample_member ''b''], rf_local_address = None\<rparr>"

definition sample_backend :: "unit room_backend" where
  "sample_backend = \<lparr>be_set_identity = (\<lambda>_ b. b), be_create = (\<lambda>_ b. (Ok sample_room, b)),
     be_join = (\<lambda>_ b. (Ok sample_room, b)), be_set_lan_address = (\<lambda>_ b. (Ok (), b)),
     be_diagnose = (\<lambda>b. (Ok (sample_net True), b)), be_leave = (\<lambda>b. (Ok (), b)),
     be_refresh = (\<lambda>b. (Ok sample_refresh, b))\<rparr>"

definition sample_create :: create_room_request where
  "sample_create = \<lparr>create_session_id = '' world '', create_lan_address = ''127.0.0.1:25565'',
     prefer_direct = True, allow_relay = True\<rparr>"

definition sample_service :: "unit room_service" where
  "sample_service = run_ops (service_step sample_backend (\<lambda>ks. ks)) [OpCreate sample_create]
     (new_room_service ())"

lemma sample_codes:
  "service_normalize_room_code ''abcd-efgh-jkmn'' = Ok ''ABCD-EFGH-JKMN''"
  "service_normalize_room_code ''ABCD-EFGH-JKMN'' = Ok ''ABCD-EFGH-JKMN''"
  "service_normalize_room_code ''abc'' = Err invalid_code_error"
  by code_simp+

lemma sample_address: "validate_loopback_address ''127.0.0.1:25565'' = Ok (SocketV4 127 0 0 1 25565)"
  by (simp add: service_addresses.validate_Ok_iff localhost_eval loopback_endpoint_def)

lemma sample_session_id: "validate_session_id '' world '' = Ok ''world''"
  by (simp add: validate_session_id_def str_eval)

definition sample_snapshot :: room_snapshot where
  "sample_snapshot = connected_snapshot RoleHost (Some ''world'')
     (sample_room\<lparr>br_room_code := ''ABCD-EFGH-JKMN''\<rparr>)"

lemma sample_room_valid:
  "validate_backend_room sample_room req = Ok (sample_room\<lparr>br_room_code := ''ABCD-EFGH-JKMN''\<rparr>)"
  by (simp add: validate_backend_room_def sample_room_def sample_codes sample_address
      show_localhost_25565 del: addr_to_string.simps)

lemma sample_simps:
  "br_members sample_room = [sample_member ''a'']" "member_id (sample_member i) = i"
  "be_create sample_backend r b = (Ok sample_room, b)" "be_refresh sample_backend b = (Ok sample_refresh, b)"
  "be_leave sample_backend b = (Ok (), b)" "be_join sample_backend j b = (Ok sample_room, b)"
  by (simp_all add: sample_room_def sample_member_def sample_backend_def)

lemma sample_create_run:
  "room_st (svc_state s) = Idle \<Longrightarrow> create sample_backend sample_create s =
    (Ok sample_snapshot, s\<lparr>svc_known := [(''a'', sample_member ''a'')], svc_state := sample_snapshot,
       svc_events := svc_events s @ [StateChanged sample_snapshot]\<rparr>)"
  by (cases s) (simp add: create_def sample_create_def sample_session_id sample_address sample_simps
      enter_room_def sample_room_valid sample_snapshot_def Let_def publish_def replace_known_members_def
      member_map_def)

lemma sample_service_eq:
  "sample_service = \<lparr>svc_state = sample_snapshot, svc_backend = (),
     svc_events = [StateChanged sample_snapshot], svc_known = [(''a'', sample_member ''a'')]\<rparr>"
  by (simp add: sample_service_def sample_create_run new_room_service_def idle_snapshot_def)

lemma sample_service_ok: "service_ok sample_service"
  unfolding sample_service_def by (rule service.inv_run) (rule service_ok_new)

text \<open>C9: Whatever operations the room service performs on whatever backend, between two of them
  it is idle, in a room (connected or reconnecting) or faulted, and its snapshot is well formed
  for that state: an idle snapshot is empty, a room has a normalised code, a role, a network
  status and (for a member) a local address, a fault carries its error and nothing of the room;
  the map of the known members has no duplicate identifiers.\<close>

theorem service_reachable_ok:
  "service_ok (run_ops (service_step B ko) xs (new_room_service b))"
  by (rule service.inv_run) (rule service_ok_new)

text \<open>C10: Every operation moves the lifecycle along an edge of the state machine, and only
  leaving ends a room or a fault by returning to \<open>Idle\<close>.\<close>

theorem service_lifecycle:
  assumes "s = run_ops (service_step B ko) xs (new_room_service b)"
  shows "room_edge (room_st (svc_state s)) (room_st (svc_state (service_step B ko x s)))
    \<and> (room_st (svc_state s) \<noteq> Idle \<and> room_st (svc_state (service_step B ko x s)) = Idle
        \<longrightarrow> x = OpLeave)"
proof -
  have ok: "service_ok s"
    unfolding assms by (rule service.inv_run) (rule service_ok_new)
  have "x = OpLeave" if "room_st (svc_state s) \<noteq> Idle" "room_st (svc_state (service_step B ko x s)) = Idle"
  proof (rule ccontr)
    assume "x \<noteq> OpLeave"
    with that ok service_ok_settled [OF ok] step_same_room [OF ok, of x B ko] show False
      by (auto simp: same_room_def)
  qed
  with service_step_edge [OF ok] show ?thesis by blast
qed

theorem service_lifecycle_witness:
  "room_st (svc_state sample_service) = Connected
    \<and> room_edge Connected (room_st (svc_state (service_step sample_backend (\<lambda>ks. ks) OpPoll sample_service)))
    \<and> room_st (svc_state (service_step sample_backend (\<lambda>ks. ks) OpLeave sample_service)) = Idle"
proof -
  have "room_st (svc_state sample_service) = Connected"
    by (simp add: sample_service_eq sample_snapshot_def connected_snapshot_def)
  moreover have "room_st (svc_state (service_step sample_backend (\<lambda>ks. ks) OpLeave sample_service)) = Idle"
    using calculation by (simp add: leave_def sample_simps idle_snapshot_def)
  ultimately show ?thesis
    using service_lifecycle [OF sample_service_def, of OpPoll] by simp
qed

text \<open>C25: While no leave is requested, a service that is in a room stays in it, with the same
  room code, role and game session, or faults; a fault stays until it is left.\<close>

theorem room_kept_until_leave:
  assumes "s = run_ops (service_step B ko) xs (new_room_service b)"
    and "room_st (svc_state s) \<noteq> Idle" "OpLeave \<notin> set ys"
  shows "same_room (svc_state s) (svc_state (run_ops (service_step B ko) ys s))"
proof -
  have ok: "service_ok s"
    unfolding assms(1) by (rule service.inv_run) (rule service_ok_new)
  with assms(2,3) service_ok_settled [OF ok] show ?thesis by (intro run_same_room) auto
qed

theorem room_kept_until_leave_witness:
  "same_room (svc_state sample_service)
     (svc_state (run_ops (service_step sample_backend (\<lambda>ks. ks)) [OpPoll, OpCreate sample_create, OpDiagnose]
        sample_service))"
  by (rule room_kept_until_leave [OF sample_service_def])
    (simp_all add: sample_service_eq sample_snapshot_def connected_snapshot_def)

text \<open>Creating a room. On success the service was idle, the snapshot returned is the state
  stored and the only event published, it is a connected host with a normalised code, the trimmed
  session name and the backend's members, and these become the known ones. On an error either
  nothing changed at all (so the backend was not called), which is the case whenever the service
  was not idle, or the service is faulted with the code of the error that is returned, and no
  event is published.\<close>

theorem create_outcome:
  "case create B request s of
     (Ok sn, s') \<Rightarrow> room_st (svc_state s) = Idle \<and> svc_state s' = sn
       \<and> svc_events s' = svc_events s @ [StateChanged sn] \<and> svc_known s' = member_map (members sn)
       \<and> room_st sn = Connected \<and> role sn = RoleHost
       \<and> game_session_id sn = Some (trim (create_session_id request))
       \<and> (\<exists>c. room_code sn = Some c \<and> service_normalize_room_code c = Ok c)
   | (Err e, s') \<Rightarrow> s' = s \<or> room_st (svc_state s) = Idle \<and> svc_events s' = svc_events s
       \<and> room_st (svc_state s') = Faulted \<and> error_code (svc_state s') = Some (rerr_code e)"
proof (cases rule: create_cases [of B request s])
  case (rejected e)
  then show ?thesis by simp
next
  case (called sid address answer b)
  show ?thesis
  proof (cases rule: enter_room_cases [of answer False RoleHost "Some sid"
        "s\<lparr>svc_state := pending_snapshot Creating RoleHost (Some sid), svc_backend := b\<rparr>"])
    case (entered room0 room)
    with called(1,3,5) validate_backend_room_Ok(1) [OF entered(2)] show ?thesis
      by (simp add: connected_snapshot_def validate_session_id_Ok_iff)
  next
    case (faulted e)
    with called(3,5) show ?thesis by (simp add: faulted_snapshot_def)
  qed
qed

lemma join_Ok:
  assumes "join_room B request s = (Ok snapshot, s')"
  obtains sid room0 room where "validate_backend_room room0 True = Ok room"
    "svc_state s' = snapshot" "snapshot = connected_snapshot RoleMember sid room"
proof (cases rule: join_cases [of B request s])
  case (rejected e)
  with assms show ?thesis by simp
next
  case (called c sid answer b)
  show ?thesis
  proof (cases rule: enter_room_cases [of answer True RoleMember sid
        "s\<lparr>svc_state := pending_snapshot Joining RoleMember sid, svc_backend := b\<rparr>"])
    case (entered room0 room)
    show ?thesis by (rule that [OF entered(2)]) (use assms called(5) entered(3) in auto)
  next
    case (faulted e)
    with assms called(5) show ?thesis by simp
  qed
qed

text \<open>What a successful join promises the launcher: the snapshot has a normalised code, the
  member role, and a local address that is the canonical text of a loopback endpoint with a
  non-zero port.\<close>

theorem join_local_address:
  assumes "join_room B request s = (Ok snapshot, s')"
  shows "role snapshot = RoleMember \<and> room_st snapshot = Connected \<and> svc_state s' = snapshot
    \<and> (\<exists>c. room_code snapshot = Some c \<and> service_normalize_room_code c = Ok c)
    \<and> (\<exists>e. local_address snapshot = Some (addr_to_string e) \<and> loopback_endpoint e
      \<and> parse_socket_addr (addr_to_string e) = Some e)"
proof -
  obtain sid room0 room where v: "validate_backend_room room0 True = Ok room"
    and s': "svc_state s' = snapshot" and sn: "snapshot = connected_snapshot RoleMember sid room"
    using join_Ok [OF assms] .
  have code: "service_normalize_room_code (br_room_code room) = Ok (br_room_code room)"
    by (rule validate_backend_room_Ok(1) [OF v])
  obtain a where a: "br_local_address room = Some a" using validate_backend_room_Ok(5) [OF v] by auto
  then obtain e where "validate_loopback_address a = Ok e" "a = addr_to_string e"
    using validate_backend_room_Ok(6) [OF v] by blast
  with a s' code show ?thesis
    by (auto simp: sn connected_snapshot_def service_addresses.validate_Ok_iff)
qed

definition sample_join :: join_room_request where
  "sample_join = \<lparr>join_room_code = ''abcd efgh jkmn'', join_session_id = None\<rparr>"

lemma sample_join_run:
  "fst (join_room sample_backend sample_join (new_room_service ())) =
     Ok (connected_snapshot RoleMember None (sample_room\<lparr>br_room_code := ''ABCD-EFGH-JKMN''\<rparr>))"
proof -
  have "service_normalize_room_code ''abcd efgh jkmn'' = Ok ''ABCD-EFGH-JKMN''" by code_simp
  then show ?thesis
    by (simp add: join_room_def sample_join_def sample_simps enter_room_def sample_room_valid
        new_room_service_def idle_snapshot_def Let_def)
qed

theorem join_local_address_witness:
  "\<exists>snapshot s' e. join_room sample_backend sample_join (new_room_service ()) = (Ok snapshot, s')
    \<and> local_address snapshot = Some (addr_to_string e) \<and> loopback_endpoint e"
proof -
  obtain snapshot s' where run: "join_room sample_backend sample_join (new_room_service ()) = (Ok snapshot, s')"
    using sample_join_run by (metis prod.collapse)
  with join_local_address [OF run] show ?thesis by blast
qed


text \<open>C26: Leaving recovers from every state. If the backend releases its resources, the service
  is idle again with an empty snapshot and no known members, whatever happened before, a fault
  included, and one event says so (none, and no call of the backend, if it was idle already). If
  the backend fails, the service is faulted with that error.\<close>

theorem leave_recovers:
  assumes "s = run_ops (service_step B ko) xs (new_room_service b)"
  shows "case leave B s of (r, s') \<Rightarrow>
    if room_st (svc_state s) = Idle then r = Ok idle_snapshot \<and> s' = s
    else (case be_leave B (svc_backend s) of (answer, b') \<Rightarrow> svc_backend s' = b' \<and>
      (case answer of
         Ok _ \<Rightarrow> r = Ok idle_snapshot \<and> svc_state s' = idle_snapshot \<and> svc_known s' = []
           \<and> svc_events s' = svc_events s @ [StateChanged idle_snapshot]
       | Err e \<Rightarrow> r = Err e \<and> room_st (svc_state s') = Faulted \<and> svc_events s' = svc_events s
           \<and> error_code (svc_state s') = Some (rerr_code e)))"
proof -
  have ok: "service_ok s"
    unfolding assms(1) by (rule service.inv_run) (rule service_ok_new)
  then have idle: "room_st (svc_state s) = Idle \<Longrightarrow> svc_state s = idle_snapshot"
    by (simp add: service_ok_def)
  show ?thesis
    by (cases rule: leave_cases [OF service_ok_settled [OF ok], of B])
      (use idle in \<open>simp_all add: faulted_snapshot_def\<close>)
qed

theorem leave_recovers_witness:
  "leave sample_backend sample_service = (Ok idle_snapshot, sample_service\<lparr>svc_state := idle_snapshot,
     svc_known := [], svc_events := svc_events sample_service @ [StateChanged idle_snapshot]\<rparr>)"
  using leave_recovers [OF sample_service_def]
  by (cases "leave sample_backend sample_service")
    (auto simp: sample_service_eq sample_snapshot_def connected_snapshot_def sample_simps)

text \<open>After a leave that succeeded the service accepts a new room: with a valid request and a
  backend that opens a valid room, the next create returns that room.\<close>

theorem leave_then_create:
  assumes "s = run_ops (service_step B ko) xs (new_room_service b)"
    and "leave B s = (Ok sn, s')"
    and "validate_session_id (create_session_id request) = Ok sid"
    and "validate_loopback_address (create_lan_address request) = Ok address"
    and "be_create B (request\<lparr>create_session_id := sid, create_lan_address := addr_to_string address\<rparr>)
           (svc_backend s') = (Ok room0, b')"
    and "validate_backend_room room0 False = Ok room"
  shows "\<exists>s''. create B request s' = (Ok (connected_snapshot RoleHost (Some sid) room), s'')
    \<and> svc_state s'' = connected_snapshot RoleHost (Some sid) room"
proof -
  have ok: "service_ok s"
    unfolding assms(1) by (rule service.inv_run) (rule service_ok_new)
  have "room_st (svc_state s') = Idle"
    by (cases rule: leave_cases [OF service_ok_settled [OF ok], of B])
      (use assms(2) in \<open>auto simp: idle_snapshot_def\<close>)
  with assms(3-) show ?thesis
    by (simp add: create_def enter_room_def Let_def replace_known_members_def)
qed

theorem leave_then_create_witness:
  "\<exists>s''. create sample_backend sample_create (snd (leave sample_backend sample_service))
     = (Ok sample_snapshot, s'') \<and> svc_state s'' = sample_snapshot"
proof -
  have run: "leave sample_backend sample_service
      = (Ok idle_snapshot, snd (leave sample_backend sample_service))"
    by (simp add: leave_def sample_service_eq sample_snapshot_def connected_snapshot_def sample_simps)
  show ?thesis
    unfolding sample_snapshot_def
    by (rule leave_then_create [OF sample_service_def run _ _ _ sample_room_valid])
      (simp_all add: sample_create_def sample_session_id sample_address sample_simps)
qed




text \<open>C28: The peer events of a poll are a faithful difference: a subscriber whose map of the
  members agrees with the known ones, and that applies the events of a poll that does not
  change the lifecycle state, holds exactly the members the backend reported (up to \<open>PartialEq\<close>), when
  these have distinct identifiers and whatever the iteration order of the hash map.\<close>

theorem member_events_replay:
  assumes "be_refresh B (svc_backend s) = (Ok rf, b)" "room_st (svc_state s) \<in> {Connected, Reconnecting}"
    and "rf_members rf = Some ms" "distinct (map member_id ms)"
    and "\<And>ks. set (ko ks) = set ks"
    and "room_st (svc_state (poll_and_emit B ko s)) = room_st (svc_state s)"
  shows "view_eq (view_events (drop (length (svc_events s)) (svc_events (poll_and_emit B ko s))) (map_of (svc_known s)))
      (map_of (member_map ms))"
proof (cases rule: poll_cases [of B s ko])
  case (room rf' b' st' en es)
  with assms(1) have rf: "rf' = rf" by simp
  have "es = None"
    using room(3,4) assms(6) by (auto simp: refresh_snapshot_eq split: if_splits)
  then have "view_events (poll_events ko rf s) (map_of (svc_known s))
      = view_events (member_diff ko (svc_known s) ms) (map_of (svc_known s))"
    using room(3) assms(3) unfolding rf by (simp add: poll_events_def split: option.split)
  then show ?thesis
    using room(4) member_diff_view [OF assms(4), of ko "svc_known s"] assms(5) by (simp add: rf)
qed (use assms in auto)

definition quiet_backend :: "unit room_backend" where
  "quiet_backend = sample_backend\<lparr>be_refresh := (\<lambda>b. (Ok (sample_refresh\<lparr>rf_network := None\<rparr>), b))\<rparr>"

theorem member_events_replay_witness:
  "view_eq (view_events (drop (length (svc_events sample_service))
       (svc_events (poll_and_emit quiet_backend rev sample_service))) (map_of (svc_known sample_service)))
     (map_of (member_map [sample_member ''b'']))"
  by (rule member_events_replay [where rf = "sample_refresh\<lparr>rf_network := None\<rparr>"])
    (simp_all add: quiet_backend_def sample_refresh_def sample_service_eq sample_snapshot_def
      connected_snapshot_def poll_and_emit_def refresh_snapshot_def)

text \<open>The state event of a poll is stale: it carries the members (and the local address) from
  before the poll and comes after the peer events, so a subscriber that takes the members from
  it is back at the old list while the service holds the new one.\<close>

theorem state_event_is_stale:
  assumes "be_refresh B (svc_backend s) = (Ok rf, b)" "room_st (svc_state s) = Connected"
    and "rf_network rf = Some n" "\<not> is_healthy n" "rf_members rf = Some ms"
  shows "case poll_and_emit B ko s of s' \<Rightarrow> members (svc_state s') = ms \<and> svc_known s' = member_map ms
    \<and> view_events (svc_events s') v = map_of (member_map (members (svc_state s)))"
proof (cases rule: poll_cases [of B s ko])
  case (room rf' b' st' en es)
  with assms(1) have rf: "rf' = rf" by simp
  then have es: "es = Some ((svc_state s)\<lparr>room_st := Reconnecting, network := Some n\<rparr>)" and "members st' = ms"
    using room(3) assms by (auto simp: refresh_snapshot_eq health_step_def)
  moreover have "view_events (poll_events ko rf s) w = map_of (member_map (members (svc_state s)))" for w
    using room(3) unfolding rf by (simp add: poll_events_def es)
  ultimately show ?thesis using room(4) assms(5) rf by simp
qed (use assms in simp_all)

theorem state_event_is_stale_witness:
  "members (svc_state (poll_and_emit sample_backend (\<lambda>ks. ks) sample_service)) = [sample_member ''b'']
    \<and> view_events (svc_events (poll_and_emit sample_backend (\<lambda>ks. ks) sample_service)) Map.empty
        = map_of (member_map [sample_member ''a''])"
  using state_event_is_stale [of sample_backend sample_service sample_refresh "()" "sample_net False"
      "[sample_member ''b'']" "\<lambda>ks. ks" Map.empty]
  by (simp add: sample_service_eq sample_simps sample_refresh_def sample_net_def sample_snapshot_def
      connected_snapshot_def)

text \<open>Diagnosing an active room never publishes an event and never leaves the service in
  \<open>Diagnosing\<close>: it returns to the state it had, with the network status it reports stored, or is
  faulted with the error it returns. A failing refresh is not an error while the backend's own
  diagnosis works. Outside a room it is refused and changes nothing.\<close>

theorem diagnose_outcome:
  assumes "s = run_ops (service_step B ko) xs (new_room_service b)"
  shows "case diagnose B s of (r, s') \<Rightarrow> svc_events s' = svc_events s \<and> svc_known s' = svc_known s \<and>
    (if room_st (svc_state s) \<in> {Connected, Reconnecting}
     then (case r of Ok n \<Rightarrow> room_st (svc_state s') = room_st (svc_state s) \<and> network (svc_state s') = Some n
                    \<and> same_room (svc_state s) (svc_state s')
           | Err e \<Rightarrow> svc_state s' = faulted_snapshot (role (svc_state s)) (game_session_id (svc_state s)) e
                    \<and> (\<exists>b b'. be_diagnose B b = (Err e, b')))
     else r = Err not_connected_error \<and> s' = s)"
proof -
  have ok: "service_ok s"
    unfolding assms(1) by (rule service.inv_run) (rule service_ok_new)
  show ?thesis
    by (cases rule: diagnose_cases [OF service_ok_settled [OF ok], of B])
      (auto simp: same_room_def)
qed

theorem diagnose_outcome_witness:
  "case diagnose sample_backend sample_service of (r, s') \<Rightarrow>
     r = Ok (sample_net False) \<and> svc_events s' = svc_events sample_service"
  using diagnose_outcome [OF sample_service_def]
  by (simp add: diagnose_def sample_service_eq sample_snapshot_def connected_snapshot_def sample_simps
      sample_refresh_def Let_def)


text \<open>The room service and the credentials normalise room codes by the same function, errors
  included, and it is stable: the normal form is accepted again unchanged.\<close>

theorem normalizers_agree:
  "service_normalize_room_code s = normalize_room_code s
    \<and> (case service_normalize_room_code s of Err e \<Rightarrow> e = invalid_code_error
       | Ok c \<Rightarrow> normalize_room_code c = Ok c \<and> length c = 14 \<and> compact_room_code c = compact_room_code s)"
proof (cases "service_normalize_room_code s")
  case (Inl e)
  then show ?thesis by (auto simp: service_normalize_eq normalize_room_code_alt split: if_splits)
next
  case (Inr c)
  with service_codes.normalize_idem service_codes.normalize_length service_codes.compact_preserved
  show ?thesis by (simp add: service_normalize_eq)
qed

end
