(* ===== verification/Ipc_Session.thy ===== *)
theory Ipc_Session
  imports Framing Room_Service Bootstrap_Cli "HOL-Library.Sublist"
begin

text \<open>
  \<open>ipc/session.rs\<close>: one authenticated session over the IPC stream: the handshake, the request
  handler, and the loop that serves requests, polls the room and forwards its events.

  What \<open>serde_json\<close> does is a record of functions, one per type that is converted. The loop
  waits for a request, the poll timer or an event; which of them is ready first is outside the
  program, so the loop is a machine over a sequence of wake-ups. When the timer or an event wins,
  the pending \<open>read_frame\<close> is dropped with the bytes it had taken (\<open>cancel_read\<close>); the wake-up says
  how many. The receiver of the event channel is its position in the published events;
  a receiver that is more than the capacity behind is moved forward and told that it lagged.
\<close>

section \<open>Constants and types\<close>

definition MAX_REQUEST_IDS :: nat where
  "MAX_REQUEST_IDS = 4096"

definition EVENT_CAPACITY :: nat where
  "EVENT_CAPACITY = 64"

definition CAPABILITIES :: "string list" where
  "CAPABILITIES = [''identity.initialize'', ''room.create'', ''room.join'', ''room.leave'',
     ''room.status'', ''room.set-lan-address'', ''network.diagnose'', ''events.push'', ''shutdown'']"

datatype session_outcome = ShutdownRequested | PeerDisconnected

text \<open>The values the session serialises.\<close>

datatype ipc_payload =
    PayHelloAccepted hello_accepted
  | PayError error_response
  | PaySnapshot room_snapshot
  | PayNetwork network_status
  | PayIdentityInitialized bool
  | PayEmpty
  | PayPeer room_member
  | PayPeerLeft string

record 'v codec =
  cd_to_value :: "ipc_payload \<Rightarrow> json_error + 'v"
  cd_to_vec :: "'v envelope \<Rightarrow> json_error + bytes"
  cd_from_slice :: "bytes \<Rightarrow> json_error + 'v envelope"
  cd_zeroize :: "bytes \<Rightarrow> bytes"
  cd_hello :: "'v \<Rightarrow> json_error + hello_request"
  cd_identity :: "'v \<Rightarrow> json_error + string"
  cd_create :: "'v \<Rightarrow> json_error + create_room_request"
  cd_join :: "'v \<Rightarrow> json_error + join_room_request"
  cd_set_lan :: "'v \<Rightarrow> json_error + set_lan_address_request"

record 'b session =
  se_in :: reader
  se_out :: writer
  se_room :: "'b room_service"
  se_ids :: "string list"
  se_identity :: "bytes option"
  se_seen :: nat
  se_seq :: u64

section \<open>Helpers\<close>

definition valid_request_id :: "string \<Rightarrow> bool" where
  "valid_request_id v \<longleftrightarrow> v \<noteq> [] \<and> length v \<le> 128 \<and> list_all (\<lambda>c. 0x20 \<le> code c \<and> code c \<le> 0x7e) v"

text \<open>\<open>u8::from_str_radix(_, 16)\<close>: a leading plus sign is accepted, a lone sign is not.\<close>

definition u8_from_hex :: "string \<Rightarrow> u8 option" where
  "u8_from_hex s =
    (let digits = (case s of c # d # cs \<Rightarrow> if c = CHR ''+'' then d # cs else s | _ \<Rightarrow> s);
         ds = map (to_digit 16) digits
     in if digits = [] \<or> None \<in> set ds \<or> 256 \<le> digits_value 16 (map the ds) then None
        else Some (word_of_nat (digits_value 16 (map the ds))))"

fun decode_pairs :: "string \<Rightarrow> bytes option" where
  "decode_pairs (a # b # cs) = (case from_utf8 (as_bytes [a, b]) of None \<Rightarrow> None
    | Some encoded \<Rightarrow> (case u8_from_hex encoded of None \<Rightarrow> None
      | Some x \<Rightarrow> map_option (Cons x) (decode_pairs cs)))"
| "decode_pairs _ = Some []"

definition decode_identity :: "string \<Rightarrow> bytes option" where
  "decode_identity private_key = (if length private_key \<noteq> 64 then None else decode_pairs private_key)"

definition write_response ::
    "'v codec \<Rightarrow> string \<Rightarrow> string \<Rightarrow> ipc_payload \<Rightarrow> 'b session \<Rightarrow> (frame_error + unit) \<times> 'b session" where
  "write_response cd rid ty payload s = (case envelope_response (cd_to_value cd) rid ty payload of
      Err e \<Rightarrow> (Err (InvalidJson e), s)
    | Ok env \<Rightarrow> (case write_frame (cd_to_vec cd) (cd_zeroize cd) env (se_out s) of
        (r, w) \<Rightarrow> (r, s\<lparr>se_out := w\<rparr>)))"

definition send_error ::
    "'v codec \<Rightarrow> string \<Rightarrow> string \<Rightarrow> string \<Rightarrow> bool \<Rightarrow> 'b session \<Rightarrow> (frame_error + unit) \<times> 'b session" where
  "send_error cd rid c m r s = write_response cd rid ''error''
     (PayError \<lparr>err_code = c, err_message = m, err_retryable = r\<rparr>) s"

definition send_room_error ::
    "'v codec \<Rightarrow> string \<Rightarrow> room_error \<Rightarrow> 'b session \<Rightarrow> (frame_error + unit) \<times> 'b session" where
  "send_room_error cd rid e s = send_error cd rid (rerr_code e) (rerr_message e) (retryable e) s"

fun event_payload :: "room_event \<Rightarrow> ipc_payload" where
  "event_payload (PeerJoined m) = PayPeer m"
| "event_payload (PeerUpdated m) = PayPeer m"
| "event_payload (PeerLeft i) = PayPeerLeft i"
| "event_payload (NetworkUpdated n) = PayNetwork n"
| "event_payload (StateChanged st) = PaySnapshot st"

definition event_id :: "u64 \<Rightarrow> string" where
  "event_id n = ''evt-'' @ dec (unat n)"

text \<open>\<open>error.to_string()\<close> of the JSON error becomes the message of an I/O error.\<close>

fun json_message :: "json_error \<Rightarrow> string" where
  "json_message (JsonError m) = m"

definition write_event ::
    "'v codec \<Rightarrow> u64 \<Rightarrow> room_event \<Rightarrow> 'b session \<Rightarrow> (frame_error + unit) \<times> 'b session" where
  "write_event cd n e s = (case cd_to_value cd (event_payload e) of
      Err err \<Rightarrow> (Err (FrameIo (IoError InvalidData (json_message err))), s)
    | Ok v \<Rightarrow> (case write_frame (cd_to_vec cd) (cd_zeroize cd)
          \<lparr>env_protocol = PROTOCOL_VERSION, env_id = event_id n, env_type = message_type e, env_payload = v\<rparr>
          (se_out s) of (r, w) \<Rightarrow> (r, s\<lparr>se_out := w\<rparr>)))"

text \<open>The \<open>?\<close> after a write, then the value the handler returns.\<close>

definition and_return :: "'a \<Rightarrow> (frame_error + unit) \<times> 's \<Rightarrow> (frame_error + 'a) \<times> 's" where
  "and_return v rs = (case rs of (Err e, s) \<Rightarrow> (Err e, s) | (Ok _, s) \<Rightarrow> (Ok v, s))"

section \<open>Requests\<close>

definition reply_room ::
    "'v codec \<Rightarrow> string \<Rightarrow> string \<Rightarrow> (room_error + ipc_payload) \<times> 'b room_service \<Rightarrow> 'b session
      \<Rightarrow> (frame_error + unit) \<times> 'b session" where
  "reply_room cd rid ty answer s = (case answer of
      (Ok payload, room) \<Rightarrow> write_response cd rid ty payload (s\<lparr>se_room := room\<rparr>)
    | (Err e, room) \<Rightarrow> send_room_error cd rid e (s\<lparr>se_room := room\<rparr>))"

definition pay :: "('a \<Rightarrow> ipc_payload) \<Rightarrow> (room_error + 'a) \<times> 'r \<Rightarrow> (room_error + ipc_payload) \<times> 'r" where
  "pay f answer = (case answer of (Ok x, room) \<Rightarrow> (Ok (f x), room) | (Err e, room) \<Rightarrow> (Err e, room))"

definition dispatch ::
    "'v codec \<Rightarrow> 'b room_backend \<Rightarrow> (string list \<Rightarrow> string list) \<Rightarrow> 'v envelope \<Rightarrow> 'b session
      \<Rightarrow> (frame_error + session_outcome option) \<times> 'b session" where
  "dispatch cd B ko request s =
    (let rid = env_id request; ty = env_type request; room = se_room s in
     if ty = ''identity.initialize'' then and_return None
       (case cd_identity cd (env_payload request) of
          Ok payload \<Rightarrow> (case decode_identity payload of
              Some private_key \<Rightarrow>
                (let s1 = s\<lparr>se_room := initialize_identity B private_key room, se_identity := Some private_key\<rparr>
                 in write_response cd rid ''identity.initialized'' (PayIdentityInitialized True) s1)
            | None \<Rightarrow> send_error cd rid ''identity.invalid-key''
                ''The identity private key must be a 32-byte hexadecimal value.'' False s)
        | Err _ \<Rightarrow> send_error cd rid ''identity.invalid-request''
            ''The identity.initialize payload is invalid.'' False s)
     else if ty = ''room.status'' then and_return None
       (let (snapshot, room') = status B ko room
        in write_response cd rid ''room.status.result'' (PaySnapshot snapshot) (s\<lparr>se_room := room'\<rparr>))
     else if ty = ''room.leave'' then and_return None
       (reply_room cd rid ''room.left'' (pay PaySnapshot (leave B room)) s)
     else if ty = ''room.create'' then and_return None
       (case cd_create cd (env_payload request) of
          Ok payload \<Rightarrow> reply_room cd rid ''room.created'' (pay PaySnapshot (create B payload room)) s
        | Err _ \<Rightarrow> send_error cd rid ''room.invalid-request'' ''The room.create payload is invalid.'' False s)
     else if ty = ''room.join'' then and_return None
       (case cd_join cd (env_payload request) of
          Ok payload \<Rightarrow> reply_room cd rid ''room.joined'' (pay PaySnapshot (join_room B payload room)) s
        | Err _ \<Rightarrow> send_error cd rid ''room.invalid-request'' ''The room.join payload is invalid.'' False s)
     else if ty = ''room.set-lan-address'' then and_return None
       (case cd_set_lan cd (env_payload request) of
          Ok payload \<Rightarrow> reply_room cd rid ''room.state-changed''
            (pay PaySnapshot (set_lan_address B ko payload room)) s
        | Err _ \<Rightarrow> send_error cd rid ''room.invalid-request''
            ''The room.set-lan-address payload is invalid.'' False s)
     else if ty = ''network.diagnose'' then and_return None
       (reply_room cd rid ''diagnostic.updated'' (pay PayNetwork (diagnose B room)) s)
     else if ty = ''shutdown'' then and_return (Some ShutdownRequested)
       (write_response cd rid ''shutdown.accepted'' PayEmpty s)
     else and_return None
       (send_error cd rid ''ipc.unknown-message-type'' ''Unsupported request type.'' False s))"

definition handle_request ::
    "'v codec \<Rightarrow> 'b room_backend \<Rightarrow> (string list \<Rightarrow> string list) \<Rightarrow> 'v envelope \<Rightarrow> 'b session
      \<Rightarrow> (frame_error + session_outcome option) \<times> 'b session" where
  "handle_request cd B ko request s =
    (let rid = env_id request; ty = env_type request in
     if env_protocol request \<noteq> PROTOCOL_VERSION then and_return None
       (send_error cd rid ''ipc.protocol-mismatch'' ''The IPC protocol version is not supported.'' False s)
     else if \<not> valid_request_id rid then and_return None
       (send_error cd rid ''ipc.invalid-request-id'' ''The request ID is invalid.'' False s)
     else if MAX_REQUEST_IDS \<le> length (se_ids s) then and_return (Some PeerDisconnected)
       (send_error cd rid ''ipc.request-limit'' ''The IPC session request limit was reached.'' False s)
     else if rid \<in> set (se_ids s) then and_return None
       (send_error cd rid ''ipc.duplicate-request-id''
          ''The request ID was already used in this session.'' False s)
     else
       (let s1 = s\<lparr>se_ids := rid # se_ids s\<rparr> in
        if (ty = ''room.create'' \<or> ty = ''room.join'') \<and> se_identity s1 = None then and_return None
          (send_error cd rid ''identity.not-initialized''
             ''Initialize the secure identity before entering a room.'' False s1)
        else dispatch cd B ko request s1))"

section \<open>The handshake\<close>

text \<open>
  \<open>run\<close> up to the loop. \<open>None\<close>: the session goes on with the loop; \<open>Some outcome\<close>: it ends.
  The comparison of the token is in constant time; its value is equality of the bytes.
\<close>

definition handshake ::
    "'v codec \<Rightarrow> string \<Rightarrow> bytes \<Rightarrow> bool \<Rightarrow> 'b session \<Rightarrow> (frame_error + session_outcome option) \<times> 'b session" where
  "handshake cd version secret timed_out s =
    (if timed_out then (Err (FrameIo (IoError TimedOut ''IPC handshake timed out'')), s)
     else (case read_frame (cd_from_slice cd) (se_in s) of
        (Err e, r) \<Rightarrow> (Err e, s\<lparr>se_in := r\<rparr>)
      | (Ok first, r) \<Rightarrow>
          (let s1 = s\<lparr>se_in := r\<rparr> in
           if \<not> valid_request_id (env_id first) \<or> env_protocol first \<noteq> PROTOCOL_VERSION
              \<or> env_type first \<noteq> ''hello''
           then and_return (Some PeerDisconnected) (send_error cd (env_id first) ''ipc.invalid-handshake''
                  ''The first IPC message must be a valid hello request.'' False s1)
           else (case cd_hello cd (env_payload first) of
              Err _ \<Rightarrow> and_return (Some PeerDisconnected) (send_error cd (env_id first)
                  ''ipc.invalid-handshake'' ''The hello payload is invalid.'' False s1)
            | Ok hello \<Rightarrow>
                (let authenticated = as_bytes (auth_token hello) = secret in
                 if \<not> authenticated \<or> client hello \<noteq> ''pcln'' \<or> trim (client_version hello) = []
                 then and_return (Some PeerDisconnected) (send_error cd (env_id first)
                        ''ipc.authentication-failed'' ''IPC authentication failed.'' False s1)
                 else and_return None
                   (case write_response cd (env_id first) ''hello.accepted''
                      (PayHelloAccepted \<lparr>helper_version = version, capabilities = CAPABILITIES\<rparr>) s1 of
                      (Err e, s2) \<Rightarrow> (Err e, s2)
                    | (Ok _, s2) \<Rightarrow>
                        (Ok (), s2\<lparr>se_ids := [env_id first], se_identity := None,
                                   se_seen := length (svc_events (se_room s2)), se_seq := 0\<rparr>)))))))"

section \<open>The loop\<close>

datatype wake = WakeRequest | WakeTick nat | WakeEvent nat

text \<open>
  One turn of the loop. A wake-up that cannot happen (nothing to receive, or a dropped read that
  would have been complete) changes nothing.
\<close>

definition session_turn ::
    "'v codec \<Rightarrow> 'b room_backend \<Rightarrow> (string list \<Rightarrow> string list) \<Rightarrow> wake \<Rightarrow> 'b session
      \<Rightarrow> (frame_error + session_outcome option) \<times> 'b session" where
  "session_turn cd B ko wk s = (case wk of
      WakeRequest \<Rightarrow> (case read_frame (cd_from_slice cd) (se_in s) of
          (Err EndOfStream, r) \<Rightarrow> (Ok (Some PeerDisconnected), s\<lparr>se_in := r\<rparr>)
        | (Err e, r) \<Rightarrow> (Err e, s\<lparr>se_in := r\<rparr>)
        | (Ok request, r) \<Rightarrow> handle_request cd B ko request (s\<lparr>se_in := r\<rparr>))
    | WakeTick n \<Rightarrow>
        if \<not> read_pending n (se_in s) then (Ok None, s)
        else (Ok None, s\<lparr>se_in := cancel_read n (se_in s), se_room := poll_and_emit B ko (se_room s)\<rparr>)
    | WakeEvent n \<Rightarrow>
        (let published = svc_events (se_room s); total = length published in
         if \<not> read_pending n (se_in s) \<or> total \<le> se_seen s then (Ok None, s)
         else
           (let s1 = s\<lparr>se_in := cancel_read n (se_in s)\<rparr> in
            if EVENT_CAPACITY < total - se_seen s
            then (Ok None, s1\<lparr>se_seen := total - EVENT_CAPACITY\<rparr>)
            else
              (let s2 = s1\<lparr>se_seen := Suc (se_seen s), se_seq := se_seq s + 1\<rparr>
               in and_return None (write_event cd (se_seq s2) (published ! se_seen s) s2)))))"

text \<open>
  The whole session: the handshake, then turns until one ends it. \<open>None\<close> means that the
  sequence of wake-ups is used up and the session still runs.
\<close>

fun session_loop ::
    "'v codec \<Rightarrow> 'b room_backend \<Rightarrow> (string list \<Rightarrow> string list) \<Rightarrow> wake list \<Rightarrow> 'b session
      \<Rightarrow> (frame_error + session_outcome) option \<times> 'b session" where
  "session_loop cd B ko [] s = (None, s)"
| "session_loop cd B ko (wk # wks) s = (case session_turn cd B ko wk s of
      (Err e, s') \<Rightarrow> (Some (Err e), s')
    | (Ok (Some outcome), s') \<Rightarrow> (Some (Ok outcome), s')
    | (Ok None, s') \<Rightarrow> session_loop cd B ko wks s')"

definition session_run ::
    "'v codec \<Rightarrow> 'b room_backend \<Rightarrow> (string list \<Rightarrow> string list) \<Rightarrow> string \<Rightarrow> bytes \<Rightarrow> bool \<Rightarrow> wake list
      \<Rightarrow> 'b session \<Rightarrow> (frame_error + session_outcome) option \<times> 'b session" where
  "session_run cd B ko version secret timed_out wks s =
    (case handshake cd version secret timed_out s of
      (Err e, s') \<Rightarrow> (Some (Err e), s')
    | (Ok (Some outcome), s') \<Rightarrow> (Some (Ok outcome), s')
    | (Ok None, s') \<Rightarrow> session_loop cd B ko wks s')"

section \<open>What writing changes\<close>

named_theorems session_simps \<open>the parts of the session an operation leaves alone\<close>

lemma snd_and_return [session_simps]: "snd (and_return v rs) = snd rs"
  by (simp add: and_return_def split: prod.split sum.split)

lemma write_response_keeps [session_simps]:
  "se_in (snd (write_response cd rid ty p s)) = se_in s"
  "se_room (snd (write_response cd rid ty p s)) = se_room s"
  "se_ids (snd (write_response cd rid ty p s)) = se_ids s"
  "se_identity (snd (write_response cd rid ty p s)) = se_identity s"
  "se_seen (snd (write_response cd rid ty p s)) = se_seen s"
  "se_seq (snd (write_response cd rid ty p s)) = se_seq s"
  by (simp_all add: write_response_def split: sum.split prod.split)

lemma send_error_keeps [session_simps]:
  "se_in (snd (send_error cd rid c m r s)) = se_in s"
  "se_room (snd (send_error cd rid c m r s)) = se_room s"
  "se_ids (snd (send_error cd rid c m r s)) = se_ids s"
  "se_identity (snd (send_error cd rid c m r s)) = se_identity s"
  "se_seen (snd (send_error cd rid c m r s)) = se_seen s"
  "se_seq (snd (send_error cd rid c m r s)) = se_seq s"
  by (simp_all add: send_error_def session_simps)

lemma write_event_keeps [session_simps]:
  "se_in (snd (write_event cd n e s)) = se_in s"
  "se_room (snd (write_event cd n e s)) = se_room s"
  "se_ids (snd (write_event cd n e s)) = se_ids s"
  "se_identity (snd (write_event cd n e s)) = se_identity s"
  "se_seen (snd (write_event cd n e s)) = se_seen s"
  "se_seq (snd (write_event cd n e s)) = se_seq s"
  by (simp_all add: write_event_def split: sum.split prod.split)

lemma snd_pay [session_simps]: "snd (pay f answer) = snd answer"
  by (simp add: pay_def split: sum.split prod.split)

lemma reply_room_keeps [session_simps]:
  "se_in (snd (reply_room cd rid ty a s)) = se_in s"
  "se_room (snd (reply_room cd rid ty a s)) = snd a"
  "se_ids (snd (reply_room cd rid ty a s)) = se_ids s"
  "se_identity (snd (reply_room cd rid ty a s)) = se_identity s"
  "se_seen (snd (reply_room cd rid ty a s)) = se_seen s"
  "se_seq (snd (reply_room cd rid ty a s)) = se_seq s"
  by (simp_all add: reply_room_def send_room_error_def session_simps split: sum.split prod.split)

section \<open>Answers\<close>

text \<open>
  A codec that can serialise every payload of the session within the size of a frame. The
  hypothesis of the properties about answers: the types of the session always serialise, and
  the size of a snapshot is in the hands of the backend.
\<close>

definition codec_total :: "'v codec \<Rightarrow> bool" where
  "codec_total cd \<longleftrightarrow> (\<forall>p. is_ok (cd_to_value cd p))
    \<and> (\<forall>env. \<exists>body. cd_to_vec cd env = Ok body \<and> body_ok body)"

text \<open>One frame is appended to the output: an envelope with this identifier.\<close>

definition answered :: "'v codec \<Rightarrow> string \<Rightarrow> 'b session \<Rightarrow> 'b session \<Rightarrow> bool" where
  "answered cd rid s s' \<longleftrightarrow> (\<exists>env body. env_id env = rid \<and> env_protocol env = PROTOCOL_VERSION
     \<and> cd_to_vec cd env = Ok body \<and> body_ok body
     \<and> se_out s' = (se_out s)\<lparr>tx := tx (se_out s) @ frame_bytes body\<rparr>)"

definition answers :: "'v codec \<Rightarrow> string \<Rightarrow> 'b session \<Rightarrow> (frame_error + 'a) \<times> 'b session \<Rightarrow> bool" where
  "answers cd rid s res \<longleftrightarrow> (\<exists>v s'. res = (Ok v, s') \<and> answered cd rid s s')"

lemma answered_out [simp]:
  "answered cd rid (s\<lparr>se_room := r\<rparr>) s' = answered cd rid s s'"
  "answered cd rid (s\<lparr>se_in := i\<rparr>) s' = answered cd rid s s'"
  "answered cd rid (s\<lparr>se_ids := is\<rparr>) s' = answered cd rid s s'"
  "answered cd rid (s\<lparr>se_identity := k\<rparr>) s' = answered cd rid s s'"
  "answered cd rid (s\<lparr>se_seen := n\<rparr>) s' = answered cd rid s s'"
  "answered cd rid (s\<lparr>se_seq := q\<rparr>) s' = answered cd rid s s'"
  by (simp_all add: answered_def)

lemma answers_out [simp]:
  "answers cd rid (s\<lparr>se_room := r\<rparr>) res = answers cd rid s res"
  "answers cd rid (s\<lparr>se_in := i\<rparr>) res = answers cd rid s res"
  "answers cd rid (s\<lparr>se_ids := is\<rparr>) res = answers cd rid s res"
  "answers cd rid (s\<lparr>se_identity := k\<rparr>) res = answers cd rid s res"
  by (simp_all add: answers_def)

lemma write_frame_answered:
  assumes "codec_total cd" "open_writer (se_out s)" "env_id env = rid" "env_protocol env = PROTOCOL_VERSION"
  shows "\<exists>w. write_frame (cd_to_vec cd) (cd_zeroize cd) env (se_out s) = (Ok (), w)
    \<and> answered cd rid s (s\<lparr>se_out := w\<rparr>)"
proof -
  obtain body where "cd_to_vec cd env = Ok body" "body_ok body"
    using assms(1) by (auto simp: codec_total_def)
  with assms show ?thesis by (auto simp: write_frame_open answered_def)
qed

lemma write_response_answers:
  assumes "codec_total cd" "open_writer (se_out s)"
  shows "answers cd rid s (write_response cd rid ty p s)"
proof -
  obtain v where v: "cd_to_value cd p = Ok v" using assms(1) by (auto simp: codec_total_def is_ok_iff)
  let ?env = "\<lparr>env_protocol = PROTOCOL_VERSION, env_id = rid, env_type = ty, env_payload = v\<rparr>"
  obtain w where "write_frame (cd_to_vec cd) (cd_zeroize cd) ?env (se_out s) = (Ok (), w)"
    "answered cd rid s (s\<lparr>se_out := w\<rparr>)"
    using write_frame_answered [OF assms, of ?env rid] by auto
  with v show ?thesis by (simp add: write_response_def envelope_response_def answers_def)
qed

lemma and_return_answers [simp]: "answers cd rid s (and_return v res) = answers cd rid s res"
  by (auto simp: answers_def and_return_def split: prod.splits sum.splits)

lemma send_error_answers:
  assumes "codec_total cd" "open_writer (se_out s)"
  shows "answers cd rid s (send_error cd rid c m r s)"
  unfolding send_error_def by (rule write_response_answers [OF assms])

lemma reply_room_answers:
  assumes "codec_total cd" "open_writer (se_out s)"
  shows "answers cd rid s (reply_room cd rid ty a s)"
  using write_response_answers [OF assms(1), of "s\<lparr>se_room := snd a\<rparr>" rid ty]
    send_error_answers [OF assms(1), of "s\<lparr>se_room := snd a\<rparr>" rid] assms(2)
  by (auto simp: reply_room_def send_room_error_def split: sum.split prod.split)

lemma dispatch_answers:
  assumes "codec_total cd" "open_writer (se_out s)"
  shows "answers cd (env_id request) s (dispatch cd B ko request s)"
  using write_response_answers [OF assms(1), of "s\<lparr>se_room := r\<rparr>" for r]
    write_response_answers [OF assms(1), of "s\<lparr>se_room := r, se_identity := k\<rparr>" for r k]
    write_response_answers [OF assms] send_error_answers [OF assms] reply_room_answers [OF assms] assms(2)
  by (simp add: dispatch_def Let_def split: sum.split option.split prod.split)

lemma handle_request_answers:
  assumes "codec_total cd" "open_writer (se_out s)"
  shows "answers cd (env_id request) s (handle_request cd B ko request s)"
proof -
  let ?s = "s\<lparr>se_ids := env_id request # se_ids s\<rparr>"
  have "open_writer (se_out ?s)" using assms(2) by simp
  from dispatch_answers [OF assms(1) this, of request B ko] send_error_answers [OF assms(1) this]
    send_error_answers [OF assms]
  show ?thesis by (simp add: handle_request_def Let_def)
qed

section \<open>The room behind the session\<close>

lemma poll_events_prefix: "\<exists>es. svc_events (poll_and_emit B ko s) = svc_events s @ es"
  by (cases rule: poll_cases [of B s ko]) auto

lemma enter_room_events:
  "svc_events s = svc_events t
    \<Longrightarrow> \<exists>es. svc_events (snd (enter_room ro req sid a s)) = svc_events t @ es"
  by (cases rule: enter_room_cases [of a req ro sid s]) auto

lemma service_step_events:
  assumes "service_ok s"
  shows "\<exists>es. svc_events (service_step B ko x s) = svc_events s @ es"
proof (cases x)
  case (OpCreate r)
  then show ?thesis by (cases rule: create_cases [of B r s]) (simp_all add: enter_room_events)
next
  case (OpJoin r)
  then show ?thesis by (cases rule: join_cases [of B r s]) (simp_all add: enter_room_events)
next
  case (OpSetLanAddress r)
  then show ?thesis
    by (cases rule: set_lan_address_cases [of B ko r s])
      (use poll_events_prefix [of B ko "s\<lparr>svc_backend := b\<rparr>" for b] in auto)
next
  case OpDiagnose
  then show ?thesis
    by (cases rule: diagnose_cases [OF service_ok_settled [OF assms], of B]) auto
next
  case OpLeave
  then show ?thesis
    by (cases rule: leave_cases [OF service_ok_settled [OF assms], of B]) auto
qed (auto simp: initialize_identity_def status_def Let_def poll_events_prefix)

text \<open>Only creating or joining takes an idle service out of \<open>Idle\<close>.\<close>

fun enters_room :: "service_op \<Rightarrow> bool" where
  "enters_room (OpCreate r) = True"
| "enters_room (OpJoin r) = True"
| "enters_room _ = False"

lemma idle_stays_idle:
  assumes "service_ok s" "lifecycle_state s = Idle" "\<not> enters_room x"
  shows "lifecycle_state (service_step B ko x s) = Idle"
proof (cases x)
  case (OpSetLanAddress r)
  with assms(2) show ?thesis by (cases rule: set_lan_address_cases [of B ko r s]) auto
qed (use assms poll_lifecycle [OF assms(1), of B ko] in
  \<open>auto simp: initialize_identity_def status_def Let_def diagnose_def leave_def\<close>)

text \<open>
  The operation of the room service that a request stands for, if any. A request performs that
  operation, and one that enters a room only when an identity was set before.
\<close>

definition request_op :: "'v codec \<Rightarrow> 'v envelope \<Rightarrow> service_op option" where
  "request_op cd request =
    (let ty = env_type request; ok = (\<lambda>f r. case r of Ok x \<Rightarrow> Some (f x) | Err (_ :: json_error) \<Rightarrow> None) in
     if ty = ''identity.initialize''
     then Option.bind (ok (\<lambda>k. k) (cd_identity cd (env_payload request))) (\<lambda>k. map_option OpInitializeIdentity (decode_identity k))
     else if ty = ''room.status'' then Some OpStatus
     else if ty = ''room.leave'' then Some OpLeave
     else if ty = ''room.create'' then (case cd_create cd (env_payload request) of Ok r \<Rightarrow> Some (OpCreate r) | Err _ \<Rightarrow> None)
     else if ty = ''room.join'' then (case cd_join cd (env_payload request) of Ok r \<Rightarrow> Some (OpJoin r) | Err _ \<Rightarrow> None)
     else if ty = ''room.set-lan-address''
     then (case cd_set_lan cd (env_payload request) of Ok r \<Rightarrow> Some (OpSetLanAddress r) | Err _ \<Rightarrow> None)
     else if ty = ''network.diagnose'' then Some OpDiagnose
     else None)"

lemma dispatch_room:
  "se_room (snd (dispatch cd B ko request s)) = (case request_op cd request of
      None \<Rightarrow> se_room s | Some x \<Rightarrow> service_step B ko x (se_room s))"
proof -
  consider "env_type request = ''identity.initialize''" | "env_type request = ''room.create''"
    | "env_type request = ''room.join''" | "env_type request = ''room.set-lan-address''"
    | "env_type request \<notin> {''identity.initialize'', ''room.create'', ''room.join'', ''room.set-lan-address''}"
    by blast
  then show ?thesis
  proof cases
    case 1
    then show ?thesis
      by (simp add: dispatch_def request_op_def Let_def session_simps split: sum.split option.split)
  next
    case 2
    then show ?thesis
      by (simp add: dispatch_def request_op_def Let_def session_simps split: sum.split)
  next
    case 3
    then show ?thesis
      by (simp add: dispatch_def request_op_def Let_def session_simps split: sum.split)
  next
    case 4
    then show ?thesis
      by (simp add: dispatch_def request_op_def Let_def session_simps split: sum.split)
  next
    case 5
    then show ?thesis
      by (simp add: dispatch_def request_op_def Let_def session_simps split: prod.split)
  qed
qed

lemma request_op_enters:
  "request_op cd request = Some x \<Longrightarrow> enters_room x
    \<Longrightarrow> env_type request = ''room.create'' \<or> env_type request = ''room.join''"
  by (auto simp: request_op_def Let_def bind_eq_Some_conv split: if_splits sum.splits)

lemma handle_request_room:
  obtains (none) "se_room (snd (handle_request cd B ko request s)) = se_room s"
  | (op) x where "request_op cd request = Some x"
      "se_room (snd (handle_request cd B ko request s)) = service_step B ko x (se_room s)"
      "enters_room x \<Longrightarrow> se_identity s \<noteq> None"
proof (cases "se_room (snd (handle_request cd B ko request s)) = se_room s")
  case False
  let ?s = "s\<lparr>se_ids := env_id request # se_ids s\<rparr>"
  from False have h: "handle_request cd B ko request s = dispatch cd B ko request ?s"
    and i: "\<not> ((env_type request = ''room.create'' \<or> env_type request = ''room.join'') \<and> se_identity s = None)"
    by (auto simp: handle_request_def Let_def session_simps split: if_splits)
  from False obtain x where x: "request_op cd request = Some x"
    unfolding h dispatch_room by (auto split: option.splits)
  show ?thesis
    by (rule op [OF x]) (use x i request_op_enters [OF x] in \<open>auto simp: h dispatch_room\<close>)
qed (rule none)

section \<open>The invariant of the session\<close>

text \<open>
  The room is well formed; the request identifiers are valid, distinct and at most 4096; without
  an identity the room is idle, and an identity has 32 bytes; the receiver is not ahead of the
  events.
\<close>

definition session_ok :: "'b session \<Rightarrow> bool" where
  "session_ok s \<longleftrightarrow> service_ok (se_room s)
    \<and> distinct (se_ids s) \<and> list_all valid_request_id (se_ids s) \<and> length (se_ids s) \<le> MAX_REQUEST_IDS
    \<and> (se_identity s = None \<longrightarrow> lifecycle_state (se_room s) = Idle)
    \<and> pred_option (\<lambda>k. length k = 32) (se_identity s)
    \<and> se_seen s \<le> length (svc_events (se_room s))"

lemma length_decode_pairs: "decode_pairs cs = Some k \<Longrightarrow> 2 * length k \<le> length cs \<and> length cs \<le> 2 * length k + 1"
  by (induction cs arbitrary: k rule: decode_pairs.induct) (fastforce split: option.splits)+

lemma length_decode_identity: "decode_identity t = Some k \<Longrightarrow> length k = 32"
  using length_decode_pairs [of t k] by (auto simp: decode_identity_def split: if_splits)

lemma dispatch_keeps [session_simps]:
  "se_in (snd (dispatch cd B ko request s)) = se_in s"
  "se_ids (snd (dispatch cd B ko request s)) = se_ids s"
  "se_seen (snd (dispatch cd B ko request s)) = se_seen s"
  "se_seq (snd (dispatch cd B ko request s)) = se_seq s"
  by (simp_all add: dispatch_def Let_def session_simps split: sum.split option.split prod.split)

lemma dispatch_identity:
  "se_identity (snd (dispatch cd B ko request s)) = se_identity s
    \<or> (\<exists>t k. decode_identity t = Some k \<and> se_identity (snd (dispatch cd B ko request s)) = Some k)"
  by (auto simp: dispatch_def Let_def session_simps split: sum.split option.split prod.split)

lemma handle_request_keeps [session_simps]:
  "se_in (snd (handle_request cd B ko request s)) = se_in s"
  "se_seen (snd (handle_request cd B ko request s)) = se_seen s"
  "se_seq (snd (handle_request cd B ko request s)) = se_seq s"
  by (simp_all add: handle_request_def Let_def session_simps)

lemma handle_request_identity:
  "se_identity (snd (handle_request cd B ko request s)) = se_identity s
    \<or> (\<exists>k. length k = 32 \<and> se_identity (snd (handle_request cd B ko request s)) = Some k)"
  using dispatch_identity [of cd B ko request "s\<lparr>se_ids := env_id request # se_ids s\<rparr>"] length_decode_identity
  by (auto simp: handle_request_def Let_def session_simps)

lemma handle_request_ids:
  "se_ids (snd (handle_request cd B ko request s)) = se_ids s
    \<or> se_ids (snd (handle_request cd B ko request s)) = env_id request # se_ids s
      \<and> valid_request_id (env_id request) \<and> env_id request \<notin> set (se_ids s)
      \<and> length (se_ids s) < MAX_REQUEST_IDS"
  by (auto simp: handle_request_def Let_def session_simps)

lemma session_ok_handle:
  assumes ok: "session_ok s"
  shows "session_ok (snd (handle_request cd B ko request s))"
proof -
  let ?s = "snd (handle_request cd B ko request s)"
  have room: "service_ok (se_room s)" using ok by (simp add: session_ok_def)
  have r: "service_ok (se_room ?s) \<and> (\<exists>es. svc_events (se_room ?s) = svc_events (se_room s) @ es)
    \<and> (lifecycle_state (se_room s) = Idle \<and> se_identity s = None \<longrightarrow> lifecycle_state (se_room ?s) = Idle)"
  proof (cases rule: handle_request_room [of cd B ko request s])
    case none
    with room show ?thesis by simp
  next
    case (op x)
    with room show ?thesis
      by (auto simp: service_ok_step service_step_events intro!: idle_stays_idle)
  qed
  moreover have "distinct (se_ids ?s) \<and> list_all valid_request_id (se_ids ?s) \<and> length (se_ids ?s) \<le> MAX_REQUEST_IDS"
    using handle_request_ids [of cd B ko request s] ok by (auto simp: session_ok_def)
  moreover have "(se_identity ?s = None \<longrightarrow> lifecycle_state (se_room ?s) = Idle) \<and> pred_option (\<lambda>k. length k = 32) (se_identity ?s)"
    using handle_request_identity [of cd B ko request s] r ok
    by (auto simp: session_ok_def split: option.splits)
  ultimately show ?thesis
    using ok by (auto simp: session_ok_def session_simps)
qed

lemma session_ok_in [simp]: "session_ok (s\<lparr>se_in := r\<rparr>) = session_ok s"
  by (simp add: session_ok_def)

lemma session_ok_poll:
  assumes "session_ok s" shows "session_ok (s\<lparr>se_room := poll_and_emit B ko (se_room s)\<rparr>)"
proof -
  have room: "service_ok (se_room s)" using assms by (simp add: session_ok_def)
  have "length (svc_events (se_room s)) \<le> length (svc_events (poll_and_emit B ko (se_room s)))"
    using poll_events_prefix [of B ko "se_room s"] by auto
  moreover have "lifecycle_state (se_room s) = Idle \<longrightarrow> lifecycle_state (poll_and_emit B ko (se_room s)) = Idle"
    using poll_lifecycle [OF room, of B ko] by auto
  ultimately show ?thesis
    using assms by (auto simp: session_ok_def service_ok_poll split: option.splits)
qed

lemma session_ok_event:
  assumes "session_ok s" "n \<le> length (svc_events (se_room s))"
  shows "session_ok (s\<lparr>se_seen := n\<rparr>)" "session_ok (s\<lparr>se_seen := n, se_seq := q\<rparr>)"
  using assms by (simp_all add: session_ok_def)

lemma session_ok_write_event: "session_ok (snd (write_event cd n e s)) = session_ok s"
  by (simp add: session_ok_def session_simps)

lemma session_ok_turn:
  assumes ok: "session_ok s"
  shows "session_ok (snd (session_turn cd B ko wk s))"
proof (cases wk)
  case WakeRequest
  show ?thesis
  proof (cases "read_frame (cd_from_slice cd) (se_in s)")
    case (Pair a r)
    with WakeRequest ok session_ok_handle [of "s\<lparr>se_in := r\<rparr>" cd B ko] show ?thesis
      by (cases a) (auto simp: session_turn_def split: frame_error.split)
  qed
next
  case (WakeTick n)
  with session_ok_poll [OF ok, of B ko] ok show ?thesis
    by (simp add: session_turn_def session_ok_def)
next
  case (WakeEvent n)
  with ok show ?thesis
    by (auto simp: session_turn_def Let_def snd_and_return session_ok_write_event
        intro!: session_ok_event)
qed

interpretation session: invariant_machine "\<lambda>wk s. snd (session_turn cd B ko wk s)" session_ok for cd B ko
  by unfold_locales (rule session_ok_turn)

lemma session_loop_prefix:
  "\<exists>k. snd (session_loop cd B ko wks s) = run_ops (\<lambda>wk s. snd (session_turn cd B ko wk s)) (take k wks) s"
proof (induction wks arbitrary: s)
  case (Cons wk wks)
  obtain a s' where t: "session_turn cd B ko wk s = (a, s')" by (rule prod.exhaust)
  obtain k where "snd (session_loop cd B ko wks s') = run_ops (\<lambda>wk s. snd (session_turn cd B ko wk s)) (take k wks) s'"
    using Cons.IH by blast
  then have "\<exists>k. snd (session_loop cd B ko wks s') = run_ops (\<lambda>wk s. snd (session_turn cd B ko wk s)) (take k (wk # wks)) s"
    by (intro exI [of _ "Suc k"]) (simp add: t)
  moreover have "\<exists>k. s' = run_ops (\<lambda>wk s. snd (session_turn cd B ko wk s)) (take k (wk # wks)) s"
    by (intro exI [of _ 1]) (simp add: t)
  ultimately show ?case
    by (cases a) (auto simp: t split: option.split)
qed simp

lemma session_ok_loop: "session_ok s \<Longrightarrow> session_ok (snd (session_loop cd B ko wks s))"
  using session_loop_prefix [of cd B ko wks s] session.inv_run by metis

section \<open>The handshake\<close>

lemma handshake_accepts:
  assumes "handshake cd version secret timed_out s = (Ok None, s')"
  obtains first hello r where "\<not> timed_out" "read_frame (cd_from_slice cd) (se_in s) = (Ok first, r)"
    "valid_request_id (env_id first)" "env_protocol first = PROTOCOL_VERSION" "env_type first = ''hello''"
    "cd_hello cd (env_payload first) = Ok hello" "as_bytes (auth_token hello) = secret"
    "client hello = ''pcln''" "trim (client_version hello) \<noteq> []"
    "se_in s' = r" "se_room s' = se_room s" "se_ids s' = [env_id first]" "se_identity s' = None"
    "se_seen s' = length (svc_events (se_room s))" "se_seq s' = 0"
proof -
  from assms obtain first r where t: "\<not> timed_out" and f: "read_frame (cd_from_slice cd) (se_in s) = (Ok first, r)"
    by (auto simp: handshake_def split: if_splits prod.splits sum.splits)
  let ?bad = "\<not> valid_request_id (env_id first) \<or> env_protocol first \<noteq> PROTOCOL_VERSION \<or> env_type first \<noteq> ''hello''"
  have ret: "and_return (Some PeerDisconnected) x \<noteq> (Ok None, s')" for x
    by (auto simp: and_return_def split: prod.splits sum.splits)
  have good: "\<not> ?bad"
  proof
    assume ?bad
    with assms t f ret show False by (simp add: handshake_def Let_def)
  qed
  obtain hello where h: "cd_hello cd (env_payload first) = Ok hello"
    using assms t f good ret by (cases "cd_hello cd (env_payload first)") (simp_all add: handshake_def Let_def)
  have auth: "as_bytes (auth_token hello) = secret \<and> client hello = ''pcln'' \<and> trim (client_version hello) \<noteq> []"
  proof (rule ccontr)
    assume "\<not> ?thesis"
    with assms t f good h ret show False by (auto simp: handshake_def Let_def)
  qed
  let ?w = "write_response cd (env_id first) ''hello.accepted''
      (PayHelloAccepted \<lparr>helper_version = version, capabilities = CAPABILITIES\<rparr>) (s\<lparr>se_in := r\<rparr>)"
  have "and_return None (case ?w of (Err e, s2) \<Rightarrow> (Err e, s2)
      | (Ok _, s2) \<Rightarrow> (Ok (), s2\<lparr>se_ids := [env_id first], se_identity := None,
           se_seen := length (svc_events (se_room s2)), se_seq := 0\<rparr>)) = (Ok (None :: session_outcome option), s')"
    using assms t f good h auth by (simp add: handshake_def Let_def)
  then have "s' = (snd ?w)\<lparr>se_ids := [env_id first], se_identity := None,
      se_seen := length (svc_events (se_room (snd ?w))), se_seq := 0\<rparr>"
    by (auto simp: and_return_def split: prod.splits sum.splits)
  with t f good h auth show ?thesis by (intro that [of first r hello]) (simp_all add: session_simps)
qed

lemma session_ok_handshake:
  assumes "handshake cd version secret timed_out s = (Ok None, s')" "service_ok (se_room s)"
    "lifecycle_state (se_room s) = Idle"
  shows "session_ok s'"
  by (rule handshake_accepts [OF assms(1)])
    (use assms(2,3) in \<open>simp add: session_ok_def MAX_REQUEST_IDS_def\<close>)

lemma handshake_room: "se_room (snd (handshake cd version secret timed_out s)) = se_room s"
  by (auto simp: handshake_def Let_def session_simps split: prod.split sum.split
      dest: arg_cong [of _ _ "\<lambda>p. se_room (snd p)"])

section \<open>Private keys\<close>

lemma HEX_cases: "n < 16 \<Longrightarrow> code (HEX ! n) = (if n < 10 then 48 + n else 87 + n)"
proof -
  assume "n < 16"
  then have "n \<in> set [0..<16]" by simp
  then show ?thesis by (auto simp: HEX_def upt_rec)
qed

lemma to_digit_HEX: "n < 16 \<Longrightarrow> to_digit 16 (HEX ! n) = Some n"
  by (auto simp: to_digit_def is_ascii_digit_def is_ascii_lower_def HEX_cases)

lemma u8_from_hex_pair:
  assumes "a < 16" "b < 16"
  shows "u8_from_hex [HEX ! a, HEX ! b] = Some (word_of_nat (16 * a + b))"
proof -
  have "HEX ! a \<noteq> CHR ''+''" using HEX_cases [OF assms(1)] by (auto simp: char_eq_code split: if_splits)
  with assms show ?thesis by (simp add: u8_from_hex_def to_digit_HEX digits_value_def)
qed

lemma decode_pairs_hex: "decode_pairs (hex_encode bs) = Some bs"
proof (induction bs)
  case Nil
  show ?case by (simp add: hex_encode_def)
next
  case (Cons b bs)
  let ?a = "unat (drop_bit 4 b)" and ?b = "unat (b AND 15)"
  have "from_utf8 (as_bytes [HEX ! ?a, HEX ! ?b]) = Some [HEX ! ?a, HEX ! ?b]"
    using nibbles_less [of b] by (intro from_utf8_ascii_string) (simp add: HEX_cases)
  moreover have "(word_of_nat (16 * ?a + ?b) :: u8) = b"
    by (simp add: unat_high_nibble unat_low_nibble)
  ultimately show ?case
    using Cons u8_from_hex_pair [OF nibbles_less, of b b] by (simp only: hex_encode_Cons decode_pairs.simps) simp
qed

section \<open>Forwarded events\<close>

text \<open>The events a sequence of turns writes, with their sequence numbers.\<close>

definition turn_delivers :: "wake \<Rightarrow> 'b session \<Rightarrow> (u64 \<times> room_event) list" where
  "turn_delivers wk s = (case wk of
      WakeEvent n \<Rightarrow>
        (let published = svc_events (se_room s); total = length published in
         if \<not> read_pending n (se_in s) \<or> total \<le> se_seen s \<or> EVENT_CAPACITY < total - se_seen s then []
         else [(se_seq s + 1, published ! se_seen s)])
    | _ \<Rightarrow> [])"

fun delivered ::
    "'v codec \<Rightarrow> 'b room_backend \<Rightarrow> (string list \<Rightarrow> string list) \<Rightarrow> wake list \<Rightarrow> 'b session
      \<Rightarrow> (u64 \<times> room_event) list" where
  "delivered cd B ko [] s = []"
| "delivered cd B ko (wk # wks) s = turn_delivers wk s @
    (case session_turn cd B ko wk s of (Ok None, s') \<Rightarrow> delivered cd B ko wks s' | _ \<Rightarrow> [])"

lemma handle_request_events:
  "session_ok s \<Longrightarrow> \<exists>es. svc_events (se_room (snd (handle_request cd B ko request s))) = svc_events (se_room s) @ es"
  by (cases rule: handle_request_room [of cd B ko request s])
    (auto simp: session_ok_def service_step_events)

text \<open>What a turn does to the receiver and to the published events.\<close>

lemma turn_receiver:
  assumes "session_ok s" "session_turn cd B ko wk s = (a, s')"
  shows "\<exists>es. svc_events (se_room s') = svc_events (se_room s) @ es"
    and "se_seq s' = se_seq s + of_nat (length (turn_delivers wk s))"
    and "\<exists>k. map snd (turn_delivers wk s) = take (length (turn_delivers wk s)) (drop (se_seen s) (svc_events (se_room s)))
      \<and> se_seen s' = se_seen s + length (turn_delivers wk s) + k"
proof -
  have s': "s' = snd (session_turn cd B ko wk s)" by (simp add: assms(2))
  show "\<exists>es. svc_events (se_room s') = svc_events (se_room s) @ es"
  proof (cases wk)
    case WakeRequest
    obtain x r where "read_frame (cd_from_slice cd) (se_in s) = (x, r)" by (rule prod.exhaust)
    with handle_request_events [of "s\<lparr>se_in := r\<rparr>" cd B ko] WakeRequest assms(1) show ?thesis
      unfolding s' by (cases x) (auto simp: session_turn_def split: frame_error.split)
  qed (use poll_events_prefix [of B ko "se_room s"] in
      \<open>auto simp: s' session_turn_def Let_def session_simps\<close>)
  show "se_seq s' = se_seq s + of_nat (length (turn_delivers wk s))"
    unfolding s'
    by (auto simp: session_turn_def turn_delivers_def Let_def session_simps
        split: wake.split prod.split sum.split frame_error.split)
  show "\<exists>k. map snd (turn_delivers wk s) = take (length (turn_delivers wk s)) (drop (se_seen s) (svc_events (se_room s)))
      \<and> se_seen s' = se_seen s + length (turn_delivers wk s) + k"
  proof (cases wk)
    case (WakeEvent n)
    let ?ev = "svc_events (se_room s)"
    have "take 1 (drop (se_seen s) ?ev) = [?ev ! se_seen s]" if "se_seen s < length ?ev"
      using that by (simp add: take_Suc_conv_app_nth [of 0, simplified] Cons_nth_drop_Suc [symmetric])
    with WakeEvent show ?thesis
      by (auto simp: s' session_turn_def turn_delivers_def Let_def session_simps
          intro: exI [of _ "length ?ev - EVENT_CAPACITY - se_seen s"])
  next
    case WakeRequest
    obtain x r where "read_frame (cd_from_slice cd) (se_in s) = (x, r)" by (rule prod.exhaust)
    then show ?thesis
      by (cases x) (auto simp: WakeRequest s' session_turn_def turn_delivers_def session_simps split: frame_error.split)
  next
    case (WakeTick n)
    then show ?thesis by (simp add: s' session_turn_def turn_delivers_def)
  qed
qed

lemma session_loop_events:
  assumes "session_ok s"
  shows "\<exists>es. svc_events (se_room (snd (session_loop cd B ko wks s))) = svc_events (se_room s) @ es"
  using assms
proof (induction wks arbitrary: s)
  case (Cons wk wks)
  obtain a s' where t: "session_turn cd B ko wk s = (a, s')" by (rule prod.exhaust)
  have "session_ok s'" using session_ok_turn [OF Cons.prems, of cd B ko wk] by (simp add: t)
  with Cons.IH [of s'] turn_receiver(1) [OF Cons.prems t] show ?case
    by (cases a) (auto simp: t split: option.split)
qed simp

fun consecutive :: "u64 \<Rightarrow> u64 list \<Rightarrow> bool" where
  "consecutive q [] = True"
| "consecutive q (n # ns) \<longleftrightarrow> n = q + 1 \<and> consecutive n ns"

lemma consecutive_append:
  "consecutive q xs \<Longrightarrow> consecutive (q + of_nat (length xs)) ys \<Longrightarrow> consecutive q (xs @ ys)"
  by (induction xs arbitrary: q) (simp_all add: add.assoc)

lemma subseq_front:
  assumes "d = take (length d) (drop n xs)" "subseq ys (drop (n + length d + k) (xs @ es))"
  shows "subseq (d @ ys) (drop n (xs @ es))"
proof -
  have "length d \<le> length (drop n xs)" using assms(1) by (metis length_take min.cobounded1)
  then have "take (length d) (drop n (xs @ es)) = d" using assms(1) by (simp add: min_def)
  then have "drop n (xs @ es) = d @ drop (n + length d) (xs @ es)"
    by (metis append_take_drop_id drop_drop add.commute)
  moreover have "subseq ys (drop (n + length d) (xs @ es))"
  proof (rule subseq_order.trans [OF assms(2)])
    have "drop (n + length d + k) (xs @ es) = drop k (drop (n + length d) (xs @ es))"
      by (metis drop_drop add.commute)
    then show "subseq (drop (n + length d + k) (xs @ es)) (drop (n + length d) (xs @ es))"
      using suffix_imp_subseq [OF suffix_drop] by metis
  qed
  ultimately show ?thesis by (simp add: subseq_append')
qed

lemma delivered_in_order:
  assumes "session_ok s"
  shows "consecutive (se_seq s) (map fst (delivered cd B ko wks s))
    \<and> subseq (map snd (delivered cd B ko wks s))
         (drop (se_seen s) (svc_events (se_room (snd (session_loop cd B ko wks s)))))"
  using assms
proof (induction wks arbitrary: s)
  case (Cons wk wks)
  obtain a s' where t: "session_turn cd B ko wk s = (a, s')" by (rule prod.exhaust)
  let ?d = "turn_delivers wk s"
  have ok': "session_ok s'" using session_ok_turn [OF Cons.prems, of cd B ko wk] by (simp add: t)
  obtain es k where rec: "svc_events (se_room s') = svc_events (se_room s) @ es"
    "map snd ?d = take (length (map snd ?d)) (drop (se_seen s) (svc_events (se_room s)))"
    "se_seen s' = se_seen s + length (map snd ?d) + k"
    using turn_receiver(1,3) [OF Cons.prems t] unfolding length_map by blast
  note seq = turn_receiver(2) [OF Cons.prems t]
  have one: "consecutive (se_seq s) (map fst ?d)"
    by (simp add: turn_delivers_def Let_def split: wake.split)
  show ?case
  proof (cases "a = Ok None")
    case True
    let ?F = "snd (session_loop cd B ko wks s')"
    obtain fs where F: "svc_events (se_room ?F) = svc_events (se_room s) @ es @ fs"
      using session_loop_events [OF ok', of cd B ko wks] rec(1) by auto
    note IH = Cons.IH [OF ok']
    from IH have "subseq (map snd (delivered cd B ko wks s'))
        (drop (se_seen s + length (map snd ?d) + k) (svc_events (se_room s) @ es @ fs))"
      by (simp only: F rec(3))
    from subseq_front [OF rec(2) this]
    have sub: "subseq (map snd ?d @ map snd (delivered cd B ko wks s')) (drop (se_seen s) (svc_events (se_room ?F)))"
      by (simp only: F)
    have "consecutive (se_seq s) (map fst ?d @ map fst (delivered cd B ko wks s'))"
      by (rule consecutive_append [OF one]) (use IH in \<open>simp only: seq length_map\<close>)
    with sub show ?thesis using True by (simp add: t)
  next
    case False
    have "subseq (map snd ?d @ []) (drop (se_seen s) (svc_events (se_room s) @ es))"
      by (rule subseq_front [OF rec(2), of _ 0]) simp
    moreover have "delivered cd B ko (wk # wks) s = ?d" "snd (session_loop cd B ko (wk # wks) s) = s'"
      using False by (auto simp: t split: sum.split option.split)
    ultimately show ?thesis using one by (simp only: rec(1) append_Nil2)
  qed
qed simp

section \<open>Properties\<close>

text \<open>
  A codec, a backend and a session for the witnesses: the body of a request is its identifier, and
  its first character is its kind.
\<close>

definition sample_codec :: "string codec" where
  "sample_codec = \<lparr>cd_to_value = (\<lambda>_. Ok []), cd_to_vec = (\<lambda>_. Ok [1]),
     cd_from_slice = (\<lambda>bs. Ok \<lparr>env_protocol = PROTOCOL_VERSION, env_id = string_of_bytes bs,
        env_type = (if take 1 (string_of_bytes bs) = ''h'' then ''hello''
                    else if take 1 (string_of_bytes bs) = ''i'' then ''identity.initialize'' else ''room.create''),
        env_payload = []\<rparr>),
     cd_zeroize = (\<lambda>_. []),
     cd_hello = (\<lambda>_. Ok \<lparr>auth_token = ''k'', client = ''pcln'', client_version = ''1''\<rparr>),
     cd_identity = (\<lambda>_. Ok (hex_encode (replicate 32 7))),
     cd_create = (\<lambda>_. Ok sample_create), cd_join = (\<lambda>_. Ok sample_join),
     cd_set_lan = (\<lambda>_. Err (JsonError []))\<rparr>"

definition key_backend :: "bytes list room_backend" where
  "key_backend = \<lparr>be_set_identity = (\<lambda>k b. k # b), be_create = (\<lambda>_ b. (Ok sample_room, b)),
     be_join = (\<lambda>_ b. (Ok sample_room, b)), be_set_lan_address = (\<lambda>_ b. (Ok (), b)),
     be_diagnose = (\<lambda>b. (Ok (sample_net True), b)), be_leave = (\<lambda>b. (Ok (), b)),
     be_refresh = (\<lambda>b. (Ok sample_refresh, b))\<rparr>"

definition sample_session :: "bytes \<Rightarrow> bytes list session" where
  "sample_session input = \<lparr>se_in = \<lparr>rx = input, rx_end = None\<rparr>,
     se_out = \<lparr>tx = [], tx_quota = None, tx_error = IoError NotConnected [], tx_flush = None\<rparr>,
     se_room = new_room_service [], se_ids = [], se_identity = None, se_seen = 0, se_seq = 0\<rparr>"

abbreviation room_request_frame :: "string \<Rightarrow> bytes" where
  "room_request_frame rid \<equiv> frame_bytes (as_bytes rid)"

lemma sample_codec_total: "codec_total sample_codec"
  by (auto simp: codec_total_def sample_codec_def body_ok_def MAX_FRAME_SIZE_def)

lemma sample_codec_simps:
  "cd_hello sample_codec v = Ok \<lparr>auth_token = ''k'', client = ''pcln'', client_version = ''1''\<rparr>"
  "cd_identity sample_codec v = Ok (hex_encode (replicate 32 7))"
  "cd_create sample_codec v = Ok sample_create"
  by (simp_all add: sample_codec_def)

lemma sample_read:
  assumes "rx r = room_request_frame rid @ rest" "body_ok (as_bytes rid)"
  shows "read_frame (cd_from_slice sample_codec) r = (Ok \<lparr>env_protocol = PROTOCOL_VERSION, env_id = rid,
     env_type = (if take 1 rid = ''h'' then ''hello'' else if take 1 rid = ''i'' then ''identity.initialize''
       else ''room.create''), env_payload = []\<rparr>, r\<lparr>rx := rest\<rparr>)"
  using read_body_frame_bytes [OF assms(2,1)] by (simp add: read_frame_def sample_codec_def)

lemma sample_write:
  assumes "open_writer (se_out s)"
  shows "write_response sample_codec rid ty p s
    = (Ok (), s\<lparr>se_out := (se_out s)\<lparr>tx := tx (se_out s) @ frame_bytes [1]\<rparr>\<rparr>)"
  using write_frame_open [OF assms, of "cd_to_vec sample_codec" _ "[1]" "cd_zeroize sample_codec"]
  by (simp add: write_response_def envelope_response_def sample_codec_def body_ok_def MAX_FRAME_SIZE_def)

lemma sample_body_ok: "body_ok (as_bytes ''h1'')" "body_ok (as_bytes ''i2'')" "body_ok (as_bytes ''c3'')"
  by (simp_all add: body_ok_def as_bytes_def MAX_FRAME_SIZE_def)

lemma sample_session_open: "open_writer (se_out (sample_session x))"
  by (simp add: sample_session_def open_writer_def)

definition greeted :: "bytes \<Rightarrow> bytes list session" where
  "greeted rest = (sample_session rest)\<lparr>se_ids := [''h1''],
     se_out := (se_out (sample_session rest))\<lparr>tx := frame_bytes [1]\<rparr>\<rparr>"

lemma sample_handshake:
  "handshake sample_codec ''0.1'' (as_bytes ''k'') False (sample_session (room_request_frame ''h1'' @ rest))
    = (Ok None, greeted rest)"
proof -
  let ?s = "sample_session (room_request_frame ''h1'' @ rest)"
  have "read_frame (cd_from_slice sample_codec) (se_in ?s) = (Ok \<lparr>env_protocol = PROTOCOL_VERSION,
      env_id = ''h1'', env_type = ''hello'', env_payload = []\<rparr>, (se_in ?s)\<lparr>rx := rest\<rparr>)"
    by (subst sample_read [of _ "''h1''" rest]) (simp_all add: sample_session_def sample_body_ok)
  moreover have "open_writer (se_out (?s\<lparr>se_in := r\<rparr>))" for r
    using sample_session_open by simp
  ultimately show ?thesis
    by (simp add: handshake_def sample_write sample_codec_simps valid_request_id_def str_eval and_return_def Let_def)
      (simp add: greeted_def sample_session_def new_room_service_def)
qed

text \<open>C1: Whatever arrives on the stream and however requests, timer and events interleave, once the
  handshake is accepted the request identifiers of the session are valid, never repeated and at most
  4096, and while no identity was initialised the room stays idle: no room can be created or joined
  before. A session whose handshake is not accepted never touches the room.\<close>

theorem session_safe:
  assumes "se_room s = new_room_service b"
  shows "case session_run cd B ko version secret timed_out wks s of (r, s') \<Rightarrow>
    if fst (handshake cd version secret timed_out s) = Ok None
    then distinct (se_ids s') \<and> list_all valid_request_id (se_ids s') \<and> length (se_ids s') \<le> 4096
      \<and> (se_identity s' = None \<longrightarrow> room_st (svc_state (se_room s')) = Idle) \<and> service_ok (se_room s')
    else se_room s' = new_room_service b \<and> r \<noteq> None"
proof -
  obtain a s1 where h: "handshake cd version secret timed_out s = (a, s1)" by (rule prod.exhaust)
  have room: "se_room s1 = new_room_service b"
    using handshake_room [of cd version secret timed_out s] by (simp add: h assms)
  show ?thesis
  proof (cases "a = Ok None")
    case True
    have "session_ok s1"
      by (rule session_ok_handshake [OF h [unfolded True]])
        (simp_all add: assms service_ok_new, simp add: new_room_service_def idle_snapshot_def)
    then have "session_ok (snd (session_loop cd B ko wks s1))" by (rule session_ok_loop)
    with h True show ?thesis
      by (simp add: session_run_def session_ok_def MAX_REQUEST_IDS_def case_prod_beta)
  next
    case False
    then show ?thesis by (cases a) (auto simp: session_run_def h room split: option.split)
  qed
qed

theorem session_safe_witness:
  "case session_run sample_codec key_backend (\<lambda>k. k) ''0.1'' (as_bytes ''k'') False
      [WakeRequest, WakeTick 0, WakeRequest] (sample_session (room_request_frame ''h1'' @ room_request_frame ''c3'')) of (r, s') \<Rightarrow>
    distinct (se_ids s') \<and> (se_identity s' = None \<longrightarrow> room_st (svc_state (se_room s')) = Idle)"
  using session_safe [where s = "sample_session (room_request_frame ''h1'' @ room_request_frame ''c3'')" and b = "[]"
      and cd = sample_codec and B = key_backend and ko = "\<lambda>k. k" and version = "''0.1''"
      and secret = "as_bytes ''k''" and timed_out = False and wks = "[WakeRequest, WakeTick 0, WakeRequest]"]
    sample_handshake [of "room_request_frame ''c3''"]
  by (simp add: sample_session_def case_prod_beta)

text \<open>C3: Only a client that knows the secret reaches the room: if a session changes the room at
  all, its first message was a hello for the supported protocol whose token is the secret, from the
  launcher and with a version.\<close>

theorem room_needs_secret:
  assumes "se_room (snd (session_run cd B ko version secret timed_out wks s)) \<noteq> se_room s"
  shows "\<exists>first hello r. read_frame (cd_from_slice cd) (se_in s) = (Ok first, r)
    \<and> env_protocol first = PROTOCOL_VERSION \<and> env_type first = ''hello''
    \<and> cd_hello cd (env_payload first) = Ok hello \<and> as_bytes (auth_token hello) = secret
    \<and> client hello = ''pcln'' \<and> trim (client_version hello) \<noteq> []"
proof -
  obtain a s1 where h: "handshake cd version secret timed_out s = (a, s1)" by (rule prod.exhaust)
  have room: "se_room s1 = se_room s"
    using handshake_room [of cd version secret timed_out s] by (simp add: h)
  have "a = Ok None"
    using assms by (cases a) (auto simp: session_run_def h room split: option.splits)
  with h have "handshake cd version secret timed_out s = (Ok None, s1)" by simp
  then show ?thesis by (rule handshake_accepts) blast
qed

lemma sample_identity_turn:
  "se_room (snd (session_turn sample_codec key_backend ko WakeRequest (greeted (room_request_frame ''i2''))))
    = (new_room_service [])\<lparr>svc_backend := [replicate 32 7]\<rparr>"
proof -
  let ?s = "greeted (room_request_frame ''i2'')"
  have "read_frame (cd_from_slice sample_codec) (se_in ?s) = (Ok \<lparr>env_protocol = PROTOCOL_VERSION,
      env_id = ''i2'', env_type = ''identity.initialize'', env_payload = []\<rparr>, (se_in ?s)\<lparr>rx := []\<rparr>)"
    by (subst sample_read [of _ "''i2''" "[]"]) (simp_all add: greeted_def sample_session_def sample_body_ok)
  then show ?thesis
    by (simp add: session_turn_def handle_request_def dispatch_def session_simps Let_def sample_codec_simps
        valid_request_id_def MAX_REQUEST_IDS_def decode_identity_def decode_pairs_hex)
      (simp add: greeted_def sample_session_def session_simps initialize_identity_def key_backend_def
        new_room_service_def)
qed

theorem room_needs_secret_witness:
  "\<exists>hello. cd_hello sample_codec [] = Ok hello \<and> as_bytes (auth_token hello) = as_bytes ''k''"
proof -
  let ?s = "sample_session (room_request_frame ''h1'' @ room_request_frame ''i2'')"
  have "se_room (snd (session_run sample_codec key_backend (\<lambda>k. k) ''0.1'' (as_bytes ''k'') False [WakeRequest] ?s))
      = (new_room_service [])\<lparr>svc_backend := [replicate 32 7]\<rparr>"
    using sample_identity_turn [of "\<lambda>k. k"]
    by (cases "session_turn sample_codec key_backend (\<lambda>k. k) WakeRequest (greeted (room_request_frame ''i2''))")
      (auto simp: session_run_def sample_handshake split: sum.split option.split)
  then have "se_room (snd (session_run sample_codec key_backend (\<lambda>k. k) ''0.1'' (as_bytes ''k'') False [WakeRequest] ?s))
      \<noteq> se_room ?s"
    by (simp add: sample_session_def new_room_service_def)
  from room_needs_secret [OF this] show ?thesis by (auto simp: sample_codec_def)
qed

text \<open>C23: A failed guess reveals nothing: for two secrets that both differ from the token the client
  presented, the whole session, its output included, is the same.\<close>

theorem wrong_token_hides_secret:
  assumes "\<And>first r hello. read_frame (cd_from_slice cd) (se_in s) = (Ok first, r)
      \<Longrightarrow> cd_hello cd (env_payload first) = Ok hello
      \<Longrightarrow> as_bytes (auth_token hello) \<noteq> secret \<and> as_bytes (auth_token hello) \<noteq> secret'"
  shows "session_run cd B ko version secret timed_out wks s = session_run cd B ko version secret' timed_out wks s"
proof -
  have "handshake cd version secret timed_out s = handshake cd version secret' timed_out s"
    using assms by (auto simp: handshake_def Let_def split: prod.split sum.split)
  then show ?thesis by (simp add: session_run_def)
qed

theorem wrong_token_hides_secret_witness:
  "session_run sample_codec key_backend (\<lambda>k. k) ''0.1'' (as_bytes ''a'') False [WakeRequest] (sample_session (room_request_frame ''h1''))
    = session_run sample_codec key_backend (\<lambda>k. k) ''0.1'' (as_bytes ''b'') False [WakeRequest] (sample_session (room_request_frame ''h1''))"
  by (rule wrong_token_hides_secret) (auto simp: sample_codec_def)



lemma turn_room:
  "\<exists>ops. se_room (snd (session_turn cd B ko wk s)) = run_ops (service_step B ko) ops (se_room s)"
proof (cases wk)
  case WakeRequest
  obtain x r where f: "read_frame (cd_from_slice cd) (se_in s) = (x, r)" by (rule prod.exhaust)
  show ?thesis
  proof (cases x)
    case (Inl e)
    then show ?thesis
      by (intro exI [of _ "[]"]) (auto simp: WakeRequest f session_turn_def split: frame_error.split)
  next
    case (Inr request)
    then have "session_turn cd B ko wk s = handle_request cd B ko request (s\<lparr>se_in := r\<rparr>)"
      by (simp add: WakeRequest f session_turn_def)
    then show ?thesis
      by (cases rule: handle_request_room [of cd B ko request "s\<lparr>se_in := r\<rparr>"])
        (auto intro: exI [of _ "[]"] exI [of _ "[x]" for x])
  qed
next
  case (WakeTick n)
  then show ?thesis
    by (cases "read_pending n (se_in s)")
      (auto simp: session_turn_def intro: exI [of _ "[]"] exI [of _ "[OpPoll]"])
next
  case (WakeEvent n)
  then show ?thesis
    by (intro exI [of _ "[]"]) (simp add: session_turn_def Let_def session_simps)
qed

lemma loop_room:
  "\<exists>ops. se_room (snd (session_loop cd B ko wks s)) = run_ops (service_step B ko) ops (se_room s)"
proof (induction wks arbitrary: s)
  case Nil
  show ?case by (intro exI [of _ "[]"]) simp
next
  case (Cons wk wks)
  obtain a s' where t: "session_turn cd B ko wk s = (a, s')" by (rule prod.exhaust)
  obtain ops where ops: "se_room s' = run_ops (service_step B ko) ops (se_room s)"
    using turn_room [of cd B ko wk s] by (auto simp: t)
  obtain ops' where "se_room (snd (session_loop cd B ko wks s')) = run_ops (service_step B ko) ops' (se_room s')"
    using Cons.IH by blast
  with ops have "se_room (snd (session_loop cd B ko wks s')) = run_ops (service_step B ko) (ops @ ops') (se_room s)"
    by (simp add: run_ops_append)
  with ops show ?case by (cases a) (auto simp: t split: option.split)
qed

lemma session_run_room:
  "\<exists>ops. se_room (snd (session_run cd B ko version secret timed_out wks s))
     = run_ops (service_step B ko) ops (se_room s)"
proof -
  obtain a s1 where h: "handshake cd version secret timed_out s = (a, s1)" by (rule prod.exhaust)
  have room: "se_room s1 = se_room s"
    using handshake_room [of cd version secret timed_out s] by (simp add: h)
  have nil: "\<exists>ops. se_room s = run_ops (service_step B ko) ops (se_room s)" by (rule exI [of _ "[]"]) simp
  show ?thesis
    using loop_room [of cd B ko wks s1] nil by (cases a) (auto simp: session_run_def h room split: option.split)
qed

text \<open>The session adds nothing to the room service: for every sequence of wake-ups the room
  is in a state that a sequence of its own operations leads to, so what holds of every reachable
  state of the service holds behind every session.\<close>

theorem session_refines_service:
  "\<exists>ops. se_room (snd (session_run cd B ko version secret timed_out wks s))
     = run_ops (service_step B ko) ops (se_room s)"
  by (rule session_run_room)



text \<open>The turn that forwards an event writes exactly one frame: an envelope whose identifier is
  the next sequence number, whose type is the event's and whose payload is its serialisation; the
  event is the oldest one the receiver has not seen.\<close>

theorem event_turn_writes:
  assumes "codec_total cd" "open_writer (se_out s)" "read_pending n (se_in s)"
    and "se_seen s < length (svc_events (se_room s))"
    and "length (svc_events (se_room s)) \<le> se_seen s + EVENT_CAPACITY"
  shows "\<exists>s' v body. session_turn cd B ko (WakeEvent n) s = (Ok None, s')
    \<and> se_seen s' = Suc (se_seen s) \<and> se_seq s' = se_seq s + 1
    \<and> cd_to_value cd (event_payload (svc_events (se_room s) ! se_seen s)) = Ok v
    \<and> cd_to_vec cd \<lparr>env_protocol = PROTOCOL_VERSION, env_id = ''evt-'' @ dec (unat (se_seq s + 1)),
         env_type = message_type (svc_events (se_room s) ! se_seen s), env_payload = v\<rparr> = Ok body
    \<and> tx (se_out s') = tx (se_out s) @ frame_bytes body"
proof -
  let ?e = "svc_events (se_room s) ! se_seen s"
  obtain v where v: "cd_to_value cd (event_payload ?e) = Ok v"
    using assms(1) by (auto simp: codec_total_def is_ok_iff)
  let ?env = "\<lparr>env_protocol = PROTOCOL_VERSION, env_id = event_id (se_seq s + 1),
      env_type = message_type ?e, env_payload = v\<rparr>"
  obtain body where b: "cd_to_vec cd ?env = Ok body" "body_ok body"
    using assms(1) unfolding codec_total_def by blast
  have "write_frame (cd_to_vec cd) (cd_zeroize cd) ?env (se_out s)
      = (Ok (), (se_out s)\<lparr>tx := tx (se_out s) @ frame_bytes body\<rparr>)"
    by (rule write_frame_open [OF assms(2)]) (use b in simp_all)
  moreover have "\<not> EVENT_CAPACITY < length (svc_events (se_room s)) - se_seen s"
    using assms(5) by simp
  ultimately show ?thesis
    using v b assms(3,4)
    by (simp add: session_turn_def Let_def write_event_def and_return_def event_id_def)
qed

theorem event_turn_writes_witness:
  "\<exists>s'. session_turn sample_codec key_backend (\<lambda>k. k) (WakeEvent 0)
      ((sample_session [])\<lparr>se_room := publish (PeerLeft ''a'') (new_room_service [])\<rparr>) = (Ok None, s')
    \<and> se_seq s' = 1"
proof -
  let ?s = "(sample_session [])\<lparr>se_room := publish (PeerLeft ''a'') (new_room_service [])\<rparr>"
  have "open_writer (se_out ?s)" using sample_session_open [of "[]"] by simp
  from event_turn_writes [OF sample_codec_total this, of 0 key_backend "\<lambda>k. k"] show ?thesis
    by (auto simp: sample_session_def new_room_service_def EVENT_CAPACITY_def read_pending_def)
qed


lemma short_length: "n < 256 \<Longrightarrow> nat_to_le 4 n = [word_of_nat n, 0, 0, 0]"
proof -
  assume n: "n < 256"
  have four: "(4 :: nat) = Suc (Suc (Suc (Suc 0)))" by simp
  show ?thesis unfolding four using n by simp
qed

lemma shifted_header:
  assumes "body_ok body" "length body < 256"
  shows "\<exists>len. read_body (cancel_read 1 \<lparr>rx = frame_bytes body @ rest, rx_end = e\<rparr>)
    = (Err (InvalidLength len), \<lparr>rx = tl body @ rest, rx_end = e\<rparr>)"
proof -
  obtain b bs where body: "body = b # bs" using assms(1) by (cases body) (auto simp: body_ok_def)
  have "frame_bytes body = [word_of_nat (length body), 0, 0, 0] @ body"
    using short_length [OF assms(2)] unat_body_length [OF assms(1)]
    by (simp add: frame_bytes_def u32_to_le_bytes_def)
  then have rx: "cancel_read 1 \<lparr>rx = frame_bytes body @ rest, rx_end = e\<rparr> = \<lparr>rx = 0 # 0 # 0 # b # bs @ rest, rx_end = e\<rparr>"
    by (simp add: cancel_read_def body)
  let ?len = "u32_from_le_bytes [0, 0, 0, b]"
  have "unat ?len = unat b * 16777216"
  proof -
    have "nat_of_le [0, 0, 0, b] = unat b * 16777216" by simp
    then show ?thesis
      using u8_bound [of b] unat_u32_of_nat [of "unat b * 16777216"]
      by (simp only: u32_from_le_bytes_def) simp
  qed
  then have "?len = 0 \<or> MAX_FRAME_SIZE < unat ?len"
    by (cases "unat b") (auto simp: MAX_FRAME_SIZE_def unat_eq_zero)
  then show ?thesis
    unfolding rx by (auto simp: read_body_def read_one_def read_exact_def Let_def body)
qed

text \<open>C40: A dropped read loses its bytes. If the poll timer fires after the first byte of a request
  of less than 256 bytes has been taken from the stream, that byte is lost, the rest is read as
  another frame, and the session ends with an invalid length although the client sent a well-formed
  request.\<close>

theorem cancelled_read_desynchronises:
  assumes "body_ok body" "length body < 256" "rx (se_in s) = frame_bytes body @ rest"
  shows "\<exists>len s'. session_loop cd B ko [WakeTick 1, WakeRequest] s = (Some (Err (InvalidLength len)), s')"
proof -
  obtain e where i: "se_in s = \<lparr>rx = frame_bytes body @ rest, rx_end = e\<rparr>"
    using assms(3) by (cases "se_in s") simp
  have "read_pending 1 (se_in s)" by (simp add: i read_pending_def)
  moreover obtain len where "read_body (cancel_read 1 (se_in s)) = (Err (InvalidLength len), \<lparr>rx = tl body @ rest, rx_end = e\<rparr>)"
    using shifted_header [OF assms(1,2), of rest e] by (auto simp: i)
  ultimately show ?thesis by (simp add: session_turn_def read_frame_def)
qed

theorem cancelled_read_desynchronises_witness:
  "\<exists>len s'. session_loop sample_codec key_backend (\<lambda>k. k) [WakeTick 1, WakeRequest] (greeted (room_request_frame ''i2''))
     = (Some (Err (InvalidLength len)), s')"
  by (rule cancelled_read_desynchronises [of "as_bytes ''i2''" _ "[]"])
    (simp_all add: sample_body_ok greeted_def sample_session_def)

text \<open>A private key sent as hexadecimal digits is decoded to itself.\<close>

theorem identity_round_trip:
  assumes "length k = 32"
  shows "decode_identity (hex_encode k) = Some k"
  using assms by (simp add: decode_identity_def decode_pairs_hex)

theorem identity_round_trip_witness:
  "decode_identity (hex_encode (replicate 32 171)) = Some (replicate 32 171)"
  by (rule identity_round_trip) simp

text \<open>The decoder also accepts text that is not hexadecimal: each pair may be a plus sign and
  one digit.\<close>

theorem identity_accepts_plus:
  "decode_identity (concat (replicate 32 ''+f'')) = Some (replicate 32 15)"
proof -
  have "from_utf8 (as_bytes ''+f'') = Some ''+f''" by (rule from_utf8_ascii_string) simp
  moreover have "u8_from_hex ''+f'' = Some 15"
    by (simp add: u8_from_hex_def to_digit_def str_eval digits_value_def)
  ultimately have "decode_pairs (concat (replicate n ''+f'')) = Some (replicate n 15)" for n
    by (induction n) simp_all
  then show ?thesis by (simp add: decode_identity_def length_concat sum_list_replicate)
qed

end
