(* ===== verification/Scaffolding.thy ===== *)
theory Scaffolding
  imports Rust_Str Framing
begin

text \<open>
  \<open>scaffolding/model.rs\<close> and \<open>scaffolding/protocol.rs\<close>: player profiles and the binary wire
  format between a guest and the host of a room. A request is a length byte, that many
  printable bytes of type, a big-endian 32-bit length and the body; a response is a status
  byte, a big-endian 32-bit length and the body.
\<close>

section \<open>Profiles\<close>

datatype player_kind = KindHost | KindGuest

record player_profile =
  player_name :: string
  machine_id :: string
  vendor :: string
  player_kind_of :: "player_kind option"

definition valid_text :: "string \<Rightarrow> nat \<Rightarrow> bool" where
  "valid_text value maximum_length \<longleftrightarrow>
    trim value \<noteq> [] \<and> length value \<le> maximum_length \<and> \<not> has_control value"

definition profile_validate :: "player_profile \<Rightarrow> bool" where
  "profile_validate p \<longleftrightarrow>
    valid_text (player_name p) 64 \<and> valid_text (machine_id p) 128 \<and> valid_text (vendor p) 256"

section \<open>Frames\<close>

definition MAX_TYPE_LENGTH :: nat where
  "MAX_TYPE_LENGTH = 128"

definition MAX_BODY_LENGTH :: nat where
  "MAX_BODY_LENGTH = 65536"

record request_frame =
  req_type :: string
  req_body :: bytes

record response_frame =
  resp_status :: u8
  resp_body :: bytes

datatype scaffolding_error =
    ScIo io_error
  | InvalidFrame string
  | ScJson json_error
  | RemoteStatus u8 string

text \<open>What \<open>Display\<close> prints for an error.\<close>

fun scaffolding_text :: "scaffolding_error \<Rightarrow> string" where
  "scaffolding_text (ScIo e) = ''Scaffolding I/O failed: '' @ io_message e"
| "scaffolding_text (InvalidFrame s) = ''Invalid Scaffolding frame: '' @ s"
| "scaffolding_text (ScJson e) = ''Invalid Scaffolding JSON: '' @ json_text e"
| "scaffolding_text (RemoteStatus st message) =
    ''Scaffolding request failed with status '' @ dec (unat st) @ '': '' @ message"

definition sc_io :: "(io_error + 'a) \<times> 's \<Rightarrow> (scaffolding_error + 'a) \<times> 's" where
  "sc_io x = (case x of (r, s) \<Rightarrow> (map_err ScIo r, s))"

definition type_byte :: "u8 \<Rightarrow> bool" where
  "type_byte b \<longleftrightarrow> 0x21 \<le> unat b \<and> unat b \<le> 0x7e"

definition read_request :: "reader \<Rightarrow> (scaffolding_error + request_frame) \<times> reader" where
  "read_request r =
    and_then (sc_io (read_exact 1 r)) (\<lambda>lb r1.
      let type_length = unat (hd lb) in
      if type_length = 0 \<or> MAX_TYPE_LENGTH < type_length
      then (Err (InvalidFrame (''request type length '' @ dec type_length @ '' is outside 1..='' @ dec MAX_TYPE_LENGTH)), r1)
      else and_then (sc_io (read_exact type_length r1)) (\<lambda>ty r2.
        if \<not> list_all type_byte ty
        then (Err (InvalidFrame ''request type must be printable ASCII without spaces''), r2)
        else and_then (sc_io (read_exact 4 r2)) (\<lambda>l r3.
          let body_length = unat (u32_from_be_bytes l) in
          if MAX_BODY_LENGTH < body_length
          then (Err (InvalidFrame (''request body length '' @ dec body_length @ '' exceeds '' @ dec MAX_BODY_LENGTH)), r3)
          else and_then (sc_io (read_exact body_length r3)) (\<lambda>body r4.
            case from_utf8 ty of
              None \<Rightarrow> (Err (InvalidFrame ''request type is not valid UTF-8''), r4)
            | Some s \<Rightarrow> (Ok \<lparr>req_type = s, req_body = body\<rparr>, r4)))))"

definition validate_request_type :: "string \<Rightarrow> scaffolding_error + unit" where
  "validate_request_type ty =
    (if ty = [] \<or> MAX_TYPE_LENGTH < length ty \<or> \<not> list_all type_byte (as_bytes ty)
     then Err (InvalidFrame ''request type must contain 1 to 128 printable ASCII bytes without spaces'')
     else Ok ())"

definition validate_body_length :: "nat \<Rightarrow> scaffolding_error + unit" where
  "validate_body_length n =
    (if MAX_BODY_LENGTH < n
     then Err (InvalidFrame (''body length '' @ dec n @ '' exceeds '' @ dec MAX_BODY_LENGTH)) else Ok ())"

definition write_request :: "string \<Rightarrow> bytes \<Rightarrow> writer \<Rightarrow> (scaffolding_error + unit) \<times> writer" where
  "write_request ty body w =
    and_then (validate_request_type ty, w) (\<lambda>_ w.
    and_then (validate_body_length (length body), w) (\<lambda>_ w.
    and_then (sc_io (write_all [word_of_nat (length ty)] w)) (\<lambda>_ w.
    and_then (sc_io (write_all (as_bytes ty) w)) (\<lambda>_ w.
    and_then (sc_io (write_all (u32_to_be_bytes (word_of_nat (length body))) w)) (\<lambda>_ w.
    and_then (sc_io (write_all body w)) (\<lambda>_ w.
    and_then (sc_io (flush w)) (\<lambda>_ w. (Ok (), w))))))))"

definition read_response :: "reader \<Rightarrow> (scaffolding_error + response_frame) \<times> reader" where
  "read_response r =
    and_then (sc_io (read_exact 1 r)) (\<lambda>st r1.
    and_then (sc_io (read_exact 4 r1)) (\<lambda>l r2.
      let body_length = unat (u32_from_be_bytes l) in
      if MAX_BODY_LENGTH < body_length
      then (Err (InvalidFrame (''response body length '' @ dec body_length @ '' exceeds '' @ dec MAX_BODY_LENGTH)), r2)
      else and_then (sc_io (read_exact body_length r2)) (\<lambda>body r3.
        (Ok \<lparr>resp_status = hd st, resp_body = body\<rparr>, r3))))"

definition sc_write_response :: "u8 \<Rightarrow> bytes \<Rightarrow> writer \<Rightarrow> (scaffolding_error + unit) \<times> writer" where
  "sc_write_response st body w =
    and_then (validate_body_length (length body), w) (\<lambda>_ w.
    and_then (sc_io (write_all [st] w)) (\<lambda>_ w.
    and_then (sc_io (write_all (u32_to_be_bytes (word_of_nat (length body))) w)) (\<lambda>_ w.
    and_then (sc_io (write_all body w)) (\<lambda>_ w.
    and_then (sc_io (flush w)) (\<lambda>_ w. (Ok (), w))))))"

section \<open>The wire format\<close>

definition request_ok :: "request_frame \<Rightarrow> bool" where
  "request_ok q \<longleftrightarrow> req_type q \<noteq> [] \<and> length (req_type q) \<le> MAX_TYPE_LENGTH
    \<and> list_all type_byte (as_bytes (req_type q)) \<and> length (req_body q) \<le> MAX_BODY_LENGTH"

definition request_bytes :: "request_frame \<Rightarrow> bytes" where
  "request_bytes q = word_of_nat (length (req_type q)) # as_bytes (req_type q)
     @ u32_to_be_bytes (word_of_nat (length (req_body q))) @ req_body q"

definition response_ok :: "response_frame \<Rightarrow> bool" where
  "response_ok p \<longleftrightarrow> length (resp_body p) \<le> MAX_BODY_LENGTH"

definition response_bytes :: "response_frame \<Rightarrow> bytes" where
  "response_bytes p = resp_status p # u32_to_be_bytes (word_of_nat (length (resp_body p))) @ resp_body p"

lemma sc_io_simps [sc_simps]: "sc_io (Ok v, s) = (Ok v, s)" "sc_io (Err e, s) = (Err (ScIo e), s)"
  by (simp_all add: sc_io_def)

lemma body_length_u32: "n \<le> MAX_BODY_LENGTH \<Longrightarrow> unat (word_of_nat n :: u32) = n"
  by (rule unat_u32_of_nat) (simp add: MAX_BODY_LENGTH_def)

lemma type_bytes_ascii: "list_all type_byte (as_bytes s) \<Longrightarrow> from_utf8 (as_bytes s) = Some s"
  by (rule from_utf8_ascii_string) (auto simp: as_bytes_def list_all_iff type_byte_def)

lemma read_request_bytes:
  assumes ok: "request_ok q" and rx: "rx r = request_bytes q @ rest"
  shows "read_request r = (Ok q, r\<lparr>rx := rest\<rparr>)"
proof -
  let ?t = "as_bytes (req_type q)" and ?l = "u32_to_be_bytes (word_of_nat (length (req_body q)))"
  let ?n = "word_of_nat (length (req_type q)) :: u8"
  have n: "unat ?n = length (req_type q)"
    using ok by (intro unat_u8_of_nat) (simp add: request_ok_def MAX_TYPE_LENGTH_def)
  have steps: "read_exact (Suc 0) r = (Ok [?n], r\<lparr>rx := ?t @ ?l @ req_body q @ rest\<rparr>)"
    "read_exact (length (req_type q)) (r\<lparr>rx := ?t @ ?l @ req_body q @ rest\<rparr>) = (Ok ?t, r\<lparr>rx := ?l @ req_body q @ rest\<rparr>)"
    "read_exact 4 (r\<lparr>rx := ?l @ req_body q @ rest\<rparr>) = (Ok ?l, r\<lparr>rx := req_body q @ rest\<rparr>)"
    "read_exact (length (req_body q)) (r\<lparr>rx := req_body q @ rest\<rparr>) = (Ok (req_body q), r\<lparr>rx := rest\<rparr>)"
    using rx by (simp_all add: read_exact_def request_bytes_def)
  from ok type_bytes_ascii [of "req_type q"] show ?thesis
    by (simp add: read_request_def steps sc_simps n body_length_u32 request_ok_def Let_def)
qed

lemma read_response_bytes:
  assumes ok: "response_ok p" and rx: "rx r = response_bytes p @ rest"
  shows "read_response r = (Ok p, r\<lparr>rx := rest\<rparr>)"
proof -
  let ?l = "u32_to_be_bytes (word_of_nat (length (resp_body p)))"
  have steps: "read_exact (Suc 0) r = (Ok [resp_status p], r\<lparr>rx := ?l @ resp_body p @ rest\<rparr>)"
    "read_exact 4 (r\<lparr>rx := ?l @ resp_body p @ rest\<rparr>) = (Ok ?l, r\<lparr>rx := resp_body p @ rest\<rparr>)"
    "read_exact (length (resp_body p)) (r\<lparr>rx := resp_body p @ rest\<rparr>) = (Ok (resp_body p), r\<lparr>rx := rest\<rparr>)"
    using rx by (simp_all add: read_exact_def response_bytes_def)
  from ok show ?thesis by (simp add: read_response_def steps sc_simps body_length_u32 response_ok_def Let_def)
qed

interpretation requests: framed_channel request_bytes read_request request_ok
  by unfold_locales (rule read_request_bytes)

interpretation responses: framed_channel response_bytes read_response response_ok
  by unfold_locales (rule read_response_bytes)

lemma write_request_open:
  assumes "open_writer w" "request_ok q"
  shows "write_request (req_type q) (req_body q) w = (Ok (), w\<lparr>tx := tx w @ request_bytes q\<rparr>)"
  using assms
  by (simp add: write_request_def validate_request_type_def validate_body_length_def request_ok_def
      sc_simps io_simps request_bytes_def not_less)

lemma write_request_refuses:
  "\<not> request_ok q \<Longrightarrow> \<exists>m. write_request (req_type q) (req_body q) w = (Err (InvalidFrame m), w)"
  by (auto simp: write_request_def validate_request_type_def validate_body_length_def request_ok_def
      sc_simps not_less not_le)

lemma sc_write_response_open:
  assumes "open_writer w" "response_ok p"
  shows "sc_write_response (resp_status p) (resp_body p) w = (Ok (), w\<lparr>tx := tx w @ response_bytes p\<rparr>)"
  using assms
  by (simp add: sc_write_response_def validate_body_length_def response_ok_def sc_simps io_simps
      response_bytes_def)

section \<open>Properties\<close>

text \<open>The scaffolding wire format is self-delimiting in both directions: a sequence of valid
  requests written one after the other is read back unchanged and in order, and so is a sequence of
  responses, and the reader is left exactly behind them; a request or response outside the limits
  of the format is refused before anything is written.\<close>

theorem scaffolding_round_trip:
  assumes "list_all request_ok qs" "list_all response_ok ps"
  shows "read_many read_request (length qs) \<lparr>rx = concat (map request_bytes qs) @ rest, rx_end = e\<rparr>
      = (Ok qs, \<lparr>rx = rest, rx_end = e\<rparr>)
    \<and> read_many read_response (length ps) \<lparr>rx = concat (map response_bytes ps) @ rest, rx_end = e\<rparr>
      = (Ok ps, \<lparr>rx = rest, rx_end = e\<rparr>)
    \<and> (\<forall>q w. open_writer w \<longrightarrow> write_request (req_type q) (req_body q) w =
        (if request_ok q then (Ok (), w\<lparr>tx := tx w @ request_bytes q\<rparr>)
         else (fst (write_request (req_type q) (req_body q) w), w)))
    \<and> (\<forall>p w. open_writer w \<longrightarrow> sc_write_response (resp_status p) (resp_body p) w =
        (if response_ok p then (Ok (), w\<lparr>tx := tx w @ response_bytes p\<rparr>)
         else (fst (sc_write_response (resp_status p) (resp_body p) w), w)))"
proof -
  have q: "write_request (req_type q) (req_body q) w = (if request_ok q then (Ok (), w\<lparr>tx := tx w @ request_bytes q\<rparr>)
         else (fst (write_request (req_type q) (req_body q) w), w))" if "open_writer w" for q w
    using write_request_open [OF that, of q] write_request_refuses [of q w] by auto
  have p: "sc_write_response (resp_status p) (resp_body p) w = (if response_ok p then (Ok (), w\<lparr>tx := tx w @ response_bytes p\<rparr>)
         else (fst (sc_write_response (resp_status p) (resp_body p) w), w))" if "open_writer w" for p w
    using sc_write_response_open [OF that, of p]
    by (auto simp: sc_write_response_def validate_body_length_def response_ok_def sc_simps)
  show ?thesis
    using requests.decode_conversation [OF assms(1), of "\<lparr>rx = concat (map request_bytes qs) @ rest, rx_end = e\<rparr>" rest]
      responses.decode_conversation [OF assms(2), of "\<lparr>rx = concat (map response_bytes ps) @ rest, rx_end = e\<rparr>" rest] q p
    by simp
qed

theorem scaffolding_round_trip_witness:
  "read_many read_request (length [\<lparr>req_type = ''c:ping'', req_body = [1, 2]\<rparr>])
     \<lparr>rx = concat (map request_bytes [\<lparr>req_type = ''c:ping'', req_body = [1, 2]\<rparr>]) @ [9], rx_end = None\<rparr>
   = (Ok [\<lparr>req_type = ''c:ping'', req_body = [1, 2]\<rparr>], \<lparr>rx = [9], rx_end = None\<rparr>)"
proof -
  have "list_all request_ok [\<lparr>req_type = ''c:ping'', req_body = [1, 2]\<rparr>]"
    by (simp add: request_ok_def MAX_TYPE_LENGTH_def MAX_BODY_LENGTH_def as_bytes_def type_byte_def)
  from scaffolding_round_trip [OF this, of "[]" "[9]" None] show ?thesis by simp
qed

end
