(* ===== verification/Scaffolding_Server.thy ===== *)
theory Scaffolding_Server
  imports Scaffolding "HOL-Library.AList" "HOL-Library.List_Lexorder" "HOL-Library.Char_ord"
    "HOL-Library.Product_Lexorder" "HOL-Library.Multiset"
begin

text \<open>
  \<open>scaffolding/server.rs\<close>: the registry of the players of a room and the requests it serves.
  \<open>Instant::now()\<close> is the argument \<open>now\<close>, in nanoseconds of a monotonic clock. The hash map of the
  players is an association list in an arbitrary order. \<open>serde_json\<close> is a record of functions.
\<close>

section \<open>The registry\<close>

definition SUPPORTED_PROTOCOLS :: "string list" where
  "SUPPORTED_PROTOCOLS =
    [''c:ping'', ''c:protocols'', ''c:server_port'', ''c:player_ping'', ''c:player_profiles_list'']"

definition INVALID_REQUEST_STATUS :: u8 where
  "INVALID_REQUEST_STATUS = 32"

definition UNKNOWN_REQUEST_STATUS :: u8 where
  "UNKNOWN_REQUEST_STATUS = 255"

definition PLAYER_TIMEOUT :: nat where
  "PLAYER_TIMEOUT = 10 * 1000000000"

record tracked_player =
  tp_profile :: player_profile
  last_seen :: nat

record server_context =
  ctx_port :: u16
  host_machine_id :: string
  players :: "(string \<times> tracked_player) list"

definition new_server_context :: "nat \<Rightarrow> player_profile \<Rightarrow> u16 \<Rightarrow> scaffolding_error + server_context" where
  "new_server_context now host port =
    (if port = 0 then Err (InvalidFrame ''Minecraft server port must be non-zero'')
     else if \<not> profile_validate host then Err (InvalidFrame ''host profile contains invalid text'')
     else
       (let host' = host\<lparr>player_kind_of := Some KindHost\<rparr>
        in Ok \<lparr>ctx_port = port, host_machine_id = machine_id host',
               players = [(machine_id host', \<lparr>tp_profile = host', last_seen = now\<rparr>)]\<rparr>))"

definition player_order :: "player_profile \<Rightarrow> nat" where
  "player_order p = (case player_kind_of p of Some KindHost \<Rightarrow> 0 | _ \<Rightarrow> 1)"

definition player_profiles :: "server_context \<Rightarrow> player_profile list" where
  "player_profiles ctx = sort_key (\<lambda>p. (player_order p, machine_id p))
     (map (\<lambda>(k, tracked). tp_profile tracked) (players ctx))"

definition record_guest ::
    "nat \<Rightarrow> player_profile \<Rightarrow> server_context \<Rightarrow> (scaffolding_error + unit) \<times> server_context" where
  "record_guest now profile ctx =
    (if \<not> profile_validate profile \<or> machine_id profile = host_machine_id ctx
     then (Err (InvalidFrame ''guest profile is invalid or collides with the host identity''), ctx)
     else
       (let profile' = profile\<lparr>player_kind_of := Some KindGuest\<rparr>
        in (Ok (), ctx\<lparr>players := AList.update (machine_id profile')
              \<lparr>tp_profile = profile', last_seen = now\<rparr> (players ctx)\<rparr>)))"

definition remove_stale_guests :: "nat \<Rightarrow> server_context \<Rightarrow> server_context" where
  "remove_stale_guests now ctx = ctx\<lparr>players := filter (\<lambda>(k, tracked).
      k = host_machine_id ctx \<or> now - last_seen tracked \<le> PLAYER_TIMEOUT) (players ctx)\<rparr>"

section \<open>Requests\<close>

record profile_codec =
  pc_profile_from :: "bytes \<Rightarrow> json_error + player_profile"
  pc_profile_to :: "player_profile \<Rightarrow> json_error + bytes"
  pc_list_from :: "bytes \<Rightarrow> json_error + player_profile list"
  pc_list_to :: "player_profile list \<Rightarrow> json_error + bytes"

definition null_char :: char where
  "null_char = CHR 0x00"

text \<open>\<open>text.split('\0').filter(|value| !value.is_empty())\<close>\<close>

definition split_names :: "string \<Rightarrow> string list" where
  "split_names s = filter (\<lambda>v. v \<noteq> []) (split_on (\<lambda>c. c = null_char) s)"

definition negotiated :: "bytes \<Rightarrow> string" where
  "negotiated body =
    (let offered = split_names (case from_utf8 body of None \<Rightarrow> [] | Some s \<Rightarrow> s)
     in join [null_char] (filter (\<lambda>protocol. offered = [] \<or> protocol \<in> set offered) SUPPORTED_PROTOCOLS))"

text \<open>The answer to a request: the new registry, and the status and body to send, or an error.\<close>

definition answer_request ::
    "profile_codec \<Rightarrow> nat \<Rightarrow> request_frame \<Rightarrow> server_context \<Rightarrow> (scaffolding_error + response_frame) \<times> server_context" where
  "answer_request pc now q ctx =
    (let ty = req_type q; body = req_body q;
         reply = (\<lambda>st b. Ok \<lparr>resp_status = st, resp_body = b\<rparr>) in
     if ty = ''c:ping'' \<and> length body < 32 then (reply 0 body, ctx)
     else if ty = ''c:ping'' then (reply INVALID_REQUEST_STATUS [], ctx)
     else if ty = ''c:protocols'' then (reply 0 (as_bytes (negotiated body)), ctx)
     else if ty = ''c:server_port'' \<and> body = [] then (reply 0 (u16_to_be_bytes (ctx_port ctx)), ctx)
     else if ty = ''c:player_ping'' then
       (case pc_profile_from pc body of
          Ok profile \<Rightarrow> (case record_guest now profile ctx of
              (Ok _, ctx') \<Rightarrow> (reply 0 [], ctx')
            | (Err _, ctx') \<Rightarrow> (reply INVALID_REQUEST_STATUS [], ctx'))
        | Err _ \<Rightarrow> (reply INVALID_REQUEST_STATUS [], ctx))
     else if ty = ''c:player_profiles_list'' \<and> body = [] then
       (case pc_list_to pc (player_profiles ctx) of
          Err e \<Rightarrow> (Err (ScJson e), ctx)
        | Ok b \<Rightarrow> (reply 0 b, ctx))
     else (reply UNKNOWN_REQUEST_STATUS (as_bytes ''unsupported Scaffolding request''), ctx))"

definition serve_request ::
    "profile_codec \<Rightarrow> nat \<Rightarrow> request_frame \<Rightarrow> server_context \<times> writer \<Rightarrow> (scaffolding_error + unit) \<times> server_context \<times> writer" where
  "serve_request pc now q cw = (case answer_request pc now q (fst cw) of
      (Err e, ctx) \<Rightarrow> (Err e, ctx, snd cw)
    | (Ok p, ctx) \<Rightarrow> (case sc_write_response (resp_status p) (resp_body p) (snd cw) of (r, w) \<Rightarrow> (r, ctx, w)))"

text \<open>
  One connection. Each turn either reads and serves a request at some time, or sees the shutdown
  channel change: the connection ends when shutdown was requested (or the sender is gone),
  otherwise it goes on, and a partly read request of \<open>n\<close> bytes is dropped.
\<close>

datatype serve_turn = ServeRequest nat | ServeShutdown bool nat

fun serve_client ::
    "profile_codec \<Rightarrow> serve_turn list \<Rightarrow> reader \<Rightarrow> server_context \<times> writer
      \<Rightarrow> (scaffolding_error + unit) option \<times> reader \<times> server_context \<times> writer" where
  "serve_client pc [] r cw = (None, r, cw)"
| "serve_client pc (ServeShutdown stop n # ts) r cw =
    (if stop then (Some (Ok ()), r, cw) else serve_client pc ts (cancel_read n r) cw)"
| "serve_client pc (ServeRequest now # ts) r cw = (case read_request r of
      (Err e, r') \<Rightarrow> (Some (Err e), r', cw)
    | (Ok q, r') \<Rightarrow> (case serve_request pc now q cw of
        (Err e, cw') \<Rightarrow> (Some (Err e), r', cw')
      | (Ok _, cw') \<Rightarrow> serve_client pc ts r' cw'))"

text \<open>The registry under all connections and the cleanup timer.\<close>

datatype registry_op = RegRequest nat request_frame | RegCleanup nat

fun registry_step :: "profile_codec \<Rightarrow> registry_op \<Rightarrow> server_context \<Rightarrow> server_context" where
  "registry_step pc (RegRequest now q) ctx = snd (answer_request pc now q ctx)"
| "registry_step pc (RegCleanup now) ctx = remove_stale_guests now ctx"

section \<open>The invariant of the registry\<close>

text \<open>
  The host is registered under its own identifier with its own profile; every other entry is a
  guest; every entry is valid and stored under its identifier.
\<close>

definition guest_ok :: "string \<Rightarrow> player_profile \<Rightarrow> bool" where
  "guest_ok k p \<longleftrightarrow> machine_id p = k \<and> profile_validate p \<and> player_kind_of p = Some KindGuest"

definition registry_ok :: "player_profile \<Rightarrow> server_context \<Rightarrow> bool" where
  "registry_ok host ctx \<longleftrightarrow> distinct (map fst (players ctx))
    \<and> host_machine_id ctx = machine_id host \<and> profile_validate host \<and> player_kind_of host = Some KindHost
    \<and> map_option tp_profile (map_of (players ctx) (machine_id host)) = Some host
    \<and> (\<forall>k t. map_of (players ctx) k = Some t \<longrightarrow> k \<noteq> machine_id host \<longrightarrow> guest_ok k (tp_profile t))"

lemma registry_ok_new:
  "new_server_context now host port = Ok ctx \<Longrightarrow> registry_ok (host\<lparr>player_kind_of := Some KindHost\<rparr>) ctx"
  by (auto simp: new_server_context_def registry_ok_def profile_validate_def Let_def split: if_splits)

lemma registry_ok_update:
  assumes "registry_ok host ctx" "k \<noteq> machine_id host" "guest_ok k (tp_profile t)"
  shows "registry_ok host (ctx\<lparr>players := AList.update k t (players ctx)\<rparr>)"
  using assms by (simp add: registry_ok_def distinct_update update_conv' del: map_of_eq_Some_iff)

lemma guest_ok_kind:
  "guest_ok (machine_id p) (p\<lparr>player_kind_of := Some KindGuest\<rparr>) = profile_validate p"
  by (simp add: guest_ok_def profile_validate_def)

lemma registry_ok_record:
  assumes "registry_ok host ctx" shows "registry_ok host (snd (record_guest now p ctx))"
proof -
  have "host_machine_id ctx = machine_id host" using assms by (simp add: registry_ok_def)
  with assms registry_ok_update [OF assms, of "machine_id p"] show ?thesis
    by (simp add: record_guest_def Let_def guest_ok_kind)
qed

lemma lookup_kept:
  assumes "distinct (map fst ps)"
  shows "map_of (filter keep ps) k = Some t \<longleftrightarrow> map_of ps k = Some t \<and> keep (k, t)"
proof -
  have "distinct (map fst (filter keep ps))" using assms by (rule distinct_map_filter)
  with assms show ?thesis by (auto simp: map_of_eq_Some_iff)
qed

lemma remove_stale_lookup:
  assumes "distinct (map fst (players ctx))"
  shows "map_of (players (remove_stale_guests now ctx)) k = Some t \<longleftrightarrow>
    map_of (players ctx) k = Some t \<and> (k = host_machine_id ctx \<or> now - last_seen t \<le> PLAYER_TIMEOUT)"
  using lookup_kept [OF assms] by (auto simp: remove_stale_guests_def)

lemma remove_stale_distinct:
  "distinct (map fst (players ctx)) \<Longrightarrow> distinct (map fst (players (remove_stale_guests now ctx)))"
  by (simp add: remove_stale_guests_def distinct_map_filter)

lemma registry_ok_remove:
  assumes "registry_ok host ctx" shows "registry_ok host (remove_stale_guests now ctx)"
proof -
  have d: "distinct (map fst (players ctx))" using assms by (simp add: registry_ok_def)
  obtain t where "map_of (players ctx) (machine_id host) = Some t" "tp_profile t = host"
    using assms by (auto simp: registry_ok_def)
  moreover have "host_machine_id (remove_stale_guests now ctx) = host_machine_id ctx"
    by (simp add: remove_stale_guests_def)
  ultimately show ?thesis
    using assms remove_stale_lookup [OF d, of now] remove_stale_distinct [OF d]
    by (auto simp: registry_ok_def)
qed

lemma answer_request_registry:
  "snd (answer_request pc now q ctx) = (case (req_type q = ''c:player_ping'', pc_profile_from pc (req_body q)) of
      (True, Ok p) \<Rightarrow> snd (record_guest now p ctx) | _ \<Rightarrow> ctx)"
proof (cases "req_type q = ''c:player_ping''")
  case True
  show ?thesis
  proof (cases "pc_profile_from pc (req_body q)")
    case (Inr p)
    obtain x c where "record_guest now p ctx = (x, c)" by (rule prod.exhaust)
    with True Inr show ?thesis by (cases x) (simp_all add: answer_request_def Let_def)
  qed (simp add: True answer_request_def)
next
  case False
  then show ?thesis by (simp add: answer_request_def Let_def split: sum.split)
qed

lemma registry_ok_answer:
  "registry_ok host ctx \<Longrightarrow> registry_ok host (snd (answer_request pc now q ctx))"
  by (simp add: answer_request_registry registry_ok_record split: bool.split sum.split)

lemma registry_ok_step: "registry_ok host ctx \<Longrightarrow> registry_ok host (registry_step pc x ctx)"
  by (cases x) (simp_all add: registry_ok_answer registry_ok_remove)

interpretation registry: invariant_machine "registry_step pc" "registry_ok host" for pc host
  by unfold_locales (rule registry_ok_step)

section \<open>The list of players\<close>

abbreviation player_key :: "player_profile \<Rightarrow> nat \<times> string" where
  "player_key p \<equiv> (player_order p, machine_id p)"

lemma map_of_in_set: "distinct (map fst xs) \<Longrightarrow> map_of xs k = Some v \<longleftrightarrow> (k, v) \<in> set xs"
  by (simp add: map_of_eq_Some_iff)

lemma registry_entry:
  assumes "registry_ok host ctx" "(k, t) \<in> set (players ctx)"
  shows "machine_id (tp_profile t) = k \<and> (k = machine_id host \<longrightarrow> tp_profile t = host)
    \<and> (k \<noteq> machine_id host \<longrightarrow> guest_ok k (tp_profile t))"
proof -
  have "map_of (players ctx) k = Some t"
    using assms by (simp add: registry_ok_def map_of_in_set)
  with assms(1) show ?thesis
    by (cases "k = machine_id host") (simp_all add: registry_ok_def guest_ok_def del: map_of_eq_Some_iff)
qed

lemma profiles_ids:
  assumes "registry_ok host ctx"
  shows "map machine_id (map (\<lambda>(k, t). tp_profile t) (players ctx)) = map fst (players ctx)"
  using registry_entry [OF assms] by auto

lemma set_player_profiles: "set (player_profiles ctx) = (\<lambda>(k, t). tp_profile t) ` set (players ctx)"
  by (simp add: player_profiles_def)

lemma distinct_player_ids:
  assumes "registry_ok host ctx"
  shows "distinct (map machine_id (player_profiles ctx))"
proof -
  have "mset (player_profiles ctx) = mset (map (\<lambda>(k, t). tp_profile t) (players ctx))"
    unfolding player_profiles_def by (rule mset_sort)
  then have "mset (map machine_id (player_profiles ctx)) = mset (map fst (players ctx))"
    unfolding profiles_ids [OF assms, symmetric] by (simp only: mset_map)
  moreover have "distinct (map fst (players ctx))" using assms by (simp add: registry_ok_def)
  ultimately show ?thesis by (metis mset_eq_imp_distinct_iff)
qed

lemma player_profiles_host_first:
  assumes ok: "registry_ok host ctx"
  obtains guests where "player_profiles ctx = host # guests"
    "list_all (\<lambda>p. guest_ok (machine_id p) p \<and> machine_id p \<noteq> machine_id host) guests"
    "sorted (map machine_id guests)" "distinct (map machine_id guests)"
proof -
  let ?ps = "player_profiles ctx"
  have host: "host \<in> set ?ps"
    using ok by (auto simp: registry_ok_def set_player_profiles map_of_in_set intro!: image_eqI)
  have entry: "p = host \<or> guest_ok (machine_id p) p \<and> machine_id p \<noteq> machine_id host" if "p \<in> set ?ps" for p
    using that registry_entry [OF ok] by (auto simp: set_player_profiles)
  have hk: "player_order host = 0" using ok by (simp add: registry_ok_def player_order_def)
  have gk: "player_order p = 1" if "guest_ok k p" for k p
    using that by (simp add: guest_ok_def player_order_def)
  obtain p gs where ps: "?ps = p # gs" using host by (cases ?ps) auto
  have sorted: "sorted (map player_key (p # gs))"
    unfolding ps [symmetric] by (simp add: player_profiles_def)
  have "p = host"
  proof (rule ccontr)
    assume "p \<noteq> host"
    with entry [of p] gk have "player_order p = 1" by (auto simp: ps)
    moreover have "player_key p \<le> player_key host"
      using sorted host \<open>p \<noteq> host\<close> by (auto simp: ps)
    ultimately show False by (simp add: hk)
  qed
  moreover have d: "distinct (map machine_id (host # gs))"
    using distinct_player_ids [OF ok] ps calculation by simp
  moreover have guests: "guest_ok (machine_id g) g \<and> machine_id g \<noteq> machine_id host" if "g \<in> set gs" for g
    using entry [of g] that d by (auto simp: ps)
  moreover have "sorted (map machine_id gs)"
  proof -
    have "sorted (map player_key gs)" using sorted by simp
    moreover have "map player_key gs = map (\<lambda>m. (1, m)) (map machine_id gs)"
      using guests gk by auto
    ultimately show ?thesis by (simp add: sorted_map comp_def sorted_wrt_map)
  qed
  ultimately show ?thesis using ps that [of gs] by (simp add: list_all_iff)
qed

lemma player_key_inj:
  assumes "registry_ok host ctx"
  shows "inj_on machine_id (set (player_profiles ctx))"
  using distinct_player_ids [OF assms] by (simp add: distinct_map)

section \<open>How long a guest is listed\<close>

fun op_time :: "registry_op \<Rightarrow> nat" where
  "op_time (RegRequest now q) = now"
| "op_time (RegCleanup now) = now"

text \<open>The request is a ping of the player with this identifier.\<close>

definition pings :: "profile_codec \<Rightarrow> string \<Rightarrow> registry_op \<Rightarrow> bool" where
  "pings pc k x = (case x of
      RegRequest now q \<Rightarrow> req_type q = ''c:player_ping'' \<and>
        (case pc_profile_from pc (req_body q) of Ok p \<Rightarrow> machine_id p = k | Err _ \<Rightarrow> False)
    | RegCleanup now \<Rightarrow> False)"

lemma record_guest_lookup:
  "map_of (players (snd (record_guest now p ctx))) k =
    (if profile_validate p \<and> machine_id p \<noteq> host_machine_id ctx \<and> k = machine_id p
     then Some \<lparr>tp_profile = p\<lparr>player_kind_of := Some KindGuest\<rparr>, last_seen = now\<rparr>
     else map_of (players ctx) k)"
  by (auto simp: record_guest_def Let_def update_conv')

lemma registry_step_unpinged:
  assumes "distinct (map fst (players ctx))" "\<not> pings pc k x"
    "map_of (players (registry_step pc x ctx)) k = Some t"
  shows "map_of (players ctx) k = Some t"
proof (cases x)
  case (RegRequest now q)
  with assms(2,3) show ?thesis
    by (auto simp: answer_request_registry record_guest_lookup pings_def simp del: map_of_eq_Some_iff
        split: bool.splits sum.splits if_splits)
next
  case (RegCleanup now)
  with assms(3) remove_stale_lookup [OF assms(1), of now k t] show ?thesis by (simp del: map_of_eq_Some_iff)
qed

lemma registry_step_fresh:
  assumes "distinct (map fst (players ctx))" "map_of (players ctx) k = Some t"
    "op_time x - last_seen t \<le> PLAYER_TIMEOUT"
  shows "\<exists>t'. map_of (players (registry_step pc x ctx)) k = Some t' \<and> (t' = t \<or> last_seen t' = op_time x)"
proof (cases x)
  case (RegRequest now q)
  with assms(2) show ?thesis
    by (auto simp: answer_request_registry record_guest_lookup simp del: map_of_eq_Some_iff
        split: bool.splits sum.splits)
next
  case (RegCleanup now)
  with assms(2,3) remove_stale_lookup [OF assms(1), of now k t] show ?thesis
    by (simp del: map_of_eq_Some_iff)
qed

lemma guest_stays:
  assumes "registry_ok host ctx" "map_of (players ctx) k = Some t" "t0 \<le> last_seen t"
    "\<forall>x \<in> set xs. t0 \<le> op_time x \<and> op_time x \<le> t0 + PLAYER_TIMEOUT"
  shows "\<exists>t'. map_of (players (run_ops (registry_step pc) xs ctx)) k = Some t' \<and> t0 \<le> last_seen t'"
  using assms
proof (induction xs arbitrary: ctx t)
  case (Cons x xs)
  have d: "distinct (map fst (players ctx))" using Cons.prems(1) by (simp add: registry_ok_def)
  have "op_time x - last_seen t \<le> PLAYER_TIMEOUT" using Cons.prems(3,4) by simp linarith
  from registry_step_fresh [OF d Cons.prems(2) this, of pc] Cons.prems(3,4)
  obtain t' where "map_of (players (registry_step pc x ctx)) k = Some t'" "t0 \<le> last_seen t'"
    by auto
  with Cons.IH [OF registry_ok_step [OF Cons.prems(1)], of pc x t'] Cons.prems(4) show ?case by simp
qed simp

lemma guest_unseen:
  assumes "registry_ok host ctx" "\<forall>t. map_of (players ctx) k = Some t \<longrightarrow> last_seen t \<le> t0"
    "\<forall>x \<in> set xs. \<not> pings pc k x"
  shows "\<forall>t. map_of (players (run_ops (registry_step pc) xs ctx)) k = Some t \<longrightarrow> last_seen t \<le> t0"
  using assms
proof (induction xs arbitrary: ctx)
  case (Cons x xs)
  have d: "distinct (map fst (players ctx))" using Cons.prems(1) by (simp add: registry_ok_def)
  have "\<forall>t. map_of (players (registry_step pc x ctx)) k = Some t \<longrightarrow> last_seen t \<le> t0"
    using registry_step_unpinged [OF d, of pc k x] Cons.prems(2,3) by (simp del: map_of_eq_Some_iff)
  with Cons.IH [OF registry_ok_step [OF Cons.prems(1)]] Cons.prems(3) show ?case by simp
qed simp

lemma guest_expires:
  assumes ok: "registry_ok host ctx" and host: "k \<noteq> machine_id host"
    and seen: "\<forall>t. map_of (players ctx) k = Some t \<longrightarrow> last_seen t \<le> t0"
    and xs: "\<forall>x \<in> set xs. \<not> pings pc k x" "t0 + PLAYER_TIMEOUT < now"
  shows "k \<notin> fst ` set (players (run_ops (registry_step pc) (xs @ [RegCleanup now]) ctx))"
proof -
  let ?c = "run_ops (registry_step pc) xs ctx"
  have okc: "registry_ok host ?c" using registry.inv_run [OF ok] .
  have old: "\<forall>t. map_of (players ?c) k = Some t \<longrightarrow> last_seen t \<le> t0"
    by (rule guest_unseen [OF ok seen xs(1)])
  have "map_of (players (remove_stale_guests now ?c)) k = None"
  proof (rule ccontr)
    assume "map_of (players (remove_stale_guests now ?c)) k \<noteq> None"
    then obtain t where "map_of (players (remove_stale_guests now ?c)) k = Some t" by blast
    with remove_stale_lookup [of ?c now k t] okc old host xs(2) show False
      by (auto simp: registry_ok_def simp del: map_of_eq_Some_iff)
  qed
  then show ?thesis by (simp add: run_ops_append map_of_eq_None_iff)
qed

section \<open>Answers\<close>

text \<open>
  Every request is answered by one response; only a list of players that cannot be serialised or
  exceeds the size of a body is not.
\<close>

lemma supported_length: "length (join [null_char] (filter P SUPPORTED_PROTOCOLS)) \<le> 80"
  by (simp add: SUPPORTED_PROTOCOLS_def)

lemma negotiated_length: "length (negotiated body) \<le> 80"
  unfolding negotiated_def Let_def by (rule supported_length)

lemma answer_request_ok:
  assumes "pc_list_to pc (player_profiles ctx) = Ok b" "length b \<le> MAX_BODY_LENGTH"
  shows "\<exists>p. fst (answer_request pc now q ctx) = Ok p \<and> response_ok p"
proof (cases "req_type q = ''c:player_ping''")
  case True
  show ?thesis
  proof (cases "pc_profile_from pc (req_body q)")
    case (Inr p)
    obtain x c where "record_guest now p ctx = (x, c)" by (rule prod.exhaust)
    with True Inr show ?thesis by (cases x) (simp_all add: answer_request_def Let_def response_ok_def)
  qed (simp add: True answer_request_def response_ok_def)
next
  case False
  have "length (negotiated (req_body q)) \<le> MAX_BODY_LENGTH"
    using negotiated_length [of "req_body q"] by (simp add: MAX_BODY_LENGTH_def)
  with False assms show ?thesis
    by (simp add: answer_request_def Let_def response_ok_def MAX_BODY_LENGTH_def u16_to_be_bytes_def)
qed

lemma serve_request_answers:
  assumes "pc_list_to pc (player_profiles ctx) = Ok b" "length b \<le> MAX_BODY_LENGTH" "open_writer w"
  obtains p where "fst (answer_request pc now q ctx) = Ok p" "response_ok p"
    "serve_request pc now q (ctx, w) = (Ok (), snd (answer_request pc now q ctx), w\<lparr>tx := tx w @ response_bytes p\<rparr>)"
proof -
  obtain p where p: "fst (answer_request pc now q ctx) = Ok p" "response_ok p"
    using answer_request_ok [OF assms(1,2)] by blast
  then have "serve_request pc now q (ctx, w)
      = (Ok (), snd (answer_request pc now q ctx), w\<lparr>tx := tx w @ response_bytes p\<rparr>)"
    using sc_write_response_open [OF assms(3) p(2)] p(1)
    by (cases "answer_request pc now q ctx") (simp add: serve_request_def)
  then show ?thesis using that p by blast
qed

section \<open>Connections end\<close>

text \<open>Serving a request takes at least six bytes from the stream, so a connection serves a bounded
  number of them.\<close>

lemma sc_io_Ok_iff: "sc_io x = (Ok v, s) \<longleftrightarrow> x = (Ok v, s)"
  by (cases x) (simp add: sc_io_def res_simps)

lemma read_request_consumes:
  assumes "read_request r = (Ok q, r')"
  shows "length (rx r') + 6 \<le> length (rx r)"
proof -
  from assms obtain lb r1 ty r2 l r3 body where
    "read_exact 1 r = (Ok lb, r1)" "unat (hd lb) \<noteq> 0" "read_exact (unat (hd lb)) r1 = (Ok ty, r2)"
    "read_exact 4 r2 = (Ok l, r3)" "read_exact (unat (u32_from_be_bytes l)) r3 = (Ok body, r')"
    unfolding read_request_def
    by (auto simp: and_then_Ok_iff sc_io_Ok_iff Let_def split: if_splits option.splits)
  then show ?thesis by (auto simp: read_exact_Ok_iff)
qed

lemma serve_client_ends:
  "length (rx r) < 6 * length ts \<Longrightarrow> fst (serve_client pc (map ServeRequest ts) r cw) \<noteq> None"
proof (induction ts arbitrary: r cw)
  case (Cons t ts)
  obtain x r' where x: "read_request r = (x, r')" by (rule prod.exhaust)
  show ?case
  proof (cases x)
    case (Inr q)
    with x have "length (rx r') < 6 * length ts" using read_request_consumes [of r q r'] Cons.prems by simp
    with Cons.IH x Inr show ?thesis by (simp split: prod.split sum.split)
  qed (simp add: x)
qed simp

end
