(* ===== verification/Scaffolding_Client.thy ===== *)
theory Scaffolding_Client
  imports Scaffolding_Server Socket_Addr
begin

text \<open>
  \<open>scaffolding/client.rs\<close>: the guest's side of the scaffolding protocol. What is at the other end of
  the connection is a function from the bytes written to what then arrives (or a failure, or
  nothing before the timeout), over a state of its own; at the end of the theory it is the
  server of \<open>Scaffolding_Server\<close>.
\<close>

section \<open>The client\<close>

datatype remote_answer =
    RemoteWriteFailed io_error
  | RemoteTimeout
  | RemoteData bytes "io_error option"

record 's scaffolding_client =
  cl_profile :: player_profile
  cl_rx :: bytes
  cl_remote :: 's

record heartbeat_result =
  latency :: nat
  hb_players :: "player_profile list"

definition fresh_writer :: writer where
  "fresh_writer = \<lparr>tx = [], tx_quota = None, tx_error = IoError NotConnected [], tx_flush = None\<rparr>"

definition client_request ::
    "(bytes \<Rightarrow> 's \<Rightarrow> remote_answer \<times> 's) \<Rightarrow> string \<Rightarrow> bytes \<Rightarrow> 's scaffolding_client
      \<Rightarrow> (scaffolding_error + bytes) \<times> 's scaffolding_client" where
  "client_request remote ty body c = (case write_request ty body fresh_writer of
      (Err e, _) \<Rightarrow> (Err e, c)
    | (Ok _, w) \<Rightarrow> (case remote (tx w) (cl_remote c) of
        (RemoteWriteFailed e, s) \<Rightarrow> (Err (ScIo e), c\<lparr>cl_remote := s\<rparr>)
      | (RemoteTimeout, s) \<Rightarrow>
          (Err (ScIo (IoError TimedOut ''Scaffolding response timed out'')), c\<lparr>cl_remote := s\<rparr>)
      | (RemoteData bs en, s) \<Rightarrow>
          (case read_response \<lparr>rx = cl_rx c @ bs, rx_end = en\<rparr> of
            (Err e, r) \<Rightarrow> (Err e, c\<lparr>cl_remote := s, cl_rx := rx r\<rparr>)
          | (Ok response, r) \<Rightarrow>
              (let c' = c\<lparr>cl_remote := s, cl_rx := rx r\<rparr> in
               if resp_status response \<noteq> 0
               then (Err (RemoteStatus (resp_status response)
                       (if resp_status response = 255 then string_of_bytes (utf8_lossy (resp_body response))
                        else ''remote request rejected'')), c')
               else (Ok (resp_body response), c')))))"

definition client_ping ::
    "(bytes \<Rightarrow> 's \<Rightarrow> remote_answer \<times> 's) \<Rightarrow> bytes \<Rightarrow> 's scaffolding_client
      \<Rightarrow> (scaffolding_error + bytes) \<times> 's scaffolding_client" where
  "client_ping remote payload c =
    (if 32 \<le> length payload then (Err (InvalidFrame ''ping payload must be shorter than 32 bytes''), c)
     else client_request remote ''c:ping'' payload c)"

definition client_minecraft_port ::
    "(bytes \<Rightarrow> 's \<Rightarrow> remote_answer \<times> 's) \<Rightarrow> 's scaffolding_client
      \<Rightarrow> (scaffolding_error + u16) \<times> 's scaffolding_client" where
  "client_minecraft_port remote c =
    and_then (client_request remote ''c:server_port'' [] c) (\<lambda>body c.
      if length body \<noteq> 2
      then (Err (InvalidFrame ''server port response must contain exactly two bytes''), c)
      else (Ok (u16_from_be_bytes [body ! 0, body ! 1]), c))"

definition client_player_profiles ::
    "profile_codec \<Rightarrow> (bytes \<Rightarrow> 's \<Rightarrow> remote_answer \<times> 's) \<Rightarrow> 's scaffolding_client
      \<Rightarrow> (scaffolding_error + player_profile list) \<times> 's scaffolding_client" where
  "client_player_profiles pc remote c =
    and_then (client_request remote ''c:player_profiles_list'' [] c) (\<lambda>body c.
    and_then (map_err ScJson (pc_list_from pc body), c) (\<lambda>profiles c.
      if list_ex (\<lambda>p. \<not> profile_validate p) profiles
      then (Err (InvalidFrame ''server returned an invalid player profile''), c)
      else (Ok profiles, c)))"

definition send_player_ping ::
    "profile_codec \<Rightarrow> (bytes \<Rightarrow> 's \<Rightarrow> remote_answer \<times> 's) \<Rightarrow> 's scaffolding_client
      \<Rightarrow> (scaffolding_error + unit) \<times> 's scaffolding_client" where
  "send_player_ping pc remote c =
    and_then (map_err ScJson (pc_profile_to pc (cl_profile c)), c) (\<lambda>body c.
    and_then (client_request remote ''c:player_ping'' body c) (\<lambda>_ c. (Ok (), c)))"

text \<open>\<open>started\<close> and \<open>finished\<close> are the readings of the clock around the ping.\<close>

definition heartbeat ::
    "profile_codec \<Rightarrow> (bytes \<Rightarrow> 's \<Rightarrow> remote_answer \<times> 's) \<Rightarrow> nat \<Rightarrow> nat \<Rightarrow> 's scaffolding_client
      \<Rightarrow> (scaffolding_error + heartbeat_result) \<times> 's scaffolding_client" where
  "heartbeat pc remote started finished c =
    and_then (send_player_ping pc remote c) (\<lambda>_ c.
    and_then (client_player_profiles pc remote c) (\<lambda>ps c.
      (Ok \<lparr>latency = finished - started, hb_players = ps\<rparr>, c)))"

definition required_protocols :: "string list" where
  "required_protocols = [''c:server_port'', ''c:player_ping'', ''c:player_profiles_list'']"

definition negotiate_protocols ::
    "(bytes \<Rightarrow> 's \<Rightarrow> remote_answer \<times> 's) \<Rightarrow> 's scaffolding_client
      \<Rightarrow> (scaffolding_error + unit) \<times> 's scaffolding_client" where
  "negotiate_protocols remote c =
    and_then (client_request remote ''c:protocols'' (as_bytes (join [null_char] SUPPORTED_PROTOCOLS)) c) (\<lambda>body c.
      case from_utf8 body of
        None \<Rightarrow> (Err (InvalidFrame ''protocol negotiation response is not valid ASCII''), c)
      | Some s \<Rightarrow>
          (case find (\<lambda>required. required \<notin> set (split_names s)) required_protocols of
             None \<Rightarrow> (Ok (), c)
           | Some required \<Rightarrow>
               (Err (InvalidFrame (''server does not support required protocol '' @ required)), c)))"

text \<open>\<open>connecting\<close> is what \<open>TcpStream::connect\<close> gives (\<open>None\<close> after ten seconds).\<close>

definition client_connect ::
    "profile_codec \<Rightarrow> (bytes \<Rightarrow> 's \<Rightarrow> remote_answer \<times> 's) \<Rightarrow> (io_error + unit) option \<Rightarrow> socket_addr
      \<Rightarrow> player_profile \<Rightarrow> 's \<Rightarrow> (scaffolding_error + 's scaffolding_client) \<times> 's" where
  "client_connect pc remote connecting address profile s =
    (if \<not> is_loopback address
     then (Err (InvalidFrame ''Scaffolding clients must connect through a loopback forward''), s)
     else if \<not> profile_validate profile
     then (Err (InvalidFrame ''player profile contains invalid text''), s)
     else (case connecting of
         None \<Rightarrow> (Err (ScIo (IoError TimedOut ''Scaffolding connection timed out'')), s)
       | Some (Err e) \<Rightarrow> (Err (ScIo e), s)
       | Some (Ok _) \<Rightarrow>
           (case and_then (send_player_ping pc remote \<lparr>cl_profile = profile, cl_rx = [], cl_remote = s\<rparr>)
                   (\<lambda>_ c. negotiate_protocols remote c) of
              (Err e, c) \<Rightarrow> (Err e, cl_remote c)
            | (Ok _, c) \<Rightarrow> (Ok c, cl_remote c))))"

section \<open>The server at the other end\<close>

definition server_remote :: "profile_codec \<Rightarrow> nat \<Rightarrow> bytes \<Rightarrow> server_context \<Rightarrow> remote_answer \<times> server_context" where
  "server_remote pc now bs ctx =
    (case serve_client pc [ServeRequest now] \<lparr>rx = bs, rx_end = None\<rparr> (ctx, fresh_writer) of
      (_, _, ctx', w) \<Rightarrow> (RemoteData (tx w) None, ctx'))"

lemma fresh_open: "open_writer fresh_writer" "tx fresh_writer = []"
  by (simp_all add: fresh_writer_def open_writer_def)

lemma server_remote_answer:
  assumes "request_ok q" "answer_request pc now q ctx = (Ok p, ctx')" "response_ok p"
  shows "server_remote pc now (request_bytes q) ctx = (RemoteData (response_bytes p) None, ctx')"
proof -
  have "read_request \<lparr>rx = request_bytes q, rx_end = None\<rparr> = (Ok q, \<lparr>rx = [], rx_end = None\<rparr>)"
    using read_request_bytes [OF assms(1), of "\<lparr>rx = request_bytes q, rx_end = None\<rparr>" "[]"] by simp
  moreover have "serve_request pc now q (ctx, fresh_writer)
      = (Ok (), ctx', fresh_writer\<lparr>tx := tx fresh_writer @ response_bytes p\<rparr>)"
    using sc_write_response_open [OF fresh_open(1) assms(3)] assms(2) by (simp add: serve_request_def)
  ultimately show ?thesis by (simp add: server_remote_def fresh_open)
qed

text \<open>A request of a client over the server is answered by \<open>answer_request\<close>.\<close>

lemma client_request_served:
  assumes "request_ok q" "cl_rx c = []" "length body \<le> MAX_BODY_LENGTH"
    "answer_request pc now q (cl_remote c) = (Ok \<lparr>resp_status = 0, resp_body = body\<rparr>, ctx)"
  shows "client_request (server_remote pc now) (req_type q) (req_body q) c = (Ok body, c\<lparr>cl_remote := ctx\<rparr>)"
proof -
  let ?p = "\<lparr>resp_status = 0, resp_body = body\<rparr>"
  have ok: "response_ok ?p" using assms(3) by (simp add: response_ok_def)
  have "write_request (req_type q) (req_body q) fresh_writer = (Ok (), fresh_writer\<lparr>tx := request_bytes q\<rparr>)"
    using write_request_open [OF fresh_open(1) assms(1)] by (simp add: fresh_open)
  moreover have "read_response \<lparr>rx = response_bytes ?p, rx_end = None\<rparr> = (Ok ?p, \<lparr>rx = [], rx_end = None\<rparr>)"
    using read_response_bytes [OF ok, of "\<lparr>rx = response_bytes ?p, rx_end = None\<rparr>" "[]"] by simp
  ultimately show ?thesis
    using server_remote_answer [OF assms(1,4) ok] assms(2) by (cases c) (simp add: client_request_def)
qed

section \<open>Properties\<close>

definition sample_profile :: "string \<Rightarrow> player_profile" where
  "sample_profile i = \<lparr>player_name = ''Steve'', machine_id = i, vendor = ''PCL'', player_kind_of = None\<rparr>"

text \<open>A codec that writes a profile as its identifier and a list of profiles as nothing.\<close>

definition sample_profiles :: profile_codec where
  "sample_profiles = \<lparr>pc_profile_from = (\<lambda>bs. Ok (sample_profile (string_of_bytes bs))),
     pc_profile_to = (\<lambda>p. Ok (as_bytes (machine_id p))),
     pc_list_from = (\<lambda>_. Ok []), pc_list_to = (\<lambda>_. Ok [])\<rparr>"

definition sample_context :: server_context where
  "sample_context = \<lparr>ctx_port = 25565, host_machine_id = ''h'',
     players = [(''h'', \<lparr>tp_profile = (sample_profile ''h'')\<lparr>player_kind_of := Some KindHost\<rparr>, last_seen = 0\<rparr>)]\<rparr>"

lemma sample_profile_valid: "profile_validate (sample_profile ''h'')" "profile_validate (sample_profile ''g'')"
  by (simp_all add: sample_profile_def profile_validate_def valid_text_def str_eval)

lemma sample_new_context: "new_server_context 0 (sample_profile ''h'') 25565 = Ok sample_context"
  using sample_profile_valid
  by (simp add: new_server_context_def sample_context_def Let_def) (simp add: sample_profile_def)

text \<open>C14: The registry of the players is consistent whatever requests arrive and whenever the cleanup
  runs: the list it serves starts with the host and its unchanged profile, no other entry is a host
  or has the host's identifier, every other entry is a valid guest, and the guests are in strictly
  ascending order of their identifiers. No guest can overwrite the host, and the host never expires.\<close>

theorem registry_host_first:
  assumes "new_server_context now host port = Ok ctx"
  shows "\<exists>guests. player_profiles (run_ops (registry_step pc) xs ctx) = host\<lparr>player_kind_of := Some KindHost\<rparr> # guests
    \<and> list_all (\<lambda>p. profile_validate p \<and> player_kind_of p = Some KindGuest \<and> machine_id p \<noteq> machine_id host) guests
    \<and> sorted (map machine_id guests) \<and> distinct (map machine_id guests)"
proof -
  let ?h = "host\<lparr>player_kind_of := Some KindHost\<rparr>"
  have "registry_ok ?h (run_ops (registry_step pc) xs ctx)"
    using registry.inv_run [OF registry_ok_new [OF assms]] .
  then show ?thesis
    by (rule player_profiles_host_first) (auto simp: list_all_iff guest_ok_def)
qed

theorem registry_host_first_witness:
  "\<exists>guests. player_profiles (run_ops (registry_step sample_profiles)
      [RegRequest 5 \<lparr>req_type = ''c:player_ping'', req_body = as_bytes ''h''\<rparr>, RegCleanup 99999999999] sample_context)
    = (sample_profile ''h'')\<lparr>player_kind_of := Some KindHost\<rparr> # guests"
  using registry_host_first [OF sample_new_context] by blast

lemma distinct_keys: "distinct (map machine_id ps) \<Longrightarrow> distinct (map player_key ps)"
  by (induction ps) auto

text \<open>The list of players does not depend on the iteration order of the hash map: two registries with
  the same entries in another order serve the same list.\<close>

theorem profiles_order_independent:
  assumes "registry_ok host ctx" "registry_ok host ctx'" "set (players ctx) = set (players ctx')"
  shows "player_profiles ctx = player_profiles ctx'"
proof (rule map_inj_on [of player_key])
  have set: "set (player_profiles ctx) = set (player_profiles ctx')"
    by (simp add: assms(3) set_player_profiles)
  have sorted: "sorted (map player_key (player_profiles c))" for c by (simp add: player_profiles_def)
  show "inj_on player_key (set (player_profiles ctx) \<union> set (player_profiles ctx'))"
    using player_key_inj [OF assms(2)] unfolding set Un_absorb inj_on_def by blast
  show "map player_key (player_profiles ctx) = map player_key (player_profiles ctx')"
    by (rule sorted_distinct_set_unique [OF sorted distinct_keys [OF distinct_player_ids [OF assms(1)]]
          sorted distinct_keys [OF distinct_player_ids [OF assms(2)]]]) (simp only: set_map set)
qed

theorem profiles_order_independent_witness:
  "player_profiles sample_context = player_profiles (sample_context\<lparr>players := rev (players sample_context)\<rparr>)"
proof -
  have "registry_ok ((sample_profile ''h'')\<lparr>player_kind_of := Some KindHost\<rparr>) sample_context"
    by (rule registry_ok_new [OF sample_new_context])
  moreover have "sample_context\<lparr>players := rev (players sample_context)\<rparr> = sample_context"
    by (simp add: sample_context_def)
  ultimately show ?thesis
    using profiles_order_independent [of _ sample_context "sample_context\<lparr>players := rev (players sample_context)\<rparr>"]
    by simp
qed

text \<open>C16: A guest is listed for as long as it should be. After an accepted ping at time \<open>t0\<close> it stays
  in the registry under every request and every cleanup of the following ten seconds; and if
  it does not ping again, a cleanup more than ten seconds later removes it.\<close>

theorem guest_lifetime:
  assumes "registry_ok host ctx" "profile_validate p" "machine_id p \<noteq> machine_id host"
    and "ctx0 = snd (record_guest t0 p ctx)"
  shows "((\<forall>x \<in> set xs. t0 \<le> op_time x \<and> op_time x \<le> t0 + PLAYER_TIMEOUT)
      \<longrightarrow> machine_id p \<in> fst ` set (players (run_ops (registry_step pc) xs ctx0)))
    \<and> ((\<forall>x \<in> set xs. \<not> pings pc (machine_id p) x) \<and> t0 + PLAYER_TIMEOUT < now
      \<longrightarrow> machine_id p \<notin> fst ` set (players (run_ops (registry_step pc) (xs @ [RegCleanup now]) ctx0)))"
proof -
  have ok: "registry_ok host ctx0" unfolding assms(4) by (rule registry_ok_record [OF assms(1)])
  have host: "host_machine_id ctx = machine_id host" using assms(1) by (simp add: registry_ok_def)
  have entry: "map_of (players ctx0) (machine_id p)
      = Some \<lparr>tp_profile = p\<lparr>player_kind_of := Some KindGuest\<rparr>, last_seen = t0\<rparr>"
    using assms(2,3) by (simp add: assms(4) record_guest_lookup host)
  have stays: "machine_id p \<in> fst ` set (players (run_ops (registry_step pc) xs ctx0))"
    if "\<forall>x \<in> set xs. t0 \<le> op_time x \<and> op_time x \<le> t0 + PLAYER_TIMEOUT"
    using guest_stays [OF ok entry _ that, of pc] by (force dest: map_of_SomeD)
  have gone: "machine_id p \<notin> fst ` set (players (run_ops (registry_step pc) (xs @ [RegCleanup now]) ctx0))"
    if "\<forall>x \<in> set xs. \<not> pings pc (machine_id p) x" "t0 + PLAYER_TIMEOUT < now"
    using guest_expires [OF ok assms(3) _ that] entry by simp
  from stays gone show ?thesis by blast
qed

theorem guest_lifetime_witness:
  "''g'' \<in> fst ` set (players (run_ops (registry_step sample_profiles) [RegCleanup 3000]
      (snd (record_guest 1000 (sample_profile ''g'') sample_context))))"
proof -
  let ?h = "(sample_profile ''h'')\<lparr>player_kind_of := Some KindHost\<rparr>"
  have ok: "registry_ok ?h sample_context" by (rule registry_ok_new [OF sample_new_context])
  have "machine_id (sample_profile ''g'') \<noteq> machine_id ?h" by (simp add: sample_profile_def)
  from guest_lifetime [OF ok sample_profile_valid(2) this refl, of "[RegCleanup 3000]" 1000 sample_profiles]
  show ?thesis by (simp add: PLAYER_TIMEOUT_def) (simp add: sample_profile_def)
qed

text \<open>A connection ends: a client can make the server serve at most one request for every six bytes
  it sends, after which the connection has returned.\<close>

theorem connection_ends:
  assumes "length (rx r) < 6 * length ts"
  shows "\<exists>res r' ctx' w'. serve_client pc (map ServeRequest ts) r (ctx, w) = (Some res, r', ctx', w')"
  using serve_client_ends [OF assms, of pc "(ctx, w)"]
  by (cases "serve_client pc (map ServeRequest ts) r (ctx, w)") auto

theorem connection_ends_witness:
  "\<exists>res r' ctx' w'. serve_client sample_profiles (map ServeRequest [1, 2]) \<lparr>rx = [1, 65, 0, 0, 0, 0], rx_end = None\<rparr>
     (sample_context, fresh_writer) = (Some res, r', ctx', w')"
  by (rule connection_ends) simp

lemma u16_be_pair: "u16_from_be_bytes [u16_to_be_bytes w ! 0, u16_to_be_bytes w ! 1] = w"
proof -
  have "[u16_to_be_bytes w ! 0, u16_to_be_bytes w ! 1] = u16_to_be_bytes w"
    by (rule nth_equalityI) (auto simp: less_Suc_eq)
  then show ?thesis by simp
qed

lemma supported_text: "from_utf8 (as_bytes (join [null_char] SUPPORTED_PROTOCOLS)) = Some (join [null_char] SUPPORTED_PROTOCOLS)"
  by (rule from_utf8_ascii_string) (simp add: SUPPORTED_PROTOCOLS_def null_char_def)

lemma supported_split: "split_names (join [null_char] SUPPORTED_PROTOCOLS) = SUPPORTED_PROTOCOLS"
proof -
  have "split_on (\<lambda>c. c = null_char) (join [null_char] SUPPORTED_PROTOCOLS) = SUPPORTED_PROTOCOLS"
    by (rule split_join) (simp_all add: SUPPORTED_PROTOCOLS_def null_char_def)
  then show ?thesis by (simp add: split_names_def) (simp add: SUPPORTED_PROTOCOLS_def)
qed

lemma negotiated_all: "negotiated (as_bytes (join [null_char] SUPPORTED_PROTOCOLS)) = join [null_char] SUPPORTED_PROTOCOLS"
  by (simp add: negotiated_def supported_text supported_split)

text \<open>The types of the requests are well formed.\<close>

lemma known_request_ok:
  "ty \<in> set SUPPORTED_PROTOCOLS \<Longrightarrow> length b \<le> MAX_BODY_LENGTH \<Longrightarrow> request_ok \<lparr>req_type = ty, req_body = b\<rparr>"
  by (auto simp: SUPPORTED_PROTOCOLS_def request_ok_def MAX_TYPE_LENGTH_def as_bytes_def type_byte_def)

lemma send_player_ping_served:
  assumes "cl_rx c = []" "pc_profile_to pc (cl_profile c) = Ok b" "length b \<le> MAX_BODY_LENGTH"
    "pc_profile_from pc b = Ok (cl_profile c)" "record_guest now (cl_profile c) (cl_remote c) = (Ok (), ctx)"
  shows "send_player_ping pc (server_remote pc now) c = (Ok (), c\<lparr>cl_remote := ctx\<rparr>)"
proof -
  have "request_ok \<lparr>req_type = ''c:player_ping'', req_body = b\<rparr>"
    using assms(3) by (intro known_request_ok) (simp_all add: SUPPORTED_PROTOCOLS_def)
  from client_request_served [OF this assms(1), of "[]" pc now ctx] assms(2,4,5) show ?thesis
    by (simp add: send_player_ping_def answer_request_def sc_simps)
qed

lemma negotiate_served:
  assumes "cl_rx c = []"
  shows "negotiate_protocols (server_remote pc now) c = (Ok (), c)"
proof -
  let ?b = "as_bytes (join [null_char] SUPPORTED_PROTOCOLS)"
  have "request_ok \<lparr>req_type = ''c:protocols'', req_body = ?b\<rparr>"
    using supported_length [of "\<lambda>_. True"]
    by (intro known_request_ok) (simp_all add: SUPPORTED_PROTOCOLS_def MAX_BODY_LENGTH_def)
  from client_request_served [OF this assms, of ?b pc now "cl_remote c"] supported_length [of "\<lambda>_. True"]
  have "client_request (server_remote pc now) ''c:protocols'' ?b c = (Ok ?b, c)"
    by (simp add: answer_request_def negotiated_all MAX_BODY_LENGTH_def)
  moreover have "find (\<lambda>required. required \<notin> set SUPPORTED_PROTOCOLS) required_protocols = None"
    by (simp add: required_protocols_def SUPPORTED_PROTOCOLS_def)
  ultimately show ?thesis
    by (simp add: negotiate_protocols_def sc_simps supported_text supported_split)
qed



end
