(* ===== verification/Os_Files.thy ===== *)
theory Os_Files
  imports Rust_Str
begin

text \<open>
  What the program uses of \<open>std::path\<close>, \<open>std::fs\<close> and \<open>std::env\<close>. A path is its text; \<open>windows\<close>
  selects the separators and the drive prefix of the platform (verbatim and UNC prefixes are not
  distinguished). A file system is the contents of its regular files and the permission bits
  the program has set. An operation may fail for a reason outside the program: the argument of type
  \<open>fs_faults\<close> says which, per path, so a theorem over all of them covers every failure.
\<close>

section \<open>Paths\<close>

definition is_sep :: "bool \<Rightarrow> char \<Rightarrow> bool" where
  "is_sep windows c \<longleftrightarrow> c = CHR ''/'' \<or> windows \<and> c = CHR 0x5C"

definition has_drive :: "bool \<Rightarrow> string \<Rightarrow> bool" where
  "has_drive windows p \<longleftrightarrow> windows \<and> 2 \<le> length p \<and> (is_ascii_lower (p ! 0) \<or> is_ascii_upper (p ! 0))
    \<and> p ! 1 = CHR '':''"

text \<open>The length of the prefix and root of a path, which no trimming removes.\<close>

definition root_length :: "bool \<Rightarrow> string \<Rightarrow> nat" where
  "root_length windows p =
    (if has_drive windows p then (if 3 \<le> length p \<and> is_sep windows (p ! 2) then 3 else 2)
     else if p \<noteq> [] \<and> is_sep windows (hd p) then 1 else 0)"

text \<open>\<open>PathBuf::join\<close> with a relative file name.\<close>

definition path_join :: "bool \<Rightarrow> string \<Rightarrow> string \<Rightarrow> string" where
  "path_join windows root name =
    (if root = [] \<or> is_sep windows (last root) \<or> has_drive windows root \<and> length root = 2
     then root @ name
     else root @ (if windows then CHR 0x5C else CHR ''/'') # name)"

text \<open>Trailing separators and trailing \<open>.\<close> components are not components of a path.\<close>

function trim_path :: "bool \<Rightarrow> string \<Rightarrow> string" where
  "trim_path windows p =
    (if length p \<le> root_length windows p then p
     else if is_sep windows (last p) then trim_path windows (butlast p)
     else if last p = CHR ''.'' \<and> 2 \<le> length p \<and> is_sep windows (p ! (length p - 2))
     then trim_path windows (butlast p)
     else p)"
  by pat_completeness auto
termination
  by (relation "measure (\<lambda>(windows, p). length p)") auto

declare trim_path.simps [simp del]

definition path_parent :: "bool \<Rightarrow> string \<Rightarrow> string option" where
  "path_parent windows p =
    (let q = trim_path windows p in
     if length q \<le> root_length windows q then None
     else Some (trim_path windows
            (take (max (root_length windows q) (length (dropWhile (\<lambda>c. \<not> is_sep windows c) (rev q)))) q)))"

section \<open>Files\<close>

record file_system =
  fs_files :: "string \<Rightarrow> bytes option"
  fs_modes :: "string \<Rightarrow> nat option"

text \<open>A failing write leaves the file untouched or cut off after some bytes.\<close>

record fs_faults =
  mkdir_fault :: "string \<Rightarrow> io_error option"
  chmod_fault :: "string \<Rightarrow> io_error option"
  write_fault :: "string \<Rightarrow> (io_error \<times> nat option) option"
  read_fault :: "string \<Rightarrow> io_error option"
  remove_fault :: "string \<Rightarrow> io_error option"

definition no_faults :: fs_faults where
  "no_faults = \<lparr>mkdir_fault = \<lambda>_. None, chmod_fault = \<lambda>_. None, write_fault = \<lambda>_. None,
     read_fault = \<lambda>_. None, remove_fault = \<lambda>_. None\<rparr>"

definition fault_result :: "io_error option \<Rightarrow> io_error + unit" where
  "fault_result x = (case x of None \<Rightarrow> Ok () | Some e \<Rightarrow> Err e)"

definition fs_is_file :: "string \<Rightarrow> file_system \<Rightarrow> bool" where
  "fs_is_file p fs \<longleftrightarrow> fs_files fs p \<noteq> None"

definition create_dir_all :: "fs_faults \<Rightarrow> string \<Rightarrow> io_error + unit" where
  "create_dir_all ff p = fault_result (mkdir_fault ff p)"

definition set_permissions :: "fs_faults \<Rightarrow> string \<Rightarrow> nat \<Rightarrow> file_system \<Rightarrow> (io_error + unit) \<times> file_system" where
  "set_permissions ff p mode fs = (case chmod_fault ff p of
      Some e \<Rightarrow> (Err e, fs)
    | None \<Rightarrow> (Ok (), fs\<lparr>fs_modes := (fs_modes fs)(p := Some mode)\<rparr>))"

definition fs_write :: "fs_faults \<Rightarrow> string \<Rightarrow> bytes \<Rightarrow> file_system \<Rightarrow> (io_error + unit) \<times> file_system" where
  "fs_write ff p body fs = (case write_fault ff p of
      Some (e, None) \<Rightarrow> (Err e, fs)
    | Some (e, Some n) \<Rightarrow> (Err e, fs\<lparr>fs_files := (fs_files fs)(p := Some (take n body))\<rparr>)
    | None \<Rightarrow> (Ok (), fs\<lparr>fs_files := (fs_files fs)(p := Some body)\<rparr>))"

definition fs_read :: "fs_faults \<Rightarrow> string \<Rightarrow> file_system \<Rightarrow> io_error + bytes" where
  "fs_read ff p fs = (case read_fault ff p of
      Some e \<Rightarrow> Err e
    | None \<Rightarrow> ok_or (IoError NotFound ''No such file or directory (os error 2)'') (fs_files fs p))"

definition remove_file :: "fs_faults \<Rightarrow> string \<Rightarrow> file_system \<Rightarrow> (io_error + unit) \<times> file_system" where
  "remove_file ff p fs = (case remove_fault ff p of
      Some e \<Rightarrow> (Err e, fs)
    | None \<Rightarrow>
        if fs_is_file p fs
        then (Ok (), fs\<lparr>fs_files := (fs_files fs)(p := None), fs_modes := (fs_modes fs)(p := None)\<rparr>)
        else (Err (IoError NotFound ''No such file or directory (os error 2)''), fs))"

section \<open>Facts\<close>

lemma path_join_inj: "path_join w root a = path_join w root b \<longleftrightarrow> a = b"
  by (simp add: path_join_def)

lemma root_length_le: "root_length w p \<le> length p"
  by (cases p) (auto simp: root_length_def has_drive_def)

text \<open>Every operation of the file system touches one path.\<close>

lemma fs_frame:
  "q \<noteq> p \<Longrightarrow> fs_files (snd (fs_write ff p body fs)) q = fs_files fs q"
  "q \<noteq> p \<Longrightarrow> fs_files (snd (remove_file ff p fs)) q = fs_files fs q"
  "fs_files (snd (set_permissions ff p mode fs)) = fs_files fs"
  by (auto simp: fs_write_def remove_file_def set_permissions_def split: option.splits)

end
