(* ===== verification/Os_Net.thy ===== *)
theory Os_Net
  imports Socket_Addr Os_Files
begin

text \<open>
  The resources of the operating system that the helper holds: listening TCP sockets, child
  processes, UDP senders, and the files. Every resource is known by the time it was made, a counter
  of the interactions with the system, so identifiers are never reused. A listening socket
  occupies its port on its address: binding the same port on an overlapping address fails with
  \<open>AddrInUse\<close>, also for another socket of this process (\<open>SO_REUSEADDR\<close>, which the runtime sets,
  does not change this for listening sockets). Binding port 0 takes a free port the system chooses.
\<close>

record net_world =
  nw_tick :: nat
  nw_listeners :: "(nat \<times> socket_addr) list"
  nw_processes :: "nat list"
  nw_senders :: "nat list"
  nw_files :: file_system

definition tick :: "net_world \<Rightarrow> net_world" where
  "tick w = w\<lparr>nw_tick := Suc (nw_tick w)\<rparr>"

fun set_port :: "u16 \<Rightarrow> socket_addr \<Rightarrow> socket_addr" where
  "set_port p (SocketV4 a b c d q) = SocketV4 a b c d p"
| "set_port p (SocketV6 segs q scope) = SocketV6 segs p scope"

text \<open>Two addresses on which the same port cannot be listened on twice.\<close>

fun overlap :: "socket_addr \<Rightarrow> socket_addr \<Rightarrow> bool" where
  "overlap (SocketV4 a b c d p) (SocketV4 a' b' c' d' p') \<longleftrightarrow> p = p' \<and>
     ((a, b, c, d) = (a', b', c', d') \<or> (a, b, c, d) = (0, 0, 0, 0) \<or> (a', b', c', d') = (0, 0, 0, 0))"
| "overlap (SocketV6 segs p scope) (SocketV6 segs' p' scope') \<longleftrightarrow> p = p' \<and>
     (segs = segs' \<or> list_all (\<lambda>s. s = 0) segs \<or> list_all (\<lambda>s. s = 0) segs')"
| "overlap _ _ \<longleftrightarrow> False"

definition in_use :: "socket_addr \<Rightarrow> net_world \<Rightarrow> bool" where
  "in_use a w \<longleftrightarrow> list_ex (\<lambda>(i, b). overlap a b) (nw_listeners w)"

definition addr_in_use :: io_error where
  "addr_in_use = IoError AddrInUse ''Address already in use (os error 98)''"

text \<open>The address a socket gets when it is bound.\<close>

definition bound_addr :: "u16 \<Rightarrow> socket_addr \<Rightarrow> socket_addr" where
  "bound_addr free a = (if addr_port a = 0 then set_port free a else a)"

text \<open>\<open>TcpListener::bind\<close>: a failure from outside the process, or the socket and its address.\<close>

definition tcp_bind ::
    "io_error option \<Rightarrow> u16 \<Rightarrow> socket_addr \<Rightarrow> net_world \<Rightarrow> (io_error + nat \<times> socket_addr) \<times> net_world" where
  "tcp_bind fault free a w =
    (let a' = bound_addr free a in
     case fault of
       Some e \<Rightarrow> (Err e, tick w)
     | None \<Rightarrow>
         if addr_port a' = 0 \<or> in_use a' w then (Err addr_in_use, tick w)
         else (Ok (nw_tick w, a'), tick w\<lparr>nw_listeners := nw_listeners w @ [(nw_tick w, a')]\<rparr>))"

definition close_listener :: "nat \<Rightarrow> net_world \<Rightarrow> net_world" where
  "close_listener i w = w\<lparr>nw_listeners := filter (\<lambda>(j, a). j \<noteq> i) (nw_listeners w)\<rparr>"

definition spawn_process :: "net_world \<Rightarrow> nat \<times> net_world" where
  "spawn_process w = (nw_tick w, tick w\<lparr>nw_processes := nw_processes w @ [nw_tick w]\<rparr>)"

definition kill_process :: "nat \<Rightarrow> net_world \<Rightarrow> net_world" where
  "kill_process i w = w\<lparr>nw_processes := filter (\<lambda>j. j \<noteq> i) (nw_processes w)\<rparr>"

definition open_sender :: "net_world \<Rightarrow> nat \<times> net_world" where
  "open_sender w = (nw_tick w, tick w\<lparr>nw_senders := nw_senders w @ [nw_tick w]\<rparr>)"

definition close_sender :: "nat \<Rightarrow> net_world \<Rightarrow> net_world" where
  "close_sender i w = w\<lparr>nw_senders := filter (\<lambda>j. j \<noteq> i) (nw_senders w)\<rparr>"

section \<open>Holding resources\<close>

text \<open>The world holds exactly these resources, in the order they were made, each known by its own time.\<close>

definition holds :: "(nat \<times> socket_addr) list \<Rightarrow> nat list \<Rightarrow> nat list \<Rightarrow> net_world \<Rightarrow> bool" where
  "holds ls ps ss w \<longleftrightarrow> nw_listeners w = ls \<and> nw_processes w = ps \<and> nw_senders w = ss
    \<and> distinct (map fst ls @ ps @ ss) \<and> list_all (\<lambda>i. i < nw_tick w) (map fst ls @ ps @ ss)"

lemma tick_simps [simp]:
  "nw_listeners (tick w) = nw_listeners w" "nw_processes (tick w) = nw_processes w"
  "nw_senders (tick w) = nw_senders w" "nw_files (tick w) = nw_files w" "nw_tick (tick w) = Suc (nw_tick w)"
  by (simp_all add: tick_def)

lemma filter_absent: "i \<notin> set (map fst ls) \<Longrightarrow> filter (\<lambda>(j, a). j \<noteq> i) ls = ls"
  by (induction ls) auto

lemma filter_absent_id: "i \<notin> set xs \<Longrightarrow> filter (\<lambda>j. j \<noteq> i) xs = xs"
  by (induction xs) auto

lemma holds_tick: "holds ls ps ss w \<Longrightarrow> holds ls ps ss (tick w)"
  by (simp add: holds_def list_all_less_Suc)

lemma holds_files [simp]: "holds ls ps ss (w\<lparr>nw_files := fs\<rparr>) = holds ls ps ss w"
  by (simp add: holds_def)

lemma holds_fresh: "holds ls ps ss w \<Longrightarrow> nw_tick w \<notin> set (map fst ls @ ps @ ss)"
  by (rule list_all_less_notin) (simp add: holds_def)

lemma bind_outcome:
  assumes "holds ls ps ss w"
  shows "ensures (holds ls ps ss)
    (\<lambda>(i, b) w'. holds (ls @ [(i, b)]) ps ss w' \<and> addr_port b \<noteq> 0 \<and> b = bound_addr free a \<and> \<not> in_use b w)
    (tcp_bind fault free a w)"
proof -
  have "holds (ls @ [(nw_tick w, b)]) ps ss (tick w\<lparr>nw_listeners := nw_listeners w @ [(nw_tick w, b)]\<rparr>)" for b
    using assms holds_fresh [OF assms] by (simp add: holds_def list_all_less_Suc)
  with assms show ?thesis
    by (auto simp: tcp_bind_def Let_def holds_tick split: option.splits)
qed

text \<open>What is released is gone and nothing else is.\<close>

lemma close_holds: "holds ls ps ss w \<Longrightarrow> holds (filter (\<lambda>(j, a). j \<noteq> i) ls) ps ss (close_listener i w)"
proof -
  assume h: "holds ls ps ss w"
  let ?f = "filter (\<lambda>(j, a). j \<noteq> i) ls"
  have sub: "set (map fst ?f) \<subseteq> set (map fst ls)" by auto
  have "distinct (map fst ?f @ ps @ ss)"
    using h sub distinct_map_filter [of fst ls "\<lambda>(j, a). j \<noteq> i"] unfolding holds_def distinct_append by blast
  moreover have "list_all (\<lambda>j. j < nw_tick w) (map fst ?f @ ps @ ss)"
    using h sub unfolding holds_def list_all_iff set_append by blast
  ultimately show ?thesis using h by (simp add: holds_def close_listener_def)
qed

lemma close_last: "holds (ls @ [(i, a)]) ps ss w \<Longrightarrow> holds ls ps ss (close_listener i w)"
  using close_holds [of "ls @ [(i, a)]" ps ss w i] filter_absent [of i ls] by (simp add: holds_def)

lemma close_all:
  "holds ls ps ss w \<Longrightarrow> set (map fst ls) \<subseteq> set is \<Longrightarrow> holds [] ps ss (fold close_listener is w)"
proof (induction "is" arbitrary: ls w)
  case (Cons i "is")
  have "holds (filter (\<lambda>(j, a). j \<noteq> i) ls) ps ss (close_listener i w)" by (rule close_holds [OF Cons.prems(1)])
  moreover have "set (map fst (filter (\<lambda>(j, a). j \<noteq> i) ls)) \<subseteq> set is" using Cons.prems(2) by auto
  ultimately show ?case using Cons.IH by simp
qed simp

lemma spawn_holds: "holds ls ps ss w \<Longrightarrow> spawn_process w = (i, w') \<Longrightarrow> holds ls (ps @ [i]) ss w'"
  using holds_fresh [of ls ps ss w] by (auto simp: holds_def spawn_process_def list_all_less_Suc)

lemma kill_holds: "holds ls ps ss w \<Longrightarrow> holds ls (filter (\<lambda>j. j \<noteq> i) ps) ss (kill_process i w)"
  by (auto simp: holds_def kill_process_def list_all_iff)

lemma kill_last: "holds ls (ps @ [i]) ss w \<Longrightarrow> holds ls ps ss (kill_process i w)"
  using kill_holds [of ls "ps @ [i]" ss w i] filter_absent_id [of i ps] by (simp add: holds_def)

lemma sender_holds: "holds ls ps ss w \<Longrightarrow> open_sender w = (i, w') \<Longrightarrow> holds ls ps (ss @ [i]) w'"
  using holds_fresh [of ls ps ss w] by (auto simp: holds_def open_sender_def list_all_less_Suc)

lemma close_sender_holds: "holds ls ps ss w \<Longrightarrow> holds ls ps (filter (\<lambda>j. j \<noteq> i) ss) (close_sender i w)"
  by (auto simp: holds_def close_sender_def list_all_iff)

end
