(* ===== verification/Scaffolding_Listener.thy ===== *)
theory Scaffolding_Listener
  imports Scaffolding_Client Os_Net
begin

text \<open>
  \<open>ScaffoldingServer\<close> of \<open>scaffolding/server.rs\<close>: binding, and the loop that accepts connections,
  runs their tasks beside each other, cleans the registry up and stops on shutdown. The events of
  the loop and of the tasks come in any order; every task takes its turns on the shared
  registry.
\<close>

section \<open>Binding\<close>

record scaffolding_server =
  srv_listener :: nat
  srv_local_addr :: socket_addr
  srv_context :: server_context

definition server_bind ::
    "io_error option \<Rightarrow> u16 \<Rightarrow> socket_addr \<Rightarrow> server_context \<Rightarrow> net_world
      \<Rightarrow> (scaffolding_error + scaffolding_server) \<times> net_world" where
  "server_bind fault free address context w =
    (if \<not> is_loopback address
     then (Err (InvalidFrame ''Scaffolding server must bind to a loopback address''), w)
     else and_then (err_map ScIo (tcp_bind fault free address w)) (\<lambda>(l, a) w.
       (Ok \<lparr>srv_listener = l, srv_local_addr = a, srv_context = context\<rparr>, w)))"

text \<open>\<open>fault\<close> is the error of the socket's \<open>local_addr\<close>, if any.\<close>

definition server_local_addr :: "io_error option \<Rightarrow> scaffolding_server \<Rightarrow> io_error + socket_addr" where
  "server_local_addr fault server = (case fault of Some e \<Rightarrow> Err e | None \<Rightarrow> Ok (srv_local_addr server))"

lemma server_bind_outcome:
  assumes "holds ls ps ss w"
  shows "ensures (holds ls ps ss)
    (\<lambda>server w'. holds (ls @ [(srv_listener server, srv_local_addr server)]) ps ss w' \<and> is_loopback address
        \<and> addr_port (srv_local_addr server) \<noteq> 0 \<and> srv_local_addr server = bound_addr free address
        \<and> srv_context server = context) (server_bind fault free address context w)"
proof (cases "is_loopback address")
  case True
  then show ?thesis unfolding server_bind_def
    by (auto intro!: ensures_and_then [where R' = "\<lambda>(i, b) w'. holds (ls @ [(i, b)]) ps ss w' \<and> addr_port b \<noteq> 0
        \<and> b = bound_addr free address \<and> \<not> in_use b w"] bind_outcome [OF assms])
qed (simp add: server_bind_def assms)

section \<open>The loop\<close>

text \<open>
  The connections that are being served, each with what it will receive and what it has sent. A
  task whose connection ended is gone: its result is only logged. Returning from the loop aborts
  the tasks.
\<close>

record server_state =
  sv_context :: server_context
  sv_clients :: "(reader \<times> writer) list"

datatype server_event =
    Accepted "io_error + reader \<times> writer"
  | CleanupTick nat
  | ShutdownChanged bool
  | ClientTurn nat serve_turn

definition client_turn :: "profile_codec \<Rightarrow> nat \<Rightarrow> serve_turn \<Rightarrow> server_state \<Rightarrow> server_state" where
  "client_turn pc i turn s =
    (if i < length (sv_clients s) then
       (case sv_clients s ! i of (r, w) \<Rightarrow>
         (case serve_client pc [turn] r (sv_context s, w) of
            (None, r', ctx, w') \<Rightarrow> s\<lparr>sv_context := ctx, sv_clients := (sv_clients s)[i := (r', w')]\<rparr>
          | (Some _, _, ctx, _) \<Rightarrow>
              s\<lparr>sv_context := ctx, sv_clients := take i (sv_clients s) @ drop (Suc i) (sv_clients s)\<rparr>))
     else s)"

fun server_run ::
    "profile_codec \<Rightarrow> server_event list \<Rightarrow> server_state \<Rightarrow> (scaffolding_error + unit) option \<times> server_state" where
  "server_run pc [] s = (None, s)"
| "server_run pc (Accepted (Err e) # evs) s = (Some (Err (ScIo e)), s\<lparr>sv_clients := []\<rparr>)"
| "server_run pc (Accepted (Ok c) # evs) s = server_run pc evs (s\<lparr>sv_clients := sv_clients s @ [c]\<rparr>)"
| "server_run pc (CleanupTick now # evs) s =
    server_run pc evs (s\<lparr>sv_context := remove_stale_guests now (sv_context s)\<rparr>)"
| "server_run pc (ShutdownChanged stop # evs) s =
    (if stop then (Some (Ok ()), s\<lparr>sv_clients := []\<rparr>) else server_run pc evs s)"
| "server_run pc (ClientTurn i turn # evs) s = server_run pc evs (client_turn pc i turn s)"

section \<open>The loop works on the registry by its operations\<close>

lemma serve_request_registry: "fst (snd (serve_request pc now q (ctx, w))) = snd (answer_request pc now q ctx)"
  by (auto simp: serve_request_def split: prod.splits sum.splits)

lemma serve_turn_registry:
  "\<exists>ops. fst (snd (snd (serve_client pc [turn] r (ctx, w)))) = run_ops (registry_step pc) ops ctx \<and> length ops \<le> 1"
proof (cases turn)
  case (ServeRequest now)
  obtain x r' where x: "read_request r = (x, r')" by (rule prod.exhaust)
  show ?thesis
  proof (cases x)
    case (Inl e)
    with x ServeRequest show ?thesis by (intro exI [of _ "[]"]) simp
  next
    case (Inr q)
    obtain y c w' where y: "serve_request pc now q (ctx, w) = (y, c, w')" by (rule prod_cases3)
    have "fst (snd (snd (serve_client pc [turn] r (ctx, w)))) = c"
      using x y Inr ServeRequest by (cases y) simp_all
    with serve_request_registry [of pc now q ctx w] y show ?thesis
      by (intro exI [of _ "[RegRequest now q]"]) simp
  qed
next
  case (ServeShutdown stop n)
  then show ?thesis by (intro exI [of _ "[]"]) simp
qed

lemma client_turn_registry:
  "\<exists>ops. sv_context (client_turn pc i turn s) = run_ops (registry_step pc) ops (sv_context s) \<and> length ops \<le> 1"
proof (cases "i < length (sv_clients s)")
  case True
  obtain r w where c: "sv_clients s ! i = (r, w)" by (rule prod.exhaust)
  obtain y r' ctx w' where y: "serve_client pc [turn] r (sv_context s, w) = (y, r', ctx, w')" by (rule prod_cases4)
  have "sv_context (client_turn pc i turn s) = ctx"
    using True c y by (cases y) (simp_all add: client_turn_def)
  with serve_turn_registry [of pc turn r "sv_context s" w] y show ?thesis by simp
next
  case False
  then show ?thesis by (intro exI [of _ "[]"]) (simp add: client_turn_def)
qed

lemma server_run_registry:
  "\<exists>ops. sv_context (snd (server_run pc evs s)) = run_ops (registry_step pc) ops (sv_context s)
    \<and> length ops \<le> length evs"
proof (induction pc evs s rule: server_run.induct)
  case (4 pc now evs s)
  then obtain ops where "sv_context (snd (server_run pc (CleanupTick now # evs) s))
      = run_ops (registry_step pc) ops (remove_stale_guests now (sv_context s))" "length ops \<le> length evs"
    by auto
  then show ?case by (intro exI [of _ "RegCleanup now # ops"]) simp
next
  case (6 pc i turn evs s)
  then obtain ops where ops: "sv_context (snd (server_run pc (ClientTurn i turn # evs) s))
      = run_ops (registry_step pc) ops (sv_context (client_turn pc i turn s))" "length ops \<le> length evs"
    by auto
  obtain first where "sv_context (client_turn pc i turn s) = run_ops (registry_step pc) first (sv_context s)"
    "length first \<le> 1" using client_turn_registry by blast
  with ops show ?case by (intro exI [of _ "first @ ops"]) (simp add: run_ops_append)
qed (auto intro: exI [of _ "[]"] le_SucI)

definition stops_server :: "server_event \<Rightarrow> bool" where
  "stops_server ev = (case ev of ShutdownChanged stop \<Rightarrow> stop | Accepted (Err e) \<Rightarrow> True | _ \<Rightarrow> False)"

lemma server_run_ends:
  "fst (server_run pc evs s) = None \<longleftrightarrow> list_all (\<lambda>ev. \<not> stops_server ev) evs"
  "fst (server_run pc evs s) \<noteq> None \<Longrightarrow> sv_clients (snd (server_run pc evs s)) = []"
  by (induction pc evs s rule: server_run.induct) (auto simp: stops_server_def split: if_splits)



end
