(* ===== verification/Windows_Api.thy ===== *)
theory Windows_Api
  imports Rust_Str
begin

text \<open>
  What the Windows parts of the helper use: strings of 16-bit units (\<open>str::encode_utf16\<close>,
  \<open>String::from_utf16_lossy\<close>, text that ends at a zero unit), and the two kinds of resources that the
  Win32 interface hands out, handles and blocks of local memory. A resource is known by a
  number that is never reused. Releasing what is not held, or reading past a block, is undefined
  behaviour of the program and is recorded as a fault.
\<close>

section \<open>UTF-16\<close>

definition utf16_of :: "nat \<Rightarrow> u16 list" where
  "utf16_of p = (if p < 0x10000 then [word_of_nat p]
     else [word_of_nat (0xD800 + (p - 0x10000) div 0x400), word_of_nat (0xDC00 + (p - 0x10000) mod 0x400)])"

definition encode_utf16 :: "string \<Rightarrow> u16 list" where
  "encode_utf16 s = concat (map (\<lambda>ch. utf16_of (code_point ch)) (chars s))"

fun decode_utf16 :: "u16 list \<Rightarrow> nat list" where
  "decode_utf16 [] = []"
| "decode_utf16 [u] = [if 0xD800 \<le> unat u \<and> unat u < 0xE000 then 0xFFFD else unat u]"
| "decode_utf16 (u # v # us) =
    (if unat u < 0xD800 \<or> 0xE000 \<le> unat u then unat u # decode_utf16 (v # us)
     else if 0xDC00 \<le> unat u \<or> unat v < 0xDC00 \<or> 0xE000 \<le> unat v then 0xFFFD # decode_utf16 (v # us)
     else (0x10000 + (unat u - 0xD800) * 0x400 + (unat v - 0xDC00)) # decode_utf16 us)"

definition utf8_of :: "nat \<Rightarrow> string" where
  "utf8_of p =
    (if p < 0x80 then [char_of p]
     else if p < 0x800 then [char_of (0xC0 + p div 0x40), char_of (0x80 + p mod 0x40)]
     else if p < 0x10000 then [char_of (0xE0 + p div 0x1000), char_of (0x80 + p div 0x40 mod 0x40), char_of (0x80 + p mod 0x40)]
     else [char_of (0xF0 + p div 0x40000), char_of (0x80 + p div 0x1000 mod 0x40), char_of (0x80 + p div 0x40 mod 0x40),
           char_of (0x80 + p mod 0x40)])"

definition from_utf16_lossy :: "u16 list \<Rightarrow> string" where
  "from_utf16_lossy us = concat (map utf8_of (decode_utf16 us))"

text \<open>A Unicode scalar value.\<close>

definition scalar :: "nat \<Rightarrow> bool" where
  "scalar p \<longleftrightarrow> p < 0xD800 \<or> 0xE000 \<le> p \<and> p < 0x110000"

lemma unat_u16: "n < 0x10000 \<Longrightarrow> unat (word_of_nat n :: u16) = n"
  by (simp add: unat_of_nat)

lemma decode_encode_one:
  assumes "scalar p" shows "decode_utf16 (utf16_of p @ us) = p # decode_utf16 us"
proof (cases "p < 0x10000")
  case True
  with assms show ?thesis by (cases us) (auto simp: utf16_of_def scalar_def unat_u16)
next
  case False
  let ?q = "p - 0x10000"
  let ?u = "word_of_nat (0xD800 + ?q div 0x400) :: u16" and ?v = "word_of_nat (0xDC00 + ?q mod 0x400) :: u16"
  have q: "?q div 0x400 < 0x400" "?q mod 0x400 < 0x400" using assms False by (auto simp: scalar_def)
  have "unat ?u = 0xD800 + ?q div 0x400" by (rule unat_u16) (use q in simp)
  moreover have "unat ?v = 0xDC00 + ?q mod 0x400" by (rule unat_u16) (use q in simp)
  moreover have "0x10000 + (?q div 0x400) * 0x400 + ?q mod 0x400 = p" using False by (simp add: div_mult_mod_eq)
  moreover have "decode_utf16 (u # v # us) = (0x10000 + (unat u - 0xD800) * 0x400 + (unat v - 0xDC00)) # decode_utf16 us"
    if "0xD800 \<le> unat u" "unat u < 0xDC00" "0xDC00 \<le> unat v" "unat v < 0xE000" for u v :: u16
    using that by simp
  ultimately have "decode_utf16 (?u # ?v # us) = p # decode_utf16 us" using q by (simp del: of_nat_add decode_utf16.simps)
  moreover have "utf16_of p @ us = ?u # ?v # us" using False by (simp add: utf16_of_def)
  ultimately show ?thesis by (simp only:)
qed

lemma utf16_round_trip: "list_all scalar ps \<Longrightarrow> decode_utf16 (concat (map utf16_of ps)) = ps"
  by (induction ps) (simp_all add: decode_encode_one)

text \<open>ASCII text is the same in all three encodings.\<close>

definition ascii :: "string \<Rightarrow> bool" where
  "ascii s \<longleftrightarrow> list_all (\<lambda>c. code c < 128) s"

lemma encode_ascii: "ascii s \<Longrightarrow> encode_utf16 s = map (\<lambda>c. word_of_nat (code c)) s"
proof -
  assume a: "ascii s"
  have "utf16_of (code c) = [word_of_nat (code c)]" if "c \<in> set s" for c
    using a that by (auto simp: ascii_def list_all_iff utf16_of_def)
  then have "concat (map (\<lambda>c. utf16_of (code c)) s) = map (\<lambda>c. word_of_nat (code c)) s"
    by (induction s) auto
  with a show ?thesis by (simp add: encode_utf16_def chars_ascii ascii_def comp_def)
qed

lemma lossy_ascii: "ascii s \<Longrightarrow> from_utf16_lossy (encode_utf16 s) = s"
proof -
  assume a: "ascii s"
  have s: "list_all scalar (map code s)" using a by (auto simp: ascii_def list_all_iff scalar_def)
  have "encode_utf16 s = concat (map utf16_of (map code s))"
    using a by (simp add: encode_utf16_def chars_ascii ascii_def comp_def)
  with utf16_round_trip [OF s] have "decode_utf16 (encode_utf16 s) = map code s" by simp
  moreover have "concat (map (\<lambda>c. utf8_of (code c)) s) = s"
    using a by (induction s) (auto simp: ascii_def utf8_of_def)
  ultimately show ?thesis by (simp add: from_utf16_lossy_def comp_def)
qed

lemma encode_ascii_nonzero:
  "ascii s \<Longrightarrow> list_all (\<lambda>c. c \<noteq> CHR 0x00) s \<Longrightarrow> 0 \<notin> set (encode_utf16 s)"
proof
  assume a: "ascii s" "list_all (\<lambda>c. c \<noteq> CHR 0x00) s" and "0 \<in> set (encode_utf16 s)"
  then obtain c where c: "c \<in> set s" "word_of_nat (code c) = (0 :: u16)" by (auto simp: encode_ascii)
  from a c have "code c < 0x10000" by (auto simp: ascii_def list_all_iff)
  then have "code c = 0" using unat_u16 [of "code c"] unfolding c(2) by simp
  moreover have "c = char_of (code c)" by simp
  ultimately have "c = char_of (0 :: nat)" by simp
  also have "\<dots> = CHR 0x00" by (simp add: char_of_def)
  finally have "c = CHR 0x00" .
  with a c show False by (auto simp: list_all_iff)
qed

section \<open>Zero-terminated text\<close>

text \<open>\<open>while *p.add(n) != 0 { n += 1 }\<close> over a block: None when it leaves the block.\<close>

fun wide_text :: "u16 list \<Rightarrow> u16 list option" where
  "wide_text [] = None"
| "wide_text (u # us) = (if u = 0 then Some [] else map_option (Cons u) (wide_text us))"

lemma wide_text_terminated: "0 \<notin> set us \<Longrightarrow> wide_text (us @ 0 # rest) = Some us"
  by (induction us) auto

section \<open>Handles, pipes and local memory\<close>

text \<open>
  A named pipe as it was made: the options of the \<open>ServerOptions\<close>, and of the security attributes the text of
  the descriptor they point to and whether the handle is inherited. A security descriptor is a block of local
  memory; its contents are the text that it was converted from.
\<close>

record pipe_options =
  po_first_pipe_instance :: bool
  po_reject_remote_clients :: bool
  po_max_instances :: nat

record named_pipe =
  np_name :: string
  np_options :: pipe_options
  np_descriptor :: "u16 list"
  np_inherit :: bool

record win_world =
  ww_next :: nat
  ww_handles :: "nat list"
  ww_pipes :: "(nat \<times> named_pipe) list"
  ww_blocks :: "(nat \<times> u16 list) list"
  ww_fault :: bool

definition new_handle :: "win_world \<Rightarrow> nat \<times> win_world" where
  "new_handle w = (ww_next w, w\<lparr>ww_next := Suc (ww_next w), ww_handles := ww_handles w @ [ww_next w]\<rparr>)"

definition new_pipe :: "named_pipe \<Rightarrow> win_world \<Rightarrow> nat \<times> win_world" where
  "new_pipe np w = (case new_handle w of (h, w') \<Rightarrow> (h, w'\<lparr>ww_pipes := ww_pipes w' @ [(h, np)]\<rparr>))"

definition fault :: "win_world \<Rightarrow> win_world" where
  "fault w = w\<lparr>ww_fault := True\<rparr>"

definition close_handle :: "nat \<Rightarrow> win_world \<Rightarrow> win_world" where
  "close_handle h w =
    (if h \<in> set (ww_handles w)
     then w\<lparr>ww_handles := filter (\<lambda>i. i \<noteq> h) (ww_handles w), ww_pipes := filter (\<lambda>p. fst p \<noteq> h) (ww_pipes w)\<rparr>
     else fault w)"

definition local_alloc :: "u16 list \<Rightarrow> win_world \<Rightarrow> nat \<times> win_world" where
  "local_alloc contents w =
    (ww_next w, w\<lparr>ww_next := Suc (ww_next w), ww_blocks := ww_blocks w @ [(ww_next w, contents)]\<rparr>)"

definition local_free :: "nat \<Rightarrow> win_world \<Rightarrow> win_world" where
  "local_free p w =
    (if p \<in> fst ` set (ww_blocks w) then w\<lparr>ww_blocks := filter (\<lambda>b. fst b \<noteq> p) (ww_blocks w)\<rparr> else fault w)"

text \<open>Exactly these resources are held and nothing undefined has happened.\<close>

definition win_holds :: "nat list \<Rightarrow> (nat \<times> named_pipe) list \<Rightarrow> (nat \<times> u16 list) list \<Rightarrow> win_world \<Rightarrow> bool" where
  "win_holds hs ps bs w \<longleftrightarrow> ww_handles w = hs \<and> ww_pipes w = ps \<and> ww_blocks w = bs \<and> \<not> ww_fault w
    \<and> distinct hs \<and> distinct (map fst bs) \<and> list_all (\<lambda>p. fst p \<in> set hs) ps
    \<and> list_all (\<lambda>i. i < ww_next w) hs \<and> list_all (\<lambda>i. i < ww_next w) (map fst bs)"

lemma win_fresh:
  assumes "win_holds hs ps bs w" shows "ww_next w \<notin> set hs" "ww_next w \<notin> set (map fst bs)"
  using assms list_all_less_notin [of "ww_next w"] unfolding win_holds_def by blast+

lemma new_handle_holds:
  assumes "win_holds hs ps bs w" shows "case new_handle w of (h, w') \<Rightarrow> win_holds (hs @ [h]) ps bs w' \<and> h \<notin> set hs"
proof -
  have "list_all (\<lambda>p. fst p \<in> set (hs @ [n])) ps" for n using assms by (auto simp: win_holds_def list_all_iff)
  with assms win_fresh [OF assms] show ?thesis
    by (simp add: win_holds_def new_handle_def list_all_less_Suc)
qed

lemma new_pipe_holds:
  assumes "win_holds hs ps bs w"
  shows "case new_pipe np w of (h, w') \<Rightarrow> win_holds (hs @ [h]) (ps @ [(h, np)]) bs w' \<and> h \<notin> set hs"
  using new_handle_holds [OF assms] by (simp add: new_pipe_def win_holds_def split: prod.splits)

lemma local_alloc_holds:
  assumes "win_holds hs ps bs w"
  shows "case local_alloc c w of (p, w') \<Rightarrow> win_holds hs ps (bs @ [(p, c)]) w' \<and> p \<notin> set (map fst bs)"
  using assms win_fresh [OF assms] by (simp add: win_holds_def local_alloc_def list_all_less_Suc)

text \<open>Closing one of the handles, also when others were opened after it, and freeing the last block.\<close>

lemma close_handle_holds:
  assumes "win_holds hs ps bs w" "h \<in> set hs"
  shows "win_holds (filter (\<lambda>i. i \<noteq> h) hs) (filter (\<lambda>p. fst p \<noteq> h) ps) bs (close_handle h w)"
  using assms by (auto simp: win_holds_def close_handle_def list_all_iff)

lemma filter_fresh: "h \<notin> f ` set xs \<Longrightarrow> filter (\<lambda>x. f x \<noteq> h) xs = xs"
  by (auto simp: filter_id_conv)

lemma close_last_handle:
  assumes "win_holds (hs @ [h]) ps bs w" "list_all (\<lambda>p. fst p \<in> set hs) ps" shows "win_holds hs ps bs (close_handle h w)"
proof -
  have "h \<notin> set hs" using assms(1) by (simp add: win_holds_def)
  with assms(2) have "filter (\<lambda>i. i \<noteq> h) hs = hs" "filter (\<lambda>p. fst p \<noteq> h) ps = ps"
    by (auto simp: filter_id_conv list_all_iff)
  with close_handle_holds [OF assms(1), of h] show ?thesis by simp
qed

lemma free_last:
  assumes "win_holds hs ps (bs @ [(p, c)]) w" shows "win_holds hs ps bs (local_free p w)"
proof -
  have "filter (\<lambda>b. fst b \<noteq> p) bs = bs" by (rule filter_fresh) (use assms in \<open>auto simp: win_holds_def\<close>)
  with assms show ?thesis by (auto simp: win_holds_def local_free_def)
qed

end
