(* ===== verification/Parent_Guard.thy ===== *)
theory Parent_Guard
  imports Bootstrap_Cli Windows_Api
begin

text \<open>
  The guard that watches the parent, \<open>platform/parent.rs\<close>, on both platforms. On Unix the parent is known by its
  number and \<open>kill(pid, 0)\<close> tells whether it is alive; on Windows the guard owns a handle of the process, which is
  asked with \<open>WaitForSingleObject(handle, 0)\<close>. Both wait by asking every half second, so they share
  the facts about a loop that polls. What the system answers is an argument.
\<close>

section \<open>Loops that poll\<close>

text \<open>
  \<open>poll t\<close> is the result of the \<open>t\<close>-th question if it ends the loop, and \<open>wait t\<close> the result of the loop that starts
  with that question: None when it never ends.
\<close>

locale poll_loop =
  fixes poll :: "nat \<Rightarrow> 'r option" and wait :: "nat \<Rightarrow> 'r option"
  assumes unroll: "wait t = (case poll t of Some r \<Rightarrow> Some r | None \<Rightarrow> wait (Suc t))"
    and productive: "wait t = Some r \<Longrightarrow> \<exists>n\<ge>t. poll n \<noteq> None"
begin

lemma skip: "t \<le> n \<Longrightarrow> list_all (\<lambda>m. poll m = None) [t..<n] \<Longrightarrow> wait t = wait n"
proof (induction "n - t" arbitrary: t)
  case (Suc k)
  then have "[t..<n] = t # [Suc t..<n]" by (simp add: upt_conv_Cons)
  with Suc have "poll t = None" "wait (Suc t) = wait n" by simp_all
  then show ?case by (simp add: unroll [of t])
qed simp

lemma first:
  assumes "t \<le> n" "poll n \<noteq> None"
  obtains m where "t \<le> m" "list_all (\<lambda>i. poll i = None) [t..<m]" "poll m \<noteq> None"
proof -
  have "\<exists>n. t \<le> n \<and> poll n \<noteq> None" using assms by blast
  then obtain m where m: "t \<le> m \<and> poll m \<noteq> None" and least: "\<forall>i<m. \<not> (t \<le> i \<and> poll i \<noteq> None)"
    unfolding exists_least_iff [of "\<lambda>n. t \<le> n \<and> poll n \<noteq> None"] by blast
  from least have "list_all (\<lambda>i. poll i = None) [t..<m]" by (auto simp: list_all_iff)
  with m show ?thesis using that by blast
qed

lemma returns: "wait t = Some r \<longleftrightarrow> (\<exists>n\<ge>t. list_all (\<lambda>m. poll m = None) [t..<n] \<and> poll n = Some r)"
proof
  assume r: "wait t = Some r"
  then obtain n where "t \<le> n" "poll n \<noteq> None" using productive by blast
  then obtain m where m: "t \<le> m" "list_all (\<lambda>i. poll i = None) [t..<m]" "poll m \<noteq> None" by (rule first)
  with skip r have "wait m = Some r" by simp
  with m show "\<exists>n\<ge>t. list_all (\<lambda>m. poll m = None) [t..<n] \<and> poll n = Some r" by (auto simp: unroll [of m])
next
  assume "\<exists>n\<ge>t. list_all (\<lambda>m. poll m = None) [t..<n] \<and> poll n = Some r"
  then show "wait t = Some r" using skip unroll by force
qed

lemma diverges: "wait t = None \<longleftrightarrow> (\<forall>n\<ge>t. poll n = None)"
proof
  assume none: "wait t = None"
  show "\<forall>n\<ge>t. poll n = None"
  proof (rule ccontr)
    assume "\<not> (\<forall>n\<ge>t. poll n = None)"
    then obtain n where "t \<le> n" "poll n \<noteq> None" by blast
    then obtain m where m: "t \<le> m" "list_all (\<lambda>i. poll i = None) [t..<m]" "poll m \<noteq> None" by (rule first)
    have "wait t = wait m" by (rule skip [OF m(1,2)])
    moreover obtain r where "poll m = Some r" using m(3) by blast
    ultimately show False using none by (simp add: unroll [of m])
  qed
next
  assume "\<forall>n\<ge>t. poll n = None"
  with productive [of t] show "wait t = None" by (cases "wait t") auto
qed

end

section \<open>Unix\<close>

text \<open>\<open>kill(pid, 0)\<close>: success, or an error number with its message.\<close>

datatype kill_outcome = KillOk | KillErrno int string

definition EPERM :: int where "EPERM = 1"

definition ESRCH :: int where "ESRCH = 3"

definition is_unix_process_alive :: "kill_outcome \<Rightarrow> helper_error + bool" where
  "is_unix_process_alive k = (case k of
      KillOk \<Rightarrow> Ok True
    | KillErrno n text \<Rightarrow>
        if n = EPERM then Ok True else if n = ESRCH then Ok False else Err (HelperParent text))"

text \<open>\<open>kill t\<close> is the outcome of the \<open>t\<close>-th call.\<close>

definition attach :: "(nat \<Rightarrow> kill_outcome) \<Rightarrow> u32 \<Rightarrow> helper_error + int" where
  "attach kill pid =
    (if 2 ^ 31 \<le> uint pid then Err (HelperParent ''parent PID is out of range'')
     else try_bind (is_unix_process_alive (kill 0)) (\<lambda>alive.
       if \<not> alive then Err (HelperParent ''parent process is not running'') else Ok (uint pid)))"

partial_function (option) wait_for_exit :: "(nat \<Rightarrow> kill_outcome) \<Rightarrow> nat \<Rightarrow> (helper_error + unit) option" where
  "wait_for_exit kill t = (case is_unix_process_alive (kill t) of
      Err e \<Rightarrow> Some (Err e)
    | Ok alive \<Rightarrow> if \<not> alive then Some (Ok ()) else wait_for_exit kill (Suc t))"

section \<open>Windows\<close>

text \<open>The values of \<open>WaitForSingleObject\<close>.\<close>

definition WAIT_OBJECT_0 :: u32 where "WAIT_OBJECT_0 = 0"

definition WAIT_TIMEOUT :: u32 where "WAIT_TIMEOUT = 258"

definition WAIT_FAILED :: u32 where "WAIT_FAILED = 0xFFFFFFFF"

text \<open>
  \<open>OpenProcess\<close> gives a handle or null with an error; the \<open>t\<close>-th question gives a value, and
  \<open>last_os_error().to_string()\<close> after it.
\<close>

record process_api =
  pa_open :: "u32 \<Rightarrow> io_error option"
  pa_wait :: "nat \<Rightarrow> u32"
  pa_wait_error :: "nat \<Rightarrow> string"

definition attach_windows :: "process_api \<Rightarrow> u32 \<Rightarrow> win_world \<Rightarrow> (helper_error + nat) \<times> win_world" where
  "attach_windows api pid w = (case pa_open api pid of
      Some e \<Rightarrow> (Err (HelperParent (io_message e)), w)
    | None \<Rightarrow> (case new_handle w of (handle, w) \<Rightarrow> (Ok handle, w)))"

partial_function (option) wait_windows :: "process_api \<Rightarrow> nat \<Rightarrow> (helper_error + unit) option" where
  "wait_windows api t =
    (if pa_wait api t = WAIT_OBJECT_0 then Some (Ok ())
     else if pa_wait api t = WAIT_TIMEOUT then wait_windows api (Suc t)
     else if pa_wait api t = WAIT_FAILED then Some (Err (HelperParent (pa_wait_error api t)))
     else Some (Err (HelperParent (''WaitForSingleObject returned '' @ dec (unat (pa_wait api t))))))"

definition drop_guard :: "nat \<Rightarrow> win_world \<Rightarrow> win_world" where
  "drop_guard handle w = close_handle handle w"

section \<open>Facts\<close>

text \<open>What ends the wait.\<close>

definition parent_gone :: "kill_outcome \<Rightarrow> (helper_error + unit) option" where
  "parent_gone k = (case is_unix_process_alive k of
      Err e \<Rightarrow> Some (Err e) | Ok True \<Rightarrow> None | Ok False \<Rightarrow> Some (Ok ()))"

definition signalled :: "process_api \<Rightarrow> nat \<Rightarrow> (helper_error + unit) option" where
  "signalled api t =
    (let v = pa_wait api t in
     if v = WAIT_TIMEOUT then None
     else Some (if v = WAIT_OBJECT_0 then Ok ()
                else Err (HelperParent (if v = WAIT_FAILED then pa_wait_error api t
                                        else ''WaitForSingleObject returned '' @ dec (unat v)))))"

interpretation unix_wait: poll_loop "\<lambda>t. parent_gone (kill t)" "wait_for_exit kill" for kill
proof
  show "wait_for_exit kill t = (case parent_gone (kill t) of Some r \<Rightarrow> Some r | None \<Rightarrow> wait_for_exit kill (Suc t))" for t
    by (subst wait_for_exit.simps) (simp add: parent_gone_def split: sum.split bool.split)
  show "\<exists>n\<ge>t. parent_gone (kill n) \<noteq> None" if "wait_for_exit kill t = Some r" for t r
    using that
  proof (induction rule: wait_for_exit.raw_induct [rotated 1, consumes 1])
    case (1 wait kill t r)
    show ?case
    proof (cases "parent_gone (kill t)")
      case None
      then have "is_unix_process_alive (kill t) = Ok True" by (simp add: parent_gone_def split: sum.splits bool.splits)
      with 1 obtain n where "n \<ge> Suc t" "parent_gone (kill n) \<noteq> None" by fastforce
      then show ?thesis using Suc_leD by blast
    qed auto
  qed
qed

interpretation windows_wait: poll_loop "signalled api" "wait_windows api" for api
proof
  show "wait_windows api t = (case signalled api t of Some r \<Rightarrow> Some r | None \<Rightarrow> wait_windows api (Suc t))" for t
    by (subst wait_windows.simps) (simp add: signalled_def Let_def WAIT_OBJECT_0_def WAIT_TIMEOUT_def)
  show "\<exists>n\<ge>t. signalled api n \<noteq> None" if "wait_windows api t = Some r" for t r
    using that
  proof (induction rule: wait_windows.raw_induct [rotated 1, consumes 1])
    case (1 wait api t r)
    show ?case
    proof (cases "signalled api t")
      case None
      then have "pa_wait api t = WAIT_TIMEOUT" by (simp add: signalled_def Let_def split: if_splits)
      with 1 obtain n where "n \<ge> Suc t" "signalled api n \<noteq> None" by (fastforce simp: WAIT_OBJECT_0_def WAIT_TIMEOUT_def)
      then show ?thesis using Suc_leD by blast
    qed auto
  qed
qed

lemma parent_alive: "parent_gone k = None \<longleftrightarrow> is_unix_process_alive k = Ok True"
  by (auto simp: parent_gone_def split: sum.splits bool.splits)

lemma alive_exit: "is_unix_process_alive k = Err e \<Longrightarrow> exit_code e = 6"
  by (auto simp: is_unix_process_alive_def split: kill_outcome.splits if_splits)

lemma attach_exit: "attach kill pid = Err e \<Longrightarrow> exit_code e = 6"
  by (auto simp: attach_def res_simps alive_exit split: if_splits)

lemma wait_exit: "wait_for_exit kill t = Some (Err e) \<Longrightarrow> exit_code e = 6"
  by (auto simp: parent_gone_def alive_exit split: sum.splits bool.splits dest!: unix_wait.returns [THEN iffD1])

lemma wait_windows_exit: "wait_windows api t = Some (Err e) \<Longrightarrow> exit_code e = 6"
  by (auto simp: signalled_def Let_def split: if_splits dest!: windows_wait.returns [THEN iffD1])

lemma attach_windows_holds:
  assumes "win_holds hs ps bs w"
  shows "ensures (win_holds hs ps bs) (\<lambda>h w'. win_holds (hs @ [h]) ps bs w') (attach_windows api pid w)"
  using new_handle_holds [OF assms] assms by (auto simp: attach_windows_def split: option.split prod.splits)

section \<open>Properties\<close>


end
