(* ===== verification/Windows_Pipe.thy ===== *)
theory Windows_Pipe
  imports Bootstrap_Cli Credentials Windows_Api
begin

text \<open>
  The named pipe of \<open>ipc/windows.rs\<close>, and the random numbers that \<open>network/credentials.rs\<close> takes from the system on
  Windows. The outcomes of the calls of the Win32 interface are the fields of a record; the handles
  and the local memory that they hand out live in the world of Windows_Api, so that a leak, a
  second release and a use after release would show.
\<close>

section \<open>The user\<close>

text \<open>
  \<open>ta_size\<close> is \<open>size_of::<TOKEN_USER>()\<close> of the target; \<open>ta_length\<close> is the length that the first
  \<open>GetTokenInformation\<close> reports and \<open>ta_length_error\<close> the last error after it; \<open>ta_sid\<close> is the block of text that
  \<open>ConvertSidToStringSidW\<close> allocates.
\<close>

record token_api =
  ta_open :: "io_error option"
  ta_size :: nat
  ta_length :: u32
  ta_length_error :: io_error
  ta_query :: "io_error option"
  ta_sid :: "io_error + u16 list"

definition drop_token :: "nat \<Rightarrow> win_world \<Rightarrow> win_world" where
  "drop_token token w = close_handle token w"

text \<open>Text without an end makes the loop read past the block: a fault, after which the result means nothing.\<close>

definition read_sid_text :: "u16 list \<Rightarrow> win_world \<Rightarrow> string \<times> win_world" where
  "read_sid_text text w = (case wide_text text of
      Some units \<Rightarrow> (from_utf16_lossy units, w)
    | None \<Rightarrow> ([], fault w))"

definition current_user_sid_string :: "token_api \<Rightarrow> win_world \<Rightarrow> (io_error + string) \<times> win_world" where
  "current_user_sid_string api w = (case ta_open api of
      Some e \<Rightarrow> (Err e, w)
    | None \<Rightarrow> (case new_handle w of (token, w) \<Rightarrow>
        if unat (ta_length api) < ta_size api then (Err (ta_length_error api), drop_token token w)
        else (case ta_query api of
            Some e \<Rightarrow> (Err e, drop_token token w)
          | None \<Rightarrow> (case ta_sid api of
              Err e \<Rightarrow> (Err e, drop_token token w)
            | Ok text \<Rightarrow> (case local_alloc text w of (sid_text, w) \<Rightarrow>
                (case read_sid_text text w of (sid, w) \<Rightarrow>
                  (Ok sid, drop_token token (local_free sid_text w))))))))"

section \<open>The security attributes\<close>

record pipe_security =
  sec_descriptor :: nat
  sec_lpSecurityDescriptor :: nat
  sec_bInheritHandle :: bool

definition sddl_for :: "string \<Rightarrow> string" where
  "sddl_for user_sid = ''D:P(A;;GA;;;SY)(A;;GA;;;'' @ user_sid @ '')''"

record pipe_api = token_api +
  ta_convert :: "u16 list \<Rightarrow> io_error option"
  ta_create :: "named_pipe \<Rightarrow> io_error option"

text \<open>The conversion reads its argument up to the zero.\<close>

definition security_new :: "'x pipe_api_scheme \<Rightarrow> win_world \<Rightarrow> (io_error + pipe_security) \<times> win_world" where
  "security_new api w =
    and_then (current_user_sid_string (token_api.truncate api) w) (\<lambda>user_sid w.
      let wide = encode_utf16 (sddl_for user_sid) @ [0] in
      case wide_text wide of
        None \<Rightarrow> (Err (IoError InvalidData []), fault w)
      | Some text \<Rightarrow> (case ta_convert api text of
            Some e \<Rightarrow> (Err e, w)
          | None \<Rightarrow> (case local_alloc text w of (descriptor, w) \<Rightarrow>
              (Ok \<lparr>sec_descriptor = descriptor, sec_lpSecurityDescriptor = descriptor, sec_bInheritHandle = False\<rparr>, w))))"

definition drop_security :: "pipe_security \<Rightarrow> win_world \<Rightarrow> win_world" where
  "drop_security sec w = local_free (sec_descriptor sec) w"

section \<open>The listener\<close>

record pipe_listener =
  pl_server :: "nat option"
  pl_expected_client_pid :: u32

definition server_options :: pipe_options where
  "server_options = \<lparr>po_first_pipe_instance = True, po_reject_remote_clients = True, po_max_instances = 1\<rparr>"

text \<open>Making the pipe reads the descriptor that the attributes point to; it has to be there.\<close>

definition create_pipe ::
    "'x pipe_api_scheme \<Rightarrow> pipe_options \<Rightarrow> string \<Rightarrow> pipe_security \<Rightarrow> win_world \<Rightarrow> (io_error + nat) \<times> win_world" where
  "create_pipe api options name sec w = (case map_of (ww_blocks w) (sec_lpSecurityDescriptor sec) of
      None \<Rightarrow> (Err (IoError InvalidData []), fault w)
    | Some text \<Rightarrow>
        (let np = \<lparr>np_name = name, np_options = options, np_descriptor = text, np_inherit = sec_bInheritHandle sec\<rparr> in
         case ta_create api np of
           Some e \<Rightarrow> (Err e, w)
         | None \<Rightarrow> (case new_pipe np w of (h, w) \<Rightarrow> (Ok h, w))))"

definition pipe_bind :: "'x pipe_api_scheme \<Rightarrow> validated_args \<Rightarrow> win_world \<Rightarrow> (io_error + pipe_listener) \<times> win_world" where
  "pipe_bind api a w =
    and_then (security_new api w) (\<lambda>security w.
      case create_pipe api server_options (val_ipc a) security w of
        (Err e, w) \<Rightarrow> (Err e, drop_security security w)
      | (Ok server, w) \<Rightarrow>
          (Ok \<lparr>pl_server = Some server, pl_expected_client_pid = val_parent_pid a\<rparr>, drop_security security w))"

text \<open>
  What a client that connects brings: the outcome of \<open>connect\<close>, and the process that
  \<open>GetNamedPipeClientProcessId\<close> names. The server is taken out of the listener and closed on every
  path but the last.
\<close>

record connection =
  cn_connect :: "io_error option"
  cn_client_pid :: "io_error + u32"

definition pipe_accept ::
    "connection \<Rightarrow> pipe_listener \<Rightarrow> win_world \<Rightarrow> (io_error + nat) \<times> pipe_listener \<times> win_world" where
  "pipe_accept c l w = (case pl_server l of
      None \<Rightarrow> (Err (IoError NotConnected ''named-pipe listener only accepts one client''), l, w)
    | Some server \<Rightarrow>
        (let l = l\<lparr>pl_server := None\<rparr> in
         case cn_connect c of
           Some e \<Rightarrow> (Err e, l, close_handle server w)
         | None \<Rightarrow> (case cn_client_pid c of
             Err e \<Rightarrow> (Err e, l, close_handle server w)
           | Ok client_pid \<Rightarrow>
               if client_pid \<noteq> pl_expected_client_pid l
               then (Err (IoError PermissionDenied ''named-pipe client process does not match PCL N parent''), l,
                     close_handle server w)
               else (Ok server, l, w))))"

text \<open>The time runs out while the client is awaited: the server that was taken is dropped with the future.\<close>

definition pipe_accept_cancelled :: "pipe_listener \<Rightarrow> win_world \<Rightarrow> pipe_listener \<times> win_world" where
  "pipe_accept_cancelled l w = (case pl_server l of
      None \<Rightarrow> (l, w)
    | Some server \<Rightarrow> (l\<lparr>pl_server := None\<rparr>, close_handle server w))"

definition drop_pipe_listener :: "pipe_listener \<Rightarrow> win_world \<Rightarrow> win_world" where
  "drop_pipe_listener l w = (case pl_server l of None \<Rightarrow> w | Some server \<Rightarrow> close_handle server w)"

section \<open>Random numbers\<close>

text \<open>\<open>BCryptGenRandom\<close> gets the length as 32 bits and gives a status and the bytes that it wrote.\<close>

definition display_int :: "int \<Rightarrow> string" where
  "display_int i = (if i < 0 then CHR ''-'' # dec (nat (- i)) else dec (nat i))"

definition fill_random_windows :: "(u32 \<Rightarrow> int \<times> bytes) \<Rightarrow> bytes \<Rightarrow> io_error + bytes" where
  "fill_random_windows gen_random buffer = (case gen_random (word_of_nat (length buffer)) of (status, written) \<Rightarrow>
      if status = 0 then Ok (written @ drop (length written) buffer)
      else Err (IoError (OtherKind 0) (''BCryptGenRandom failed with status '' @ display_int status)))"

section \<open>Facts\<close>

text \<open>
  The block that \<open>ConvertSidToStringSidW\<close> allocates holds text that ends and, as the format of a SID
  says, is ASCII. \<open>sid_of\<close> is that text.
\<close>

definition sid_documented :: "'x token_api_scheme \<Rightarrow> bool" where
  "sid_documented api \<longleftrightarrow> (case ta_sid api of
      Err _ \<Rightarrow> True
    | Ok text \<Rightarrow> (case wide_text text of None \<Rightarrow> False | Some units \<Rightarrow> list_all (\<lambda>u. unat u < 128) units))"

definition sid_of :: "'x token_api_scheme \<Rightarrow> string" where
  "sid_of api = (case ta_sid api of
      Err _ \<Rightarrow> []
    | Ok text \<Rightarrow> (case wide_text text of None \<Rightarrow> [] | Some units \<Rightarrow> map (\<lambda>u. char_of (unat u)) units))"

lemma wide_text_nonzero: "wide_text block = Some units \<Longrightarrow> 0 \<notin> set units"
  by (induction block arbitrary: units) (auto split: if_splits)

lemma from_utf16_lossy_ascii:
  assumes "list_all (\<lambda>u. unat u < 128) us" shows "from_utf16_lossy us = map (\<lambda>u. char_of (unat u)) us"
proof -
  have "decode_utf16 us = map unat us" using assms by (induction us rule: decode_utf16.induct) auto
  moreover have "concat (map (utf8_of \<circ> unat) us) = map (\<lambda>u. char_of (unat u)) us"
    using assms by (induction us) (simp_all add: utf8_of_def)
  ultimately show ?thesis by (simp add: from_utf16_lossy_def)
qed

lemma sid_of_ascii:
  assumes "sid_documented api" shows "ascii (sid_of api)" "list_all (\<lambda>c. c \<noteq> CHR 0x00) (sid_of api)"
proof -
  have u: "ascii (map (\<lambda>u. char_of (unat u)) us) \<and> list_all (\<lambda>c. c \<noteq> CHR 0x00) (map (\<lambda>u. char_of (unat u)) us)"
    if "list_all (\<lambda>u. unat u < 128) us" "0 \<notin> set us" for us :: "u16 list"
    using that
  proof (induction us)
    case (Cons u us)
    then have "code (char_of (unat u)) = unat u" "unat u \<noteq> 0" by (auto simp: of_char_of take_bit_nat_def unat_eq_0)
    moreover have "code (CHR 0x00) = (0 :: nat)" by simp
    ultimately have "char_of (unat u) \<noteq> CHR 0x00" by metis
    with Cons show ?case by (simp add: ascii_def)
  qed (simp add: ascii_def)
  with assms show "ascii (sid_of api)" "list_all (\<lambda>c. c \<noteq> CHR 0x00) (sid_of api)"
    by (auto simp: sid_documented_def sid_of_def ascii_def dest: wide_text_nonzero split: sum.splits option.splits)
qed

lemma read_sid_documented:
  "sid_documented api \<Longrightarrow> ta_sid api = Ok text \<Longrightarrow> read_sid_text text w = (sid_of api, w)"
  by (auto simp: sid_documented_def sid_of_def read_sid_text_def from_utf16_lossy_ascii split: option.splits)

lemma win_holds_pipes: "win_holds hs ps bs w \<Longrightarrow> list_all (\<lambda>p. fst p \<in> set hs) ps"
  by (simp add: win_holds_def)

lemma current_user_sid_holds:
  assumes w: "win_holds hs ps bs w" and sid: "sid_documented api"
  shows "ensures (win_holds hs ps bs) (\<lambda>s w'. win_holds hs ps bs w' \<and> s = sid_of api) (current_user_sid_string api w)"
proof (cases "ta_open api")
  case None
  obtain token w1 where t: "new_handle w = (token, w1)" by (rule prod.exhaust)
  with new_handle_holds [OF w] have w1: "win_holds (hs @ [token]) ps bs w1" by simp
  note pipes = win_holds_pipes [OF w]
  have dropped: "win_holds hs ps bs (drop_token token w1)"
    unfolding drop_token_def by (rule close_last_handle [OF w1 pipes])
  have freed: "win_holds hs ps bs (drop_token token (local_free p w2))" if "local_alloc c w1 = (p, w2)" for c p w2
  proof -
    have "win_holds (hs @ [token]) ps (bs @ [(p, c)]) w2" using local_alloc_holds [OF w1, of c] that by simp
    then show ?thesis unfolding drop_token_def by (intro close_last_handle free_last pipes)
  qed
  from None t dropped freed read_sid_documented [OF sid] show ?thesis
    by (auto simp: current_user_sid_string_def split: option.split sum.split prod.split)
qed (use w in \<open>simp add: current_user_sid_string_def\<close>)

lemma truncate_token [simp]:
  "sid_documented (token_api.truncate api) = sid_documented api" "sid_of (token_api.truncate api) = sid_of api"
  by (simp_all add: sid_documented_def sid_of_def token_api.truncate_def)

lemma sddl_text:
  assumes "sid_documented api"
  shows "wide_text (encode_utf16 (sddl_for (sid_of api)) @ [0]) = Some (encode_utf16 (sddl_for (sid_of api)))"
proof -
  from sid_of_ascii [OF assms] have "0 \<notin> set (encode_utf16 (sddl_for (sid_of api)))"
    by (intro encode_ascii_nonzero) (simp_all add: ascii_def sddl_for_def)
  then show ?thesis by (rule wide_text_terminated)
qed

lemma security_new_holds:
  assumes "win_holds hs ps bs w" and sid: "sid_documented api"
  shows "ensures (win_holds hs ps bs)
    (\<lambda>sec w'. win_holds hs ps (bs @ [(sec_descriptor sec, encode_utf16 (sddl_for (sid_of api)))]) w'
       \<and> sec_lpSecurityDescriptor sec = sec_descriptor sec \<and> \<not> sec_bInheritHandle sec) (security_new api w)"
  unfolding security_new_def
proof (rule ensures_and_then)
  show "ensures (win_holds hs ps bs) (\<lambda>s w'. win_holds hs ps bs w' \<and> s = sid_of api)
      (current_user_sid_string (token_api.truncate api) w)"
    using current_user_sid_holds [of hs ps bs w "token_api.truncate api"] assms by simp
qed (use local_alloc_holds sddl_text [OF sid] in \<open>fastforce simp: Let_def split: option.split prod.splits\<close>)

text \<open>The pipe that \<open>bind\<close> makes.\<close>

definition private_pipe :: "'x token_api_scheme \<Rightarrow> validated_args \<Rightarrow> named_pipe" where
  "private_pipe api a = \<lparr>np_name = val_ipc a, np_options = server_options,
     np_descriptor = encode_utf16 (sddl_for (sid_of api)), np_inherit = False\<rparr>"

lemma last_block: "win_holds hs ps (bs @ [(p, c)]) w \<Longrightarrow> map_of (ww_blocks w) p = Some c"
  by (force simp: win_holds_def map_add_def split: option.split)

lemma pipe_bind_holds:
  assumes w: "win_holds hs ps bs w" and sid: "sid_documented api"
  shows "ensures (win_holds hs ps bs)
    (\<lambda>l w'. pl_expected_client_pid l = val_parent_pid a
       \<and> (\<exists>h. pl_server l = Some h \<and> h \<notin> set hs \<and> win_holds (hs @ [h]) (ps @ [(h, private_pipe api a)]) bs w')) (pipe_bind api a w)"
  unfolding pipe_bind_def
proof (rule ensures_and_then [OF security_new_holds [OF w sid]], elim conjE)
  fix sec :: pipe_security and w1
  assume w1: "win_holds hs ps (bs @ [(sec_descriptor sec, encode_utf16 (sddl_for (sid_of api)))]) w1"
    and sec: "sec_lpSecurityDescriptor sec = sec_descriptor sec" "\<not> sec_bInheritHandle sec"
  have "map_of (ww_blocks w1) (sec_lpSecurityDescriptor sec) = Some (encode_utf16 (sddl_for (sid_of api)))"
    unfolding sec by (rule last_block [OF w1])
  then have c: "create_pipe api server_options (val_ipc a) sec w1 =
      (case ta_create api (private_pipe api a) of Some e \<Rightarrow> (Err e, w1)
       | None \<Rightarrow> (case new_pipe (private_pipe api a) w1 of (h, w) \<Rightarrow> (Ok h, w)))"
    unfolding private_pipe_def using sec by (simp add: create_pipe_def Let_def)
  from new_pipe_holds [OF w1, of "private_pipe api a"] free_last [OF w1]
  show "ensures (win_holds hs ps bs) (\<lambda>l w'. pl_expected_client_pid l = val_parent_pid a
       \<and> (\<exists>h. pl_server l = Some h \<and> h \<notin> set hs \<and> win_holds (hs @ [h]) (ps @ [(h, private_pipe api a)]) bs w'))
      (case create_pipe api server_options (val_ipc a) sec w1 of
        (Err e, w) \<Rightarrow> (Err e, drop_security sec w)
      | (Ok server, w) \<Rightarrow>
          (Ok \<lparr>pl_server = Some server, pl_expected_client_pid = val_parent_pid a\<rparr>, drop_security sec w))"
    unfolding c drop_security_def by (auto intro: free_last split: option.split prod.splits)
qed

text \<open>When no call of the system fails, the pipe is made.\<close>

lemma pipe_bind_live:
  assumes w: "win_holds hs ps bs w" and sid: "sid_documented api"
    and "ta_open api = None" "ta_size api \<le> unat (ta_length api)" "ta_query api = None" "ta_sid api = Ok block"
    and calls: "\<And>t. ta_convert api t = None" "\<And>np. ta_create api np = None"
  shows "\<exists>l w'. pipe_bind api a w = (Ok l, w')"
proof -
  have "\<exists>w1. current_user_sid_string (token_api.truncate api) w = (Ok (sid_of api), w1)"
    using assms(3-6) read_sid_documented [OF sid]
    by (simp add: current_user_sid_string_def token_api.truncate_def split: prod.split)
  then obtain sec w2 where s: "security_new api w = (Ok sec, w2)"
    using sddl_text [OF sid] calls by (auto simp: security_new_def and_then_simps Let_def local_alloc_def)
  with security_new_holds [OF w sid] last_block have "\<exists>t. map_of (ww_blocks w2) (sec_lpSecurityDescriptor sec) = Some t"
    by fastforce
  with s calls show ?thesis
    by (auto simp: pipe_bind_def create_pipe_def and_then_simps Let_def new_pipe_def new_handle_def)
qed

lemma close_last_pipe:
  assumes "win_holds (hs @ [h]) (ps @ [(h, np)]) bs w" "list_all (\<lambda>p. fst p \<in> set hs) ps"
  shows "win_holds hs ps bs (close_handle h w)"
proof -
  have "h \<notin> set hs" using assms(1) by (simp add: win_holds_def)
  with assms(2) have "filter (\<lambda>i. i \<noteq> h) hs = hs" "filter (\<lambda>p. fst p \<noteq> h) ps = ps"
    by (auto simp: filter_id_conv list_all_iff)
  with close_handle_holds [OF assms(1), of h] show ?thesis by simp
qed

lemma pipe_accept_server: "pl_server (fst (snd (pipe_accept c l w))) = None"
  by (simp add: pipe_accept_def Let_def split: option.split sum.split)

lemma pipe_accept_holds:
  assumes "win_holds (hs @ [h]) (ps @ [(h, np)]) bs w" "list_all (\<lambda>p. fst p \<in> set hs) ps" "pl_server l = Some h"
  shows "case pipe_accept c l w of
      (Err _, _, w') \<Rightarrow> win_holds hs ps bs w'
    | (Ok h', _, w') \<Rightarrow> h' = h \<and> w' = w \<and> cn_client_pid c = Ok (pl_expected_client_pid l)"
  using close_last_pipe [OF assms(1,2)] assms(3) by (simp add: pipe_accept_def Let_def split: option.split sum.split)

lemma pipe_cancelled_holds:
  assumes "win_holds (hs @ [h]) (ps @ [(h, np)]) bs w" "list_all (\<lambda>p. fst p \<in> set hs) ps" "pl_server l = Some h"
  shows "case pipe_accept_cancelled l w of (l', w') \<Rightarrow> win_holds hs ps bs w' \<and> pl_server l' = None"
  using close_last_pipe [OF assms(1,2)] assms(3) by (simp add: pipe_accept_cancelled_def)

text \<open>
  The generator writes as many bytes as it is asked for. Then the Windows branch is the Unix branch on a device that
  holds those bytes, and everything that is shown of generated rooms holds on both.
\<close>

definition entropy_device :: "(u32 \<Rightarrow> int \<times> bytes) \<Rightarrow> nat \<Rightarrow> io_error + reader" where
  "entropy_device gen_random n = (case gen_random (word_of_nat n) of (status, written) \<Rightarrow>
      if status = 0 then Ok \<lparr>rx = written, rx_end = None\<rparr>
      else Err (IoError (OtherKind 0) (''BCryptGenRandom failed with status '' @ display_int status)))"

lemma fill_random_platforms:
  assumes "length (snd (gen_random (word_of_nat n))) = n"
  shows "fill_random_windows gen_random (replicate n 0) = fill_random n (entropy_device gen_random n)"
  using assms by (auto simp: fill_random_windows_def fill_random_def entropy_device_def read_exact_def split: prod.splits)

section \<open>Properties\<close>

text \<open>C31: The pipe is private to the user and serves the parent once. What \<open>bind\<close> leaves is one new handle, that of
  a pipe with the endpoint's name that is the first and only instance, refuses other machines and is not inherited. Its
  descriptor says, character for character, that the system and the user of the process have access, and is
  protected from inherited entries. Of all clients only one whose process is the expected one is accepted, any other
  leaves nothing of the pipe behind, and after the first client, accepted or not, every other one is refused.\<close>

theorem pipe_private:
  assumes "pipe_bind api a w = (Ok l, w')" "win_holds hs ps bs w" "sid_documented api"
  shows "\<exists>h np. pl_server l = Some h \<and> win_holds (hs @ [h]) (ps @ [(h, np)]) bs w'
    \<and> np_name np = val_ipc a \<and> \<not> np_inherit np
    \<and> np_options np = \<lparr>po_first_pipe_instance = True, po_reject_remote_clients = True, po_max_instances = 1\<rparr>
    \<and> from_utf16_lossy (np_descriptor np) = ''D:P(A;;GA;;;SY)(A;;GA;;;'' @ sid_of api @ '')''
    \<and> (case pipe_accept c l w' of
         (Err _, _, w'') \<Rightarrow> win_holds hs ps bs w''
       | (Ok server, _, w'') \<Rightarrow> server = h \<and> w'' = w' \<and> cn_client_pid c = Ok (val_parent_pid a))
    \<and> (case pipe_accept c l w' of (_, l', w'') \<Rightarrow>
         pipe_accept c' l' w'' = (Err (IoError NotConnected ''named-pipe listener only accepts one client''), l', w''))"
proof -
  let ?np = "private_pipe api a"
  from pipe_bind_holds [OF assms(2,3), of a] assms(1) obtain h where pid: "pl_expected_client_pid l = val_parent_pid a"
    and h: "pl_server l = Some h" and w': "win_holds (hs @ [h]) (ps @ [(h, ?np)]) bs w'" by auto
  from sid_of_ascii [OF assms(3)] have "ascii (sddl_for (sid_of api))" by (simp add: ascii_def sddl_for_def)
  then have sddl: "from_utf16_lossy (np_descriptor ?np) = ''D:P(A;;GA;;;SY)(A;;GA;;;'' @ sid_of api @ '')''"
    unfolding private_pipe_def named_pipe.select_convs by (simp only: lossy_ascii sddl_for_def)
  note once = pipe_accept_server [of c l w']
  from pipe_accept_holds [OF w' win_holds_pipes [OF assms(2)] h, of c]
  have "case pipe_accept c l w' of (Err _, _, w'') \<Rightarrow> win_holds hs ps bs w''
      | (Ok server, _, w'') \<Rightarrow> server = h \<and> w'' = w' \<and> cn_client_pid c = Ok (val_parent_pid a)" unfolding pid .
  moreover have "case pipe_accept c l w' of (_, l', w'') \<Rightarrow>
      pipe_accept c' l' w'' = (Err (IoError NotConnected ''named-pipe listener only accepts one client''), l', w'')"
    using once by (auto simp: pipe_accept_def [of c'] split: prod.splits)
  moreover have "np_name ?np = val_ipc a" "\<not> np_inherit ?np"
    "np_options ?np = \<lparr>po_first_pipe_instance = True, po_reject_remote_clients = True, po_max_instances = 1\<rparr>"
    by (simp_all add: private_pipe_def server_options_def)
  ultimately show ?thesis using h w' sddl by (intro exI [of _ h] exI [of _ ?np] conjI)
qed

definition sample_pipe_api :: pipe_api where
  "sample_pipe_api = \<lparr>ta_open = None, ta_size = 16, ta_length = 44, ta_length_error = IoError (OtherKind 0) [], ta_query = None,
     ta_sid = Ok [83, 45, 49, 45, 53, 0], ta_convert = (\<lambda>_. None), ta_create = (\<lambda>_. None)\<rparr>"

definition sample_args :: validated_args where
  "sample_args = \<lparr>val_ipc = ''/s'', val_parent_pid = 5, val_data_dir = ''/d'', val_log_dir = ''/l''\<rparr>"

definition sample_world :: win_world where
  "sample_world = \<lparr>ww_next = 7, ww_handles = [3], ww_pipes = [], ww_blocks = [(4, [65, 0])], ww_fault = False\<rparr>"

lemma sample_world_holds: "win_holds [3] [] [(4, [65, 0])] sample_world"
  by (simp add: win_holds_def sample_world_def)

lemma sample_sid: "sid_documented sample_pipe_api" "sid_of sample_pipe_api = ''S-1-5''"
  by code_simp+

lemma sample_pipe_bound: "\<exists>l w'. pipe_bind sample_pipe_api sample_args sample_world = (Ok l, w')"
  by (rule pipe_bind_live [OF sample_world_holds sample_sid(1)]) (simp_all add: sample_pipe_api_def)

theorem pipe_private_witness:
  "\<exists>l w' h np. pipe_bind sample_pipe_api sample_args sample_world = (Ok l, w') \<and> pl_server l = Some h
    \<and> win_holds [3, h] [(h, np)] [(4, [65, 0])] w' \<and> from_utf16_lossy (np_descriptor np) = ''D:P(A;;GA;;;SY)(A;;GA;;;S-1-5)''"
proof -
  obtain l w' where b: "pipe_bind sample_pipe_api sample_args sample_world = (Ok l, w')" using sample_pipe_bound by blast
  from pipe_private [OF b sample_world_holds sample_sid(1)] b show ?thesis by (fastforce simp: sample_sid(2))
qed

end
