(* ===== verification/Helper_Process.thy ===== *)
theory Helper_Process
  imports Ipc_Session Parent_Guard Windows_Pipe
begin

text \<open>
  The process itself: \<open>main.rs\<close>, \<open>run\<close> and \<open>ExitReason\<close> of \<open>lib.rs\<close> on both platforms, and the socket of \<open>ipc/unix.rs\<close>; the
  guard and the pipe have theories of their own. What the system calls return is an
  argument. The three futures of the \<open>select!\<close> run concurrently; which of them finishes first
  is an argument as well, and the requests that the session served until then are its wake-ups.
\<close>

section \<open>The socket\<close>

text \<open>
  An entry of a directory as \<open>symlink_metadata\<close> sees it; \<open>nd_exists\<close> is what \<open>Path::exists\<close> says of
  it, which follows symbolic links.
\<close>

record node =
  nd_socket :: bool
  nd_exists :: bool
  nd_device :: nat
  nd_inode :: nat
  nd_mode :: nat

type_synonym directory = "string \<Rightarrow> node option"

record local_ipc_listener =
  li_path :: string
  li_device :: nat
  li_inode :: nat

text \<open>
  The errors of the system calls of \<open>bind\<close>, if any, and the identity of the file that is made and the mode
  that the process's mask gives it.
\<close>

record bind_calls =
  bc_bind :: "io_error + nat \<times> nat"
  bc_mode :: nat
  bc_chmod :: "io_error option"
  bc_stat :: "io_error option"

definition socket_mode :: nat where
  "socket_mode = 0x180"

definition ipc_bind :: "bind_calls \<Rightarrow> string \<Rightarrow> directory \<Rightarrow> (io_error + local_ipc_listener) \<times> directory" where
  "ipc_bind calls path d =
    (if (case d path of None \<Rightarrow> False | Some n \<Rightarrow> nd_exists n)
     then (Err (IoError AlreadyExists ''IPC socket path already exists''), d)
     else (case bc_bind calls of
         Err e \<Rightarrow> (Err e, d)
       | Ok (dev, ino) \<Rightarrow>
           if d path \<noteq> None then (Err (IoError AddrInUse ''Address already in use (os error 98)''), d)
           else
             (let made = \<lparr>nd_socket = True, nd_exists = True, nd_device = dev, nd_inode = ino, nd_mode = bc_mode calls\<rparr>;
                  d1 = d(path \<mapsto> made)
              in (case bc_chmod calls of
                    Some e \<Rightarrow> (Err e, d1)
                  | None \<Rightarrow>
                      (let d2 = d(path \<mapsto> made\<lparr>nd_mode := socket_mode\<rparr>) in
                       case bc_stat calls of
                         Some e \<Rightarrow> (Err e, d2)
                       | None \<Rightarrow> (Ok \<lparr>li_path = path, li_device = dev, li_inode = ino\<rparr>, d2))))))"

text \<open>What \<open>accept\<close> gives: an error, or a stream with the user of the peer.\<close>

datatype accept_outcome = AcceptFailed io_error | Accepted "io_error + nat"

definition ipc_accept :: "nat \<Rightarrow> accept_outcome \<Rightarrow> io_error + unit" where
  "ipc_accept euid outcome = (case outcome of
      AcceptFailed e \<Rightarrow> Err e
    | Accepted peer_cred \<Rightarrow> try_bind peer_cred (\<lambda>uid.
        if uid \<noteq> euid then Err (IoError PermissionDenied ''IPC peer user does not match Helper user'') else Ok ()))"

text \<open>Dropping the listener removes the file if it is still the socket that was made.\<close>

definition drop_listener ::
    "io_error option \<Rightarrow> io_error option \<Rightarrow> local_ipc_listener \<Rightarrow> directory \<Rightarrow> directory" where
  "drop_listener stat_fault remove_fault l d = (case stat_fault of
      Some _ \<Rightarrow> d
    | None \<Rightarrow> (case d (li_path l) of
          None \<Rightarrow> d
        | Some n \<Rightarrow>
            if nd_socket n \<and> nd_device n = li_device l \<and> nd_inode n = li_inode l \<and> remove_fault = None
            then d(li_path l := None) else d))"

section \<open>The run\<close>

datatype exit_reason = ExitShutdown | ExitDisconnected | ExitParent | ExitInterrupted

datatype winner = SessionWins | ParentWins | SignalWins

text \<open>What both platforms share, and what each adds.\<close>

record 'v process_env =
  ps_mkdir :: "string \<Rightarrow> io_error option"
  ps_stream :: "reader \<times> writer"
  ps_winner :: winner
  ps_ctrl_c :: "io_error option"
  ps_codec :: "'v codec"
  ps_version :: string
  ps_handshake_late :: bool
  ps_wakes :: "wake list"
  ps_order :: "string list \<Rightarrow> string list"

record 'v unix_env = "'v process_env" +
  ps_kill :: "nat \<Rightarrow> kill_outcome"
  ps_calls :: bind_calls
  ps_accept :: "accept_outcome option"
  ps_euid :: nat
  ps_others :: "directory \<Rightarrow> directory"
  ps_drop_stat :: "io_error option"
  ps_drop_remove :: "io_error option"

record 'v windows_env = "'v process_env" +
  ps_process :: process_api
  ps_pipe :: pipe_api
  ps_connection :: "connection option"

definition new_session :: "reader \<times> writer \<Rightarrow> 'b \<Rightarrow> 'b session" where
  "new_session stream b = \<lparr>se_in = fst stream, se_out = snd stream, se_room = new_room_service b, se_ids = [],
     se_identity = None, se_seen = 0, se_seq = 0\<rparr>"

definition session_exit :: "frame_error + session_outcome \<Rightarrow> helper_error + exit_reason" where
  "session_exit r = (case r of
      Err e \<Rightarrow> Err (HelperProtocol e)
    | Ok ShutdownRequested \<Rightarrow> Ok ExitShutdown
    | Ok PeerDisconnected \<Rightarrow> Ok ExitDisconnected)"

text \<open>
  The \<open>select!\<close>: the result of the branch that wins, and the session as far as it came. \<open>gone\<close> is what waiting for
  the parent gives. The result is None when the branch that is said to win never finishes.
\<close>

definition select_branches ::
    "('v, 'x) process_env_scheme \<Rightarrow> 'b room_backend \<Rightarrow> bytes \<Rightarrow> (helper_error + unit) option \<Rightarrow> 'b session
      \<Rightarrow> (helper_error + exit_reason) option \<times> 'b session" where
  "select_branches p B secret gone s =
    (case session_run (ps_codec p) B (ps_order p) (ps_version p) secret (ps_handshake_late p) (ps_wakes p) s of
       (outcome, s') \<Rightarrow>
         (case ps_winner p of
            SessionWins \<Rightarrow> (map_option session_exit outcome, s')
          | ParentWins \<Rightarrow> (map_option (map_sum id (\<lambda>_. ExitParent)) gone, s')
          | SignalWins \<Rightarrow> (Some (case ps_ctrl_c p of Some e \<Rightarrow> Err (HelperIpc e) | None \<Rightarrow> Ok ExitInterrupted), s')))"

definition make_dirs :: "('v, 'x) process_env_scheme \<Rightarrow> validated_args \<Rightarrow> helper_error + unit" where
  "make_dirs p a = (case ps_mkdir p (val_data_dir a) of
      Some e \<Rightarrow> Err (HelperIpc e)
    | None \<Rightarrow> (case ps_mkdir p (val_log_dir a) of Some e \<Rightarrow> Err (HelperIpc e) | None \<Rightarrow> Ok ()))"

definition accept_client :: "'v unix_env \<Rightarrow> helper_error + unit" where
  "accept_client p = (case ps_accept p of
      None \<Rightarrow> Err (HelperIpc (IoError TimedOut ''IPC client connection timed out''))
    | Some outcome \<Rightarrow> map_err HelperIpc (ipc_accept (ps_euid p) outcome))"

definition run ::
    "'v unix_env \<Rightarrow> 'b room_backend \<Rightarrow> 'b \<Rightarrow> validated_args \<Rightarrow> bytes \<Rightarrow> directory
      \<Rightarrow> (helper_error + exit_reason) option \<times> 'b session \<times> directory" where
  "run p B b a secret d =
    (let s0 = new_session (ps_stream p) b in
     case try_bind (make_dirs p a) (\<lambda>_. attach (ps_kill p) (val_parent_pid a)) of
       Err e \<Rightarrow> (Some (Err e), s0, d)
     | Ok _ \<Rightarrow>
         (case ipc_bind (ps_calls p) (val_ipc a) d of
            (Err e, d1) \<Rightarrow> (Some (Err (HelperIpc e)), s0, d1)
          | (Ok listener, d1) \<Rightarrow>
              (let dropped = drop_listener (ps_drop_stat p) (ps_drop_remove p) listener in
               case accept_client p of
                 Err e \<Rightarrow> (Some (Err e), s0, dropped (ps_others p d1))
               | Ok _ \<Rightarrow>
                   (case select_branches p B secret (wait_for_exit (ps_kill p) 1) s0 of
                      (None, s) \<Rightarrow> (None, s, ps_others p d1)
                    | (Some r, s) \<Rightarrow> (Some r, s, dropped (ps_others p d1))))))"

text \<open>
  The same on Windows. The guard belongs to the future that waits for the parent and is dropped with the \<open>select!\<close>,
  or when \<open>run\<close> returns early; the pipe belongs to the listener until it is accepted and to the stream then.
\<close>

definition accept_windows ::
    "connection option \<Rightarrow> pipe_listener \<Rightarrow> win_world \<Rightarrow> (helper_error + nat) \<times> pipe_listener \<times> win_world" where
  "accept_windows conn l w = (case conn of
      None \<Rightarrow> (Err (HelperIpc (IoError TimedOut ''IPC client connection timed out'')), pipe_accept_cancelled l w)
    | Some c \<Rightarrow> (case pipe_accept c l w of (r, l, w) \<Rightarrow> (map_err HelperIpc r, l, w)))"

definition serve_windows ::
    "'v windows_env \<Rightarrow> 'b room_backend \<Rightarrow> 'b session \<Rightarrow> bytes \<Rightarrow> nat \<Rightarrow> pipe_listener \<Rightarrow> win_world
      \<Rightarrow> (helper_error + exit_reason) option \<times> 'b session \<times> win_world" where
  "serve_windows p B s0 secret parent listener w =
    (case accept_windows (ps_connection p) listener w of
       (Err e, listener, w) \<Rightarrow> (Some (Err e), s0, drop_guard parent (drop_pipe_listener listener w))
     | (Ok stream, listener, w) \<Rightarrow>
         (case select_branches p B secret (wait_windows (ps_process p) 0) s0 of
            (None, s) \<Rightarrow> (None, s, w)
          | (Some r, s) \<Rightarrow> (Some r, s, drop_pipe_listener listener (close_handle stream (drop_guard parent w)))))"

definition run_windows ::
    "'v windows_env \<Rightarrow> 'b room_backend \<Rightarrow> 'b \<Rightarrow> validated_args \<Rightarrow> bytes \<Rightarrow> win_world
      \<Rightarrow> (helper_error + exit_reason) option \<times> 'b session \<times> win_world" where
  "run_windows p B b a secret w =
    (let s0 = new_session (ps_stream p) b in
     case make_dirs p a of
       Err e \<Rightarrow> (Some (Err e), s0, w)
     | Ok _ \<Rightarrow> (case attach_windows (ps_process p) (val_parent_pid a) w of
         (Err e, w) \<Rightarrow> (Some (Err e), s0, w)
       | (Ok parent, w) \<Rightarrow> (case pipe_bind (ps_pipe p) a w of
           (Err e, w) \<Rightarrow> (Some (Err (HelperIpc e)), s0, drop_guard parent w)
         | (Ok listener, w) \<Rightarrow> serve_windows p B s0 secret parent listener w)))"

text \<open>\<open>main\<close> on both platforms: the arguments, the secret, the run, and the status of the process.\<close>

definition main_status ::
    "helper_error + validated_args \<Rightarrow> helper_error + bytes \<Rightarrow> (validated_args \<Rightarrow> bytes \<Rightarrow> (helper_error + exit_reason) option)
      \<Rightarrow> u8 option" where
  "main_status arguments token run_helper = (case arguments of
      Err e \<Rightarrow> Some (exit_code e)
    | Ok v \<Rightarrow> (case token of
          Err e \<Rightarrow> Some (exit_code e)
        | Ok secret \<Rightarrow> map_option (\<lambda>r. case r of Ok _ \<Rightarrow> 0 | Err e \<Rightarrow> exit_code e) (run_helper v secret)))"

definition helper_main ::
    "'v unix_env \<Rightarrow> 'b room_backend \<Rightarrow> 'b \<Rightarrow> args \<Rightarrow> reader \<Rightarrow> directory \<Rightarrow> u8 option" where
  "helper_main p B b a stdin d =
    main_status (validate a) (read_from stdin) (\<lambda>v secret. fst (run p B b v secret d))"

definition helper_main_windows ::
    "'v windows_env \<Rightarrow> 'b room_backend \<Rightarrow> 'b \<Rightarrow> args \<Rightarrow> reader \<Rightarrow> win_world \<Rightarrow> u8 option" where
  "helper_main_windows p B b a stdin w =
    main_status (validate_windows a) (read_from stdin) (\<lambda>v secret. fst (run_windows p B b v secret w))"

section \<open>Facts\<close>

lemma ipc_bind_Ok:
  assumes "ipc_bind calls path d = (Ok l, d1)"
  shows "d path = None \<and> bc_bind calls = Ok (li_device l, li_inode l) \<and> li_path l = path
    \<and> d1 = d(path \<mapsto> \<lparr>nd_socket = True, nd_exists = True, nd_device = li_device l, nd_inode = li_inode l, nd_mode = socket_mode\<rparr>)"
  using assms by (auto simp: ipc_bind_def Let_def split: if_splits option.splits sum.splits)

lemma ipc_bind_Err:
  assumes "ipc_bind calls path d = (Err e, d1)" "bc_chmod calls = None" "bc_stat calls = None"
  shows "d1 = d"
  using assms by (auto simp: ipc_bind_def Let_def split: if_splits option.splits sum.splits)

lemma make_dirs_exit: "make_dirs p a = Err e \<Longrightarrow> exit_code e = 4"
  by (auto simp: make_dirs_def split: option.splits)

lemma accept_exit: "accept_client p = Err e \<Longrightarrow> exit_code e = 4"
  by (auto simp: accept_client_def res_simps split: option.splits)

lemma session_exit_code: "session_exit r = Err e \<Longrightarrow> exit_code e = 5"
  by (auto simp: session_exit_def split: sum.splits session_outcome.splits)

lemma map_sum_Err: "map_sum id f r = Err e \<longleftrightarrow> r = Err e"
  by (cases r) auto

lemma select_exit:
  "select_branches p B secret gone s = (Some (Err e), s') \<Longrightarrow> (gone = Some (Err e) \<Longrightarrow> exit_code e = 6) \<Longrightarrow> exit_code e \<in> {4, 5, 6}"
  by (cases "ps_winner p")
    (auto simp: select_branches_def session_exit_code map_sum_Err split: prod.splits option.splits)

text \<open>The session of a branch that wins is a session that ran.\<close>

lemma select_session:
  "snd (select_branches p B secret gone s) =
    snd (session_run (ps_codec p) B (ps_order p) (ps_version p) secret (ps_handshake_late p) (ps_wakes p) s)"
  by (simp add: select_branches_def split: prod.split winner.split)

lemma run_error_codes:
  assumes "fst (run p B b a secret d) = Some (Err e)" shows "exit_code e \<in> {4, 5, 6}"
proof (cases "try_bind (make_dirs p a) (\<lambda>_. attach (ps_kill p) (val_parent_pid a))")
  case (Inl e')
  with assms have "e' = e" by (simp add: run_def Let_def)
  with Inl show ?thesis by (auto simp: res_simps make_dirs_exit attach_exit)
next
  case (Inr pid)
  obtain x d1 where b: "ipc_bind (ps_calls p) (val_ipc a) d = (x, d1)" by (rule prod.exhaust)
  obtain r s where sel: "select_branches p B secret (wait_for_exit (ps_kill p) 1) (new_session (ps_stream p) b) = (r, s)" by (rule prod.exhaust)
  from assms Inr b sel select_exit [of p B secret "wait_for_exit (ps_kill p) 1" "new_session (ps_stream p) b" e s] wait_exit [of "ps_kill p" 1 e] show ?thesis
    by (cases x; cases "accept_client p"; cases r) (auto simp: run_def Let_def accept_exit)
qed

lemma run_windows_error_codes:
  assumes "fst (run_windows p B b a secret w) = Some (Err e)" shows "exit_code e \<in> {4, 5, 6}"
proof -
  have serve: "exit_code e \<in> {4, 5, 6}" if "fst (serve_windows p B s0 secret parent l w1) = Some (Err e)" for s0 parent l w1
  proof -
    obtain r s where sel: "select_branches p B secret (wait_windows (ps_process p) 0) s0 = (r, s)" by (rule prod.exhaust)
    from that sel select_exit [of p B secret "wait_windows (ps_process p) 0" s0 e s] wait_windows_exit [of "ps_process p" 0 e]
    show ?thesis
      by (auto simp: serve_windows_def accept_windows_def res_simps split: prod.splits sum.splits option.splits)
  qed
  show ?thesis
  proof (cases "make_dirs p a")
    case (Inr u)
    with assms serve show ?thesis
      by (auto simp: run_windows_def Let_def attach_windows_def split: prod.splits sum.splits option.splits)
  qed (use assms in \<open>auto simp: run_windows_def Let_def make_dirs_exit\<close>)
qed

text \<open>What the status says, once the errors of the arguments and of the run have their codes.\<close>

lemma main_status_exact:
  assumes arguments: "\<And>e. x = Err e \<Longrightarrow> exit_code e = 2"
    and runs: "\<And>v secret e. run_helper v secret = Some (Err e) \<Longrightarrow> exit_code e \<in> {4, 5, 6}"
    and st: "main_status x (read_from stdin) run_helper = Some st"
  shows "st \<in> {0, 2, 3, 4, 5, 6} \<and> (st = 2 \<longleftrightarrow> \<not> is_ok x)
    \<and> (st = 3 \<longleftrightarrow> is_ok x \<and> read_from stdin = Err InvalidBootstrapSecret)
    \<and> (st = 0 \<longleftrightarrow> (\<exists>v secret reason. x = Ok v \<and> read_from stdin = Ok secret \<and> run_helper v secret = Some (Ok reason)))"
proof (cases x)
  case (Inl e)
  with arguments [OF this] st show ?thesis by (auto simp: main_status_def)
next
  case v: (Inr v)
  show ?thesis
  proof (cases "read_from stdin")
    case (Inl e)
    then have "e = InvalidBootstrapSecret \<and> exit_code e = 3 \<or> exit_code e = 4 \<and> e \<noteq> InvalidBootstrapSecret"
      by (auto simp: read_from_def res_simps split: if_splits)
    with v Inl st show ?thesis by (auto simp: main_status_def)
  next
    case (Inr secret)
    with v st obtain r where r: "run_helper v secret = Some r" "st = (case r of Ok _ \<Rightarrow> 0 | Err e \<Rightarrow> exit_code e)"
      by (auto simp: main_status_def)
    with v Inr runs [of v secret] show ?thesis by (cases r) auto
  qed
qed

lemma pipe_bind_pid:
  "pipe_bind api a w = (Ok l, w') \<Longrightarrow> pl_expected_client_pid l = val_parent_pid a"
  by (auto simp: pipe_bind_def and_then_def split: prod.splits sum.splits)

lemma accept_windows_Ok:
  assumes "accept_windows conn l w = (Ok h, l', w')"
  shows "\<exists>c. conn = Some c \<and> cn_connect c = None \<and> cn_client_pid c = Ok (pl_expected_client_pid l)"
  using assms
  by (auto simp: accept_windows_def pipe_accept_def Let_def res_simps split: option.splits prod.splits sum.splits if_splits)

lemma close_earlier:
  assumes "win_holds ((hs @ [g]) @ [h]) (ps @ [(h, np)]) bs w" "list_all (\<lambda>p. fst p \<in> set hs) ps"
  shows "win_holds (hs @ [h]) (ps @ [(h, np)]) bs (close_handle g w)"
proof -
  have "g \<notin> set hs" "g \<noteq> h" using assms(1) by (auto simp: win_holds_def)
  moreover from this assms(2) have "filter (\<lambda>i. i \<noteq> g) hs = hs" "filter (\<lambda>p. fst p \<noteq> g) ps = ps"
    by (auto simp: filter_id_conv list_all_iff)
  ultimately show ?thesis using close_handle_holds [OF assms(1), of g] by simp
qed

lemma accept_windows_holds:
  assumes w: "win_holds (hs @ [h]) (ps @ [(h, np)]) bs w" and ps: "list_all (\<lambda>p. fst p \<in> set hs) ps"
    and l: "pl_server l = Some h" and acc: "accept_windows conn l w = (r, l', w')"
  shows "pl_server l' = None \<and> (case r of Err _ \<Rightarrow> win_holds hs ps bs w' | Ok h' \<Rightarrow> h' = h \<and> w' = w)"
proof (cases conn)
  case None
  with pipe_cancelled_holds [OF w ps l] acc show ?thesis by (auto simp: accept_windows_def)
next
  case (Some c)
  obtain r1 l1 w1 where p: "pipe_accept c l w = (r1, l1, w1)" by (metis prod.exhaust)
  with Some acc have "r = map_err HelperIpc r1" "l' = l1" "w' = w1" by (auto simp: accept_windows_def)
  with p pipe_accept_holds [OF w ps l, of c] pipe_accept_server [of c l w] show ?thesis by (cases r1) (auto simp: res_simps)
qed

text \<open>
  What is held when the run has returned, and while it goes on: then there is the parent's handle and the
  private pipe.
\<close>

definition run_holds ::
    "nat list \<Rightarrow> (nat \<times> named_pipe) list \<Rightarrow> (nat \<times> u16 list) list \<Rightarrow> named_pipe
      \<Rightarrow> (helper_error + exit_reason) option \<times> 'b session \<times> win_world \<Rightarrow> bool" where
  "run_holds hs ps bs np x = (case x of
      (Some _, _, w) \<Rightarrow> win_holds hs ps bs w
    | (None, _, w) \<Rightarrow> (\<exists>parent h. win_holds (hs @ [parent, h]) (ps @ [(h, np)]) bs w))"

lemma serve_windows_holds:
  assumes w: "win_holds ((hs @ [parent]) @ [h]) (ps @ [(h, np)]) bs w" and ps: "list_all (\<lambda>p. fst p \<in> set hs) ps"
    and l: "pl_server l = Some h"
  shows "run_holds hs ps bs np (serve_windows p B s0 secret parent l w)"
proof -
  have ps1: "list_all (\<lambda>p. fst p \<in> set (hs @ [parent])) ps" using ps by (auto simp: list_all_iff)
  obtain r l' w' where acc: "accept_windows (ps_connection p) l w = (r, l', w')" by (metis prod.exhaust)
  note accepted = accept_windows_holds [OF w ps1 l acc]
  show ?thesis
  proof (cases r)
    case (Inl e)
    with accepted have "pl_server l' = None" "win_holds (hs @ [parent]) ps bs w'" by auto
    with close_last_handle [OF _ ps] acc Inl show ?thesis
      by (simp add: serve_windows_def run_holds_def drop_guard_def drop_pipe_listener_def)
  next
    case (Inr h')
    with accepted have [simp]: "pl_server l' = None" "h' = h" "w' = w" by auto
    note close_last_pipe [OF close_earlier [OF w ps] ps]
    with w acc Inr show ?thesis
      by (auto simp: serve_windows_def run_holds_def drop_guard_def drop_pipe_listener_def split: prod.split option.split)
  qed
qed

lemma windows_run_holds:
  assumes w: "win_holds hs ps bs w" and sid: "sid_documented (ps_pipe p)"
  shows "run_holds hs ps bs (private_pipe (ps_pipe p) a) (run_windows p B b a secret w)"
proof (cases "make_dirs p a")
  case dirs: (Inr u)
  note pipes = win_holds_pipes [OF w]
  obtain x w1 where at: "attach_windows (ps_process p) (val_parent_pid a) w = (x, w1)" by (rule prod.exhaust)
  note attached = attach_windows_holds [OF w, of "ps_process p" "val_parent_pid a", unfolded at]
  show ?thesis
  proof (cases x)
    case par: (Inr parent)
    with attached have w1: "win_holds (hs @ [parent]) ps bs w1" by simp
    obtain y w2 where bi: "pipe_bind (ps_pipe p) a w1 = (y, w2)" by (rule prod.exhaust)
    note bound = pipe_bind_holds [OF w1 sid, of a, unfolded bi]
    show ?thesis
    proof (cases y)
      case (Inl e)
      with bound have "win_holds (hs @ [parent]) ps bs w2" by simp
      from close_last_handle [OF this pipes] dirs at par bi Inl show ?thesis
        by (simp add: run_windows_def run_holds_def Let_def drop_guard_def)
    next
      case (Inr l)
      with bound obtain h where "pl_server l = Some h"
        and "win_holds ((hs @ [parent]) @ [h]) (ps @ [(h, private_pipe (ps_pipe p) a)]) bs w2" by auto
      with serve_windows_holds pipes dirs at par bi Inr show ?thesis by (simp add: run_windows_def Let_def)
    qed
  qed (use dirs at attached in \<open>simp add: run_windows_def run_holds_def Let_def\<close>)
qed (use w in \<open>simp add: run_windows_def run_holds_def Let_def\<close>)

section \<open>Properties\<close>


text \<open>C29: Only the owner of the process is served, and on Windows only its parent. Unless the peer that connects runs as
  the same user, or is the process that the command line names, the run ends with an error and the session never
  reads, writes or changes anything.\<close>

theorem only_owner_served:
  "(case run p B b a secret d of
     (r, s, _) \<Rightarrow> ps_accept p = Some (Accepted (Ok (ps_euid p)))
       \<or> s = new_session (ps_stream p) b \<and> (\<exists>e. r = Some (Err e)))
   \<and> (case run_windows q B b a secret w of
     (r, s, _) \<Rightarrow> (\<exists>c. ps_connection q = Some c \<and> cn_connect c = None \<and> cn_client_pid c = Ok (val_parent_pid a))
       \<or> s = new_session (ps_stream q) b \<and> (\<exists>e. r = Some (Err e)))"
proof
  have "ps_accept p = Some (Accepted (Ok (ps_euid p)))" if "accept_client p = Ok ()"
    using that by (auto simp: accept_client_def ipc_accept_def res_simps split: option.splits accept_outcome.splits if_splits)
  then show "case run p B b a secret d of
     (r, s, _) \<Rightarrow> ps_accept p = Some (Accepted (Ok (ps_euid p)))
       \<or> s = new_session (ps_stream p) b \<and> (\<exists>e. r = Some (Err e))"
    by (auto simp: run_def Let_def split: sum.split prod.split option.split)
  show "case run_windows q B b a secret w of
     (r, s, _) \<Rightarrow> (\<exists>c. ps_connection q = Some c \<and> cn_connect c = None \<and> cn_client_pid c = Ok (val_parent_pid a))
       \<or> s = new_session (ps_stream q) b \<and> (\<exists>e. r = Some (Err e))"
    by (auto simp: run_windows_def serve_windows_def Let_def split: sum.split prod.split option.split
        dest!: accept_windows_Ok pipe_bind_pid)
qed

text \<open>C32: On Windows the run gives back what it took. When it has returned, on whatever path, exactly the handles, pipes
  and blocks of memory are held that were held before, none was released twice or used after its release, and no
  text was read past its end. As long as the run goes on there are two handles more, the parent's and that
  of one pipe. The pipe has the endpoint's name, it is the first and only instance and closed to other
  machines, its handle is not inherited, and its descriptor grants access to the system and to
  the user of the process and to nobody else.\<close>

theorem windows_run_balanced:
  assumes "win_holds hs ps bs w" "sid_documented (ps_pipe p)"
  shows "case run_windows p B b a secret w of
      (Some _, _, w') \<Rightarrow> win_holds hs ps bs w'
    | (None, _, w') \<Rightarrow> \<exists>parent h. win_holds (hs @ [parent, h])
        (ps @ [(h, \<lparr>np_name = val_ipc a,
          np_options = \<lparr>po_first_pipe_instance = True, po_reject_remote_clients = True, po_max_instances = 1\<rparr>,
          np_descriptor = encode_utf16 (''D:P(A;;GA;;;SY)(A;;GA;;;'' @ sid_of (ps_pipe p) @ '')''), np_inherit = False\<rparr>)]) bs w'"
  using windows_run_holds [OF assms, of a B b secret]
  unfolding run_holds_def private_pipe_def server_options_def sddl_for_def .

definition sample_windows :: "string windows_env" where
  "sample_windows = \<lparr>ps_mkdir = (\<lambda>_. None),
     ps_stream = (\<lparr>rx = [], rx_end = None\<rparr>, \<lparr>tx = [], tx_quota = None, tx_error = IoError NotConnected [], tx_flush = None\<rparr>),
     ps_winner = ParentWins, ps_ctrl_c = None, ps_codec = sample_codec, ps_version = ''0.1'', ps_handshake_late = True,
     ps_wakes = [], ps_order = (\<lambda>ks. ks),
     ps_process = \<lparr>pa_open = (\<lambda>_. None), pa_wait = (\<lambda>t. if t < 3 then WAIT_TIMEOUT else WAIT_OBJECT_0), pa_wait_error = (\<lambda>_. [])\<rparr>,
     ps_pipe = sample_pipe_api,
     ps_connection = Some \<lparr>cn_connect = None, cn_client_pid = Ok 5\<rparr>\<rparr>"

theorem windows_run_balanced_witness:
  "case run_windows sample_windows key_backend [] sample_args [] sample_world of
      (Some _, _, w') \<Rightarrow> win_holds [3] [] [(4, [65, 0])] w'
    | (None, _, w') \<Rightarrow> False"
proof -
  let ?run = "run_windows sample_windows key_backend [] sample_args [] sample_world"
  have d: "sid_documented (ps_pipe sample_windows)" by (simp add: sample_sid sample_windows_def)
  have "wait_windows (ps_process sample_windows) 0 = Some (Ok ())"
    by (simp add: wait_windows.simps sample_windows_def WAIT_TIMEOUT_def WAIT_OBJECT_0_def)
  then have "fst ?run \<noteq> None"
    by (auto simp: run_windows_def serve_windows_def select_branches_def sample_windows_def Let_def split: prod.split sum.split option.split)
  with windows_run_balanced [OF sample_world_holds d, of sample_args key_backend "[]" "[]"] show ?thesis
    by (auto split: prod.splits option.splits)
qed

text \<open>C30: The socket is private and leaves no trace. While the run lasts, the file at the endpoint is a socket that only
  its owner can use; a path that exists is never taken over. When the run has returned and no system call failed on the
  way, the directory is as before if nobody else changed it, and whatever others put there, also in the
  place of the socket, is left alone.\<close>

theorem socket_cleanup:
  assumes "run p B b a secret d = (Some r, s, d')" "bc_chmod (ps_calls p) = None" "bc_stat (ps_calls p) = None"
    "ps_drop_stat p = None" "ps_drop_remove p = None"
  shows "d' = d \<or> (\<exists>made. d (val_ipc a) = None \<and> nd_socket made \<and> nd_mode made = 0x180
    \<and> (let during = ps_others p (d(val_ipc a \<mapsto> made)) in
        (during = d(val_ipc a \<mapsto> made) \<longrightarrow> d' = d)
        \<and> (\<forall>q n. during q = Some n \<and> (q \<noteq> val_ipc a \<or> \<not> nd_socket n
              \<or> (nd_device n, nd_inode n) \<noteq> (nd_device made, nd_inode made)) \<longrightarrow> d' q = Some n)))"
proof (cases "try_bind (make_dirs p a) (\<lambda>_. attach (ps_kill p) (val_parent_pid a))")
  case (Inl e)
  with assms show ?thesis by (simp add: run_def Let_def)
next
  case (Inr pid)
  obtain x d1 where b: "ipc_bind (ps_calls p) (val_ipc a) d = (x, d1)" by (rule prod.exhaust)
  show ?thesis
  proof (cases x)
    case (Inl e)
    with b ipc_bind_Err [OF _ assms(2,3)] assms(1) Inr show ?thesis by (simp add: run_def Let_def)
  next
    case l: (Inr l)
    let ?made = "\<lparr>nd_socket = True, nd_exists = True, nd_device = li_device l, nd_inode = li_inode l, nd_mode = socket_mode\<rparr>"
    note made = ipc_bind_Ok [OF b [unfolded l]]
    have "d' = drop_listener None None l (ps_others p d1)"
      using assms Inr b l by (auto simp: run_def Let_def split: sum.splits prod.splits option.splits)
    with made show ?thesis
      by (intro disjI2 exI [of _ ?made]) (auto simp: Let_def drop_listener_def socket_mode_def split: option.splits)
  qed
qed

definition sample_process :: "string unix_env" where
  "sample_process = \<lparr>ps_mkdir = (\<lambda>_. None),
     ps_stream = (\<lparr>rx = [], rx_end = None\<rparr>, \<lparr>tx = [], tx_quota = None, tx_error = IoError NotConnected [], tx_flush = None\<rparr>),
     ps_winner = SignalWins, ps_ctrl_c = None, ps_codec = sample_codec, ps_version = ''0.1'', ps_handshake_late = True,
     ps_wakes = [], ps_order = (\<lambda>ks. ks), ps_kill = (\<lambda>_. KillOk),
     ps_calls = \<lparr>bc_bind = Ok (1, 2), bc_mode = 0x1ED, bc_chmod = None, bc_stat = None\<rparr>,
     ps_accept = Some (Accepted (Ok 1000)), ps_euid = 1000, ps_others = (\<lambda>d. d), ps_drop_stat = None, ps_drop_remove = None\<rparr>"

lemma sample_process_run:
  "\<exists>s d'. run sample_process key_backend [] sample_args [] (\<lambda>_. None) = (Some (Ok ExitInterrupted), s, d')"
  by (simp add: run_def Let_def sample_process_def sample_args_def make_dirs_def attach_def is_unix_process_alive_def
      ipc_bind_def accept_client_def ipc_accept_def select_branches_def res_simps split: prod.split)

theorem socket_cleanup_witness:
  "\<exists>s. run sample_process key_backend [] sample_args [] (\<lambda>_. None) = (Some (Ok ExitInterrupted), s, \<lambda>_. None)"
proof -
  obtain s d' where r: "run sample_process key_backend [] sample_args [] (\<lambda>_. None) = (Some (Ok ExitInterrupted), s, d')"
    using sample_process_run by blast
  have "d' = (\<lambda>_. None)"
    using socket_cleanup [OF r] by (auto simp: sample_process_def Let_def)
  with r show ?thesis by blast
qed

end
