(* ===== verification/Discovery.thy ===== *)
theory Discovery
  imports Os_Files Framing Credentials
begin

text \<open>
  \<open>network/discovery.rs\<close>: a host advertises its loopback endpoints in a file named after the room,
  so that a member on the same machine needs no mesh. The clock is the time since the Unix epoch in
  nanoseconds (negative before it), \<open>serde_json\<close> is a pair of functions, and the file system is that of
  \<open>Os_Files\<close>.
\<close>

section \<open>Advertisements\<close>

definition MAX_AGE :: nat where
  "MAX_AGE = 6 * 60 * 60"

record room_endpoint_advertisement =
  adv_room_code :: string
  adv_scaffolding :: string
  adv_minecraft :: string
  published_unix_seconds :: u64

record discovery_env =
  de_windows :: bool
  de_dir :: "string option"
  de_temp_dir :: string
  de_to_vec :: "room_endpoint_advertisement \<Rightarrow> json_error + bytes"
  de_from_slice :: "bytes \<Rightarrow> json_error + room_endpoint_advertisement"

definition parse_loopback :: "string \<Rightarrow> room_error + socket_addr" where
  "parse_loopback value =
    try_bind (ok_or (room_error_new ''network.discovery-invalid''
                       ''The local room advertisement contains an invalid endpoint.'' False)
                (parse_socket_addr value)) (\<lambda>address.
      if \<not> is_loopback address \<or> addr_port address = 0
      then Err (room_error_new ''network.discovery-invalid''
                  ''The local room advertisement must use a loopback endpoint.'' False)
      else Ok address)"

definition scaffolding_addr :: "room_endpoint_advertisement \<Rightarrow> room_error + socket_addr" where
  "scaffolding_addr a = parse_loopback (adv_scaffolding a)"

definition minecraft_addr :: "room_endpoint_advertisement \<Rightarrow> room_error + socket_addr" where
  "minecraft_addr a = parse_loopback (adv_minecraft a)"

definition discovery_io_error :: "io_error \<Rightarrow> room_error" where
  "discovery_io_error e =
    room_error_new ''network.discovery-io'' (''Local room discovery failed: '' @ io_message e) True"

definition discovery_root :: "discovery_env \<Rightarrow> string" where
  "discovery_root env = (case de_dir env of
      Some explicit \<Rightarrow> explicit
    | None \<Rightarrow> path_join (de_windows env) (path_join (de_windows env) (de_temp_dir env) ''pcln-terracotta'') ''rooms'')"

definition advertisement_path :: "discovery_env \<Rightarrow> string \<Rightarrow> room_error + string" where
  "advertisement_path env room =
    (let compact = compact_room_code room in
     if length compact \<noteq> 12 \<or> \<not> list_all is_ascii_alphanumeric compact
     then Err (room_error_new ''room.invalid-code''
                 ''The room code must contain three groups of four ASCII letters or digits.'' False)
     else Ok (path_join (de_windows env) (discovery_root env) (compact @ ''.json'')))"

definition now_unix_seconds :: "int \<Rightarrow> u64" where
  "now_unix_seconds clock = (if clock < 0 then 0 else word_of_int (clock div 1000000000))"

definition saturating_sub :: "u64 \<Rightarrow> u64 \<Rightarrow> u64" where
  "saturating_sub a b = (if a < b then 0 else a - b)"

definition advertisement_is_stale :: "int \<Rightarrow> u64 \<Rightarrow> bool" where
  "advertisement_is_stale clock published \<longleftrightarrow>
    MAX_AGE < unat (saturating_sub (now_unix_seconds clock) published)"

text \<open>\<open>restrict_directory\<close> and \<open>restrict_file\<close>: the permission bits on Unix, nothing on Windows.\<close>

definition restrict_mode ::
    "discovery_env \<Rightarrow> fs_faults \<Rightarrow> nat \<Rightarrow> string \<Rightarrow> file_system \<Rightarrow> (room_error + unit) \<times> file_system" where
  "restrict_mode env ff mode path fs =
    (if de_windows env then (Ok (), fs) else err_map discovery_io_error (set_permissions ff path mode fs))"

definition restrict_directory :: "discovery_env \<Rightarrow> fs_faults \<Rightarrow> string \<Rightarrow> file_system \<Rightarrow> (room_error + unit) \<times> file_system" where
  "restrict_directory env ff path fs = restrict_mode env ff 0x1C0 path fs"

definition restrict_file :: "discovery_env \<Rightarrow> fs_faults \<Rightarrow> string \<Rightarrow> file_system \<Rightarrow> (room_error + unit) \<times> file_system" where
  "restrict_file env ff path fs = restrict_mode env ff 0x180 path fs"

definition encode_error :: "json_error \<Rightarrow> room_error" where
  "encode_error e = room_error_new ''network.discovery-encode-failed''
     (''Failed to encode room advertisement: '' @ json_text e) False"

definition publish_local_endpoint ::
    "discovery_env \<Rightarrow> fs_faults \<Rightarrow> room_endpoint_advertisement \<Rightarrow> file_system \<Rightarrow> (room_error + string) \<times> file_system" where
  "publish_local_endpoint env ff advertisement fs =
    and_then (advertisement_path env (adv_room_code advertisement), fs) (\<lambda>path fs.
    and_then (case path_parent (de_windows env) path of
        None \<Rightarrow> (Ok (), fs)
      | Some parent \<Rightarrow>
          and_then (map_err discovery_io_error (create_dir_all ff parent), fs) (\<lambda>_ fs.
            restrict_directory env ff parent fs)) (\<lambda>_ fs.
    and_then (map_err encode_error (de_to_vec env advertisement), fs) (\<lambda>body fs.
    and_then (err_map discovery_io_error (fs_write ff path body fs)) (\<lambda>_ fs.
    and_then (restrict_file env ff path fs) (\<lambda>_ fs. (Ok path, fs))))))"

definition load_local_endpoint ::
    "discovery_env \<Rightarrow> fs_faults \<Rightarrow> int \<Rightarrow> string \<Rightarrow> file_system
      \<Rightarrow> (room_error + room_endpoint_advertisement option) \<times> file_system" where
  "load_local_endpoint env ff clock room fs =
    and_then (advertisement_path env room, fs) (\<lambda>path fs.
    if \<not> fs_is_file path fs then (Ok None, fs)
    else
      and_then (map_err discovery_io_error (fs_read ff path fs), fs) (\<lambda>body fs.
      and_then (map_err (\<lambda>_. room_error_new ''network.discovery-invalid''
                  ''The local room advertisement is invalid.'' False) (de_from_slice env body), fs) (\<lambda>advertisement fs.
      if compact_room_code room \<noteq> compact_room_code (adv_room_code advertisement)
      then (Err (room_error_new ''network.discovery-invalid''
              ''The local room advertisement does not match the requested room code.'' False), fs)
      else
        and_then (scaffolding_addr advertisement, fs) (\<lambda>_ fs.
        and_then (minecraft_addr advertisement, fs) (\<lambda>_ fs.
        if advertisement_is_stale clock (published_unix_seconds advertisement)
        then (Ok None, snd (remove_file ff path fs))
        else (Ok (Some advertisement), fs))))))"

definition clear_local_endpoint ::
    "discovery_env \<Rightarrow> fs_faults \<Rightarrow> string \<Rightarrow> file_system \<Rightarrow> (room_error + unit) \<times> file_system" where
  "clear_local_endpoint env ff room fs =
    and_then (advertisement_path env room, fs) (\<lambda>path fs.
    (case remove_file ff path fs of
       (Ok _, fs') \<Rightarrow> (Ok (), fs')
     | (Err e, fs') \<Rightarrow> if io_kind e = NotFound then (Ok (), fs') else (Err (discovery_io_error e), fs')))"

section \<open>Validation\<close>

interpretation discovery_addresses: loopback_validator parse_loopback
  by unfold_locales (auto simp: parse_loopback_def loopback_endpoint_def res_simps split: if_splits)

text \<open>The file of a room: it depends on the compact code only.\<close>

lemma advertisement_path_Ok_iff:
  "advertisement_path env room = Ok path \<longleftrightarrow> compact_ok (compact_room_code room)
    \<and> path = path_join (de_windows env) (discovery_root env) (compact_room_code room @ ''.json'')"
  by (auto simp: advertisement_path_def compact_ok_def Let_def)

lemma advertisement_path_cong:
  "compact_room_code room = compact_room_code room' \<Longrightarrow> advertisement_path env room = advertisement_path env room'"
  by (simp add: advertisement_path_def)

lemma advertisement_path_inj:
  "advertisement_path env room = Ok path \<Longrightarrow> advertisement_path env room' = Ok path
    \<Longrightarrow> compact_room_code room = compact_room_code room'"
  by (simp add: advertisement_path_Ok_iff path_join_inj)

lemma restrict_files [simp]:
  "fs_files (snd (restrict_directory env ff p fs)) = fs_files fs"
  "fs_files (snd (restrict_file env ff p fs)) = fs_files fs"
  by (simp_all add: restrict_directory_def restrict_file_def restrict_mode_def fs_frame)

section \<open>Publishing\<close>

lemma publish_Ok:
  assumes "publish_local_endpoint env ff a fs = (Ok path, fs')"
  obtains body where "advertisement_path env (adv_room_code a) = Ok path" "de_to_vec env a = Ok body"
    "fs_files fs' = (fs_files fs)(path := Some body)"
    "\<not> de_windows env \<Longrightarrow> fs_modes fs' path = Some 0x180"
proof -
  from assms obtain fs1 body fs2 fs3 where
    p: "advertisement_path env (adv_room_code a) = Ok path" and b: "de_to_vec env a = Ok body"
    and d: "(case path_parent (de_windows env) path of
        None \<Rightarrow> (Ok (), fs)
      | Some parent \<Rightarrow>
          and_then (map_err discovery_io_error (create_dir_all ff parent), fs) (\<lambda>_ fs.
            restrict_directory env ff parent fs)) = (Ok (), fs1)"
    and w: "fs_write ff path body fs1 = (Ok (), fs2)"
    and r: "restrict_file env ff path fs2 = (Ok (), fs')"
    unfolding publish_local_endpoint_def by (auto simp: and_then_Ok_iff err_map_Ok_iff res_simps)
  have "fs_files fs1 = fs_files fs"
    using d by (auto simp: and_then_Ok_iff split: option.splits dest!: arg_cong [where f = "\<lambda>x. fs_files (snd x)"])
  moreover have "fs_files fs2 = (fs_files fs1)(path := Some body)"
    using w by (auto simp: fs_write_def split: option.splits)
  moreover have "fs_files fs' = fs_files fs2"
    using restrict_files(2) [of env ff path fs2] r by simp
  moreover have "fs_modes fs' path = Some 0x180" if "\<not> de_windows env"
    using r that by (auto simp: restrict_file_def restrict_mode_def set_permissions_def sc_simps split: option.splits)
  ultimately show ?thesis using that p b by simp
qed

lemma load_published:
  assumes "advertisement_path env room = Ok path" "fs_files fs path = Some body" "read_fault ff path = None"
    "de_from_slice env body = Ok a" "compact_room_code (adv_room_code a) = compact_room_code room"
    "parse_loopback (adv_scaffolding a) = Ok x" "parse_loopback (adv_minecraft a) = Ok y"
  shows "load_local_endpoint env ff clock room fs =
    (if advertisement_is_stale clock (published_unix_seconds a) then (Ok None, snd (remove_file ff path fs))
     else (Ok (Some a), fs))"
  using assms by (simp add: load_local_endpoint_def sc_simps fs_is_file_def fs_read_def ok_or_def
      scaffolding_addr_def minecraft_addr_def)

lemma load_absent:
  "advertisement_path env room = Ok path \<Longrightarrow> fs_files fs path = None
    \<Longrightarrow> load_local_endpoint env ff clock room fs = (Ok None, fs)"
  by (simp add: load_local_endpoint_def sc_simps fs_is_file_def)

lemma load_Some:
  assumes "load_local_endpoint env ff clock room fs = (Ok (Some a), fs')"
  shows "fs' = fs \<and> compact_ok (compact_room_code room) \<and> compact_room_code (adv_room_code a) = compact_room_code room
    \<and> \<not> advertisement_is_stale clock (published_unix_seconds a)
    \<and> (\<exists>x. parse_loopback (adv_scaffolding a) = Ok x) \<and> (\<exists>y. parse_loopback (adv_minecraft a) = Ok y)"
  using assms unfolding load_local_endpoint_def
  by (auto simp: and_then_Ok_iff res_simps advertisement_path_Ok_iff scaffolding_addr_def minecraft_addr_def
      split: if_splits)

text \<open>Clearing removes the file of the room, unless the removal fails.\<close>

lemma clear_Ok:
  assumes "clear_local_endpoint env ff room fs = (Ok (), fs')" "advertisement_path env room = Ok path"
    "\<And>e. remove_fault ff path = Some e \<Longrightarrow> io_kind e \<noteq> NotFound"
  shows "fs_files fs' = (fs_files fs)(path := None)"
  using assms
  by (auto simp: clear_local_endpoint_def sc_simps remove_file_def fs_is_file_def split: option.splits if_splits)

lemma clear_total: "compact_ok (compact_room_code room) \<Longrightarrow> remove_fault ff = (\<lambda>_. None)
    \<Longrightarrow> fst (clear_local_endpoint env ff room fs) = Ok ()"
  by (simp add: clear_local_endpoint_def advertisement_path_def compact_ok_def Let_def sc_simps remove_file_def)

section \<open>The clock\<close>

lemma not_stale_iff:
  "\<not> advertisement_is_stale clock published \<longleftrightarrow> unat (now_unix_seconds clock) \<le> unat published + MAX_AGE"
proof (cases "now_unix_seconds clock < published")
  case True
  then show ?thesis by (simp add: advertisement_is_stale_def saturating_sub_def word_less_nat_alt)
next
  case False
  then have "unat (now_unix_seconds clock - published) = unat (now_unix_seconds clock) - unat published"
    by (simp add: unat_sub word_le_nat_alt not_less)
  with False show ?thesis by (auto simp: advertisement_is_stale_def saturating_sub_def)
qed

lemma now_unix_seconds_nat:
  assumes "0 \<le> clock" "clock < 2 ^ 63" shows "unat (now_unix_seconds clock) = nat (clock div 1000000000)"
proof -
  have "clock div 1000000000 \<le> clock" using zdiv_mono2 [of clock 1 1000000000] assms by simp
  then have "clock div 1000000000 < 2 ^ 64" using assms by simp
  with assms show ?thesis
    by (simp add: now_unix_seconds_def unat_eq_nat_uint uint_word_of_int take_bit_eq_mod)
qed

lemma fresh_within_age:
  assumes "0 \<le> published" "published \<le> clock" "clock < 2 ^ 63" "clock - published \<le> 6 * 60 * 60 * 1000000000"
  shows "\<not> advertisement_is_stale clock (now_unix_seconds published)"
proof -
  have "clock div 1000000000 \<le> (published + 21600 * 1000000000) div 1000000000"
    using assms by (intro zdiv_mono1) auto
  then have "clock div 1000000000 \<le> published div 1000000000 + 21600" by simp
  with assms show ?thesis
    by (simp add: not_stale_iff now_unix_seconds_nat MAX_AGE_def)
qed

section \<open>Only the room's own file\<close>

text \<open>An operation on the files of the rooms that changes at most the file of one of them.\<close>

definition touches_only :: "discovery_env \<Rightarrow> string \<Rightarrow> file_system \<Rightarrow> file_system \<Rightarrow> bool" where
  "touches_only env room fs fs' \<longleftrightarrow> (\<forall>q. fs_files fs' q \<noteq> fs_files fs q \<longrightarrow> advertisement_path env room = Ok q)"

lemma touches_refl [simp]: "touches_only env room fs fs"
  by (simp add: touches_only_def)

lemma touches_write: "advertisement_path env room = Ok p \<Longrightarrow> touches_only env room fs0 fs
    \<Longrightarrow> touches_only env room fs0 (snd (fs_write ff p body fs))"
  using fs_frame(1) unfolding touches_only_def by metis

lemma touches_remove: "advertisement_path env room = Ok p \<Longrightarrow> touches_only env room fs0 fs
    \<Longrightarrow> touches_only env room fs0 (snd (remove_file ff p fs))"
  using fs_frame(2) unfolding touches_only_def by metis

lemma touches_files: "fs_files fs' = fs_files fs \<Longrightarrow> touches_only env room fs0 fs \<Longrightarrow> touches_only env room fs0 fs'"
  by (simp add: touches_only_def)

lemma touches_restrict:
  "touches_only env room fs0 fs \<Longrightarrow> touches_only env room fs0 (snd (restrict_directory env ff p fs))"
  "touches_only env room fs0 fs \<Longrightarrow> touches_only env room fs0 (snd (restrict_file env ff p fs))"
  by (auto intro: touches_files [rotated])

lemma touches_and_then:
  "touches_only env room fs0 (snd x)
    \<Longrightarrow> (\<And>v s. x = (Ok v, s) \<Longrightarrow> touches_only env room fs0 s \<Longrightarrow> touches_only env room fs0 (snd (f v s)))
    \<Longrightarrow> touches_only env room fs0 (snd (and_then x f))"
  by (rule and_then_keeps)

lemma publish_touches: "touches_only env (adv_room_code a) fs (snd (publish_local_endpoint env ff a fs))"
  unfolding publish_local_endpoint_def
  by (intro touches_and_then) (auto intro!: touches_and_then touches_write touches_restrict split: option.split)

lemma load_touches: "touches_only env room fs (snd (load_local_endpoint env ff clock room fs))"
  unfolding load_local_endpoint_def
  by (rule touches_and_then) (auto intro!: touches_and_then touches_remove)

lemma clear_touches: "touches_only env room fs (snd (clear_local_endpoint env ff room fs))"
proof (cases "advertisement_path env room")
  case (Inr path)
  obtain x fs' where r: "remove_file ff path fs = (x, fs')" by (rule prod.exhaust)
  then have "touches_only env room fs fs'" using touches_remove [OF Inr touches_refl, of fs ff] by simp
  with Inr r show ?thesis by (cases x) (simp_all add: clear_local_endpoint_def sc_simps)
qed (simp add: clear_local_endpoint_def sc_simps)

text \<open>What was published is found for six hours.\<close>

lemma published_found:
  assumes "publish_local_endpoint env ff a fs = (Ok path, fs')"
    and "\<And>body. de_to_vec env a = Ok body \<Longrightarrow> de_from_slice env body = Ok a"
    and "adv_scaffolding a = addr_to_string x" "adv_minecraft a = addr_to_string y"
    and "loopback_endpoint x" "loopback_endpoint y"
    and "published_unix_seconds a = now_unix_seconds published"
    and "0 \<le> published" "published \<le> clock" "clock < 2 ^ 63" "clock - published \<le> 6 * 60 * 60 * 1000000000"
    and "compact_room_code room = compact_room_code (adv_room_code a)" "read_fault ff' path = None"
  shows "load_local_endpoint env ff' clock room fs' = (Ok (Some a), fs')
    \<and> (\<not> de_windows env \<longrightarrow> fs_modes fs' path = Some 0x180)"
proof -
  obtain body where body: "advertisement_path env (adv_room_code a) = Ok path" "de_to_vec env a = Ok body"
    "fs_files fs' = (fs_files fs)(path := Some body)" "\<not> de_windows env \<Longrightarrow> fs_modes fs' path = Some 0x180"
    using publish_Ok [OF assms(1)] by blast
  have path: "advertisement_path env room = Ok path"
    using advertisement_path_cong [OF assms(12)] body(1) by simp
  have stored: "fs_files fs' path = Some body" using body(3) by simp
  have "parse_loopback (adv_scaffolding a) = Ok x" "parse_loopback (adv_minecraft a) = Ok y"
    using assms(3-6) discovery_addresses.validate_printed by simp_all
  from load_published [OF path stored assms(13) assms(2) [OF body(2)] assms(12) [symmetric] this]
  have "load_local_endpoint env ff' clock room fs' = (Ok (Some a), fs')"
    using fresh_within_age [OF assms(8-11)] assms(7) by simp
  with body(4) show ?thesis by simp
qed

section \<open>Properties\<close>

text \<open>C18: What a host publishes, a member on the same machine finds. If publishing succeeded at some time,
  any spelling of the room code loads that very advertisement for the next six hours (when the
  JSON encoding can be decoded and its endpoints are loopback), without changing a file;
  on Unix the file is readable and writable by its owner only. Once it has been withdrawn, again with any
  spelling, nothing is found.\<close>

theorem discovery_round_trip:
  assumes "publish_local_endpoint env ff a fs = (Ok path, fs')"
    and "\<And>body. de_to_vec env a = Ok body \<Longrightarrow> de_from_slice env body = Ok a"
    and "adv_scaffolding a = addr_to_string x" "adv_minecraft a = addr_to_string y"
    and "loopback_endpoint x" "loopback_endpoint y"
    and "published_unix_seconds a = now_unix_seconds published"
    and "0 \<le> published" "published \<le> clock" "clock < 2 ^ 63" "clock - published \<le> 6 * 60 * 60 * 1000000000"
    and "compact_room_code room = compact_room_code (adv_room_code a)" "read_fault ff' path = None"
  shows "load_local_endpoint env ff' clock room fs' = (Ok (Some a), fs')
    \<and> (\<not> de_windows env \<longrightarrow> fs_modes fs' path = Some 0x180)
    \<and> (case clear_local_endpoint env ff' room fs' of
         (Err _, _) \<Rightarrow> True
       | (Ok _, fs'') \<Rightarrow> remove_fault ff' path = None \<longrightarrow> load_local_endpoint env ff' clock room fs'' = (Ok None, fs''))"
proof -
  have path: "advertisement_path env room = Ok path"
    using publish_Ok [OF assms(1)] advertisement_path_cong [OF assms(12)] by auto
  have "load_local_endpoint env ff' clock room fs'' = (Ok None, fs'')"
    if "clear_local_endpoint env ff' room fs' = (Ok (), fs'')" "remove_fault ff' path = None" for fs''
    by (rule load_absent [OF path]) (use clear_Ok [OF that(1) path] that(2) in simp)
  with published_found [OF assms] show ?thesis by (auto split: prod.split sum.split)
qed

definition sample_advertisement :: room_endpoint_advertisement where
  "sample_advertisement = \<lparr>adv_room_code = ''AB12-CD34-EF56'', adv_scaffolding = ''127.0.0.1:25565'',
     adv_minecraft = ''127.0.0.1:25565'', published_unix_seconds = now_unix_seconds 5000000000\<rparr>"

definition sample_discovery :: discovery_env where
  "sample_discovery = \<lparr>de_windows = False, de_dir = Some ''/d'', de_temp_dir = ''/tmp'',
     de_to_vec = (\<lambda>a. if a = sample_advertisement then Ok [1] else Ok [0]),
     de_from_slice = (\<lambda>b. if b = [1] then Ok sample_advertisement else Err (JsonError ''eof''))\<rparr>"

definition empty_files :: file_system where
  "empty_files = \<lparr>fs_files = \<lambda>_. None, fs_modes = \<lambda>_. None\<rparr>"

lemma sample_compact: "compact_room_code ''AB12 CD34 EF56'' = ''AB12CD34EF56''"
  "compact_room_code ''AB12-CD34-EF56'' = ''AB12CD34EF56''"
  by (simp_all add: compact_room_code_def str_eval)

lemma sample_path: "advertisement_path sample_discovery ''AB12-CD34-EF56'' = Ok ''/d/AB12CD34EF56.json''"
  by (simp add: advertisement_path_def sample_compact Let_def sample_discovery_def discovery_root_def path_join_def
      is_sep_def has_drive_def str_eval)

lemma sample_publish:
  "fst (publish_local_endpoint sample_discovery no_faults sample_advertisement empty_files) = Ok ''/d/AB12CD34EF56.json''"
proof -
  have "adv_room_code sample_advertisement = ''AB12-CD34-EF56''" by (simp add: sample_advertisement_def)
  moreover have "de_to_vec sample_discovery sample_advertisement = Ok [1]" "\<not> de_windows sample_discovery"
    by (simp_all add: sample_discovery_def)
  ultimately show ?thesis
    by (simp add: publish_local_endpoint_def sample_path sc_simps create_dir_all_def fault_result_def no_faults_def
        restrict_directory_def restrict_file_def restrict_mode_def set_permissions_def fs_write_def
        split: option.split)
qed

theorem discovery_round_trip_witness:
  "\<exists>fs'. load_local_endpoint sample_discovery no_faults 6000000000 ''AB12 CD34 EF56'' fs'
     = (Ok (Some sample_advertisement), fs')"
proof -
  let ?a = "SocketV4 127 0 0 1 25565"
  obtain fs' where "publish_local_endpoint sample_discovery no_faults sample_advertisement empty_files
      = (Ok ''/d/AB12CD34EF56.json'', fs')"
    using sample_publish by (cases "publish_local_endpoint sample_discovery no_faults sample_advertisement empty_files") simp
  from discovery_round_trip [OF this, of ?a ?a 5000000000 6000000000 "''AB12 CD34 EF56''" no_faults]
  have "load_local_endpoint sample_discovery no_faults 6000000000 ''AB12 CD34 EF56'' fs'
     = (Ok (Some sample_advertisement), fs')"
    by (simp add: sample_advertisement_def sample_compact no_faults_def loopback_endpoint_def localhost_eval
        del: addr_to_string.simps) (simp add: sample_discovery_def sample_advertisement_def)
  then show ?thesis ..
qed

text \<open>C19: Nothing but a fresh loopback advertisement of the requested room is ever used: whatever the files
  contain, a loaded advertisement names the requested room, both its endpoints are loopback
  addresses with a non-zero port, it is at most six hours old by the clock, and loading it changed
  nothing. An older one is deleted, and counts as absent.\<close>

theorem discovery_load_sound:
  "(load_local_endpoint env ff clock room fs = (Ok (Some a), fs') \<longrightarrow>
      fs' = fs \<and> compact_room_code (adv_room_code a) = compact_room_code room
      \<and> (\<exists>x. scaffolding_addr a = Ok x \<and> loopback_endpoint x) \<and> (\<exists>y. minecraft_addr a = Ok y \<and> loopback_endpoint y)
      \<and> unat (now_unix_seconds clock) \<le> unat (published_unix_seconds a) + MAX_AGE)
    \<and> (load_local_endpoint env ff clock room fs = (Ok None, fs') \<and> advertisement_path env room = Ok path
        \<and> remove_fault ff path = None \<longrightarrow> fs_files fs' path = None)"
proof -
  have "fs_files fs' path = None" if "load_local_endpoint env ff clock room fs = (Ok None, fs')"
    "advertisement_path env room = Ok path" "remove_fault ff path = None"
    using that by (auto simp: load_local_endpoint_def sc_simps fs_is_file_def and_then_Ok_iff remove_file_def
        split: if_splits)
  moreover have "fs' = fs \<and> compact_room_code (adv_room_code a) = compact_room_code room
      \<and> (\<exists>x. scaffolding_addr a = Ok x \<and> loopback_endpoint x) \<and> (\<exists>y. minecraft_addr a = Ok y \<and> loopback_endpoint y)
      \<and> unat (now_unix_seconds clock) \<le> unat (published_unix_seconds a) + MAX_AGE"
    if "load_local_endpoint env ff clock room fs = (Ok (Some a), fs')"
    using load_Some [OF that] discovery_addresses.validate_Ok_iff
    by (auto simp: not_stale_iff scaffolding_addr_def minecraft_addr_def)
  ultimately show ?thesis by blast
qed

definition sample_files :: file_system where
  "sample_files = \<lparr>fs_files = [''/d/AB12CD34EF56.json'' \<mapsto> [1]], fs_modes = \<lambda>_. None\<rparr>"

lemma sample_load:
  "load_local_endpoint sample_discovery no_faults 6000000000 ''AB12-CD34-EF56'' sample_files
    = (Ok (Some sample_advertisement), sample_files)"
proof -
  have "parse_loopback ''127.0.0.1:25565'' = Ok (SocketV4 127 0 0 1 25565)"
    by (simp add: parse_loopback_def localhost_eval ok_or_def)
  moreover have "\<not> advertisement_is_stale 6000000000 (published_unix_seconds sample_advertisement)"
    by (simp add: sample_advertisement_def fresh_within_age)
  ultimately show ?thesis
    by (subst load_published [OF sample_path, where body = "[1]" and a = sample_advertisement])
      (simp_all add: sample_files_def no_faults_def sample_discovery_def, simp_all add: sample_advertisement_def)
qed

theorem discovery_load_sound_witness:
  "load_local_endpoint sample_discovery no_faults 6000000000 ''AB12-CD34-EF56'' sample_files
      = (Ok (Some sample_advertisement), sample_files)
    \<and> (\<exists>x. scaffolding_addr sample_advertisement = Ok x \<and> loopback_endpoint x)"
  using discovery_load_sound [of sample_discovery no_faults 6000000000 "''AB12-CD34-EF56''" sample_files
      sample_advertisement sample_files] sample_load by blast

text \<open>Rooms do not disturb each other, and clearing works. Publishing, loading and clearing change no
  file but the one named after the room's compact code in the discovery directory, whatever
  fails; so no room code reaches another file, and another room's advertisement stays as it is.
  After clearing succeeded, no spelling of the code finds the room.\<close>

theorem discovery_isolated:
  assumes "fs' \<in> {snd (publish_local_endpoint env ff a fs), snd (load_local_endpoint env ff clock (adv_room_code a) fs),
      snd (clear_local_endpoint env ff (adv_room_code a) fs)}"
  shows "(\<forall>q. fs_files fs' q \<noteq> fs_files fs q \<longrightarrow> compact_ok (compact_room_code (adv_room_code a))
      \<and> q = path_join (de_windows env) (discovery_root env) (compact_room_code (adv_room_code a) @ ''.json''))
    \<and> (\<forall>fs''. clear_local_endpoint env no_faults room fs' = (Ok (), fs'')
        \<longrightarrow> load_local_endpoint env ff clock (format_room_code (compact_room_code room)) fs'' = (Ok None, fs''))"
proof -
  have "touches_only env (adv_room_code a) fs fs'"
    using assms publish_touches load_touches clear_touches by blast
  then have *: "\<forall>q. fs_files fs' q \<noteq> fs_files fs q \<longrightarrow> compact_ok (compact_room_code (adv_room_code a))
      \<and> q = path_join (de_windows env) (discovery_root env) (compact_room_code (adv_room_code a) @ ''.json'')"
    by (simp add: touches_only_def advertisement_path_Ok_iff)
  have "load_local_endpoint env ff clock (format_room_code (compact_room_code room)) fs'' = (Ok None, fs'')"
    if clear: "clear_local_endpoint env no_faults room fs' = (Ok (), fs'')" for fs''
  proof -
    obtain path where path: "advertisement_path env room = Ok path"
      using clear by (auto simp: clear_local_endpoint_def and_then_Ok_iff)
    then have "advertisement_path env (format_room_code (compact_room_code room)) = Ok path"
      using advertisement_path_cong [OF compact_format_ok] by (simp add: advertisement_path_Ok_iff)
    moreover have "fs_files fs'' = (fs_files fs')(path := None)"
      by (rule clear_Ok [OF clear path]) (simp add: no_faults_def)
    ultimately show ?thesis by (simp add: load_absent)
  qed
  with * show ?thesis by blast
qed

theorem discovery_isolated_witness:
  "fs_files (snd (publish_local_endpoint sample_discovery no_faults sample_advertisement empty_files)) ''/etc/passwd'' = None"
proof -
  let ?fs = "snd (publish_local_endpoint sample_discovery no_faults sample_advertisement empty_files)"
  have "fs_files ?fs q \<noteq> fs_files empty_files q \<longrightarrow> advertisement_path sample_discovery ''AB12-CD34-EF56'' = Ok q" for q
    using discovery_isolated [of ?fs sample_discovery no_faults sample_advertisement empty_files]
    unfolding advertisement_path_Ok_iff by (simp add: sample_advertisement_def)
  from this [of "''/etc/passwd''"] show ?thesis by (simp add: sample_path empty_files_def)
qed

end
