(* ===== verification/EasyTier.thy ===== *)
theory EasyTier
  imports Mesh Os_Net
begin

text \<open>
  \<open>network/easytier.rs\<close>: finding the EasyTier program, the command it is started with, and its life as
  a child process. The environment variables, the program files and the results of the system
  calls are arguments.
\<close>

section \<open>Finding the program\<close>

record program_env =
  pe_windows :: bool
  pe_var :: "string \<Rightarrow> string option"
  pe_is_file :: "string \<Rightarrow> bool"
  pe_current_exe :: "io_error + string"

definition easytier_file_name :: "bool \<Rightarrow> string" where
  "easytier_file_name windows = (if windows then ''easytier-core.exe'' else ''easytier-core'')"

definition runtime_dependencies_available :: "program_env \<Rightarrow> string \<Rightarrow> bool" where
  "runtime_dependencies_available pe binary =
    (if \<not> pe_is_file pe binary then False
     else if pe_windows pe
     then (case path_parent True binary of
             None \<Rightarrow> False
           | Some directory \<Rightarrow> pe_is_file pe (path_join True directory ''Packet.dll''))
     else True)"

definition resolve_beside_executable :: "program_env \<Rightarrow> string option" where
  "resolve_beside_executable pe = (case pe_current_exe pe of
      Err _ \<Rightarrow> None
    | Ok current \<Rightarrow>
        Option.bind (path_parent (pe_windows pe) current) (\<lambda>directory.
          let candidate = path_join (pe_windows pe) directory (easytier_file_name (pe_windows pe))
          in if runtime_dependencies_available pe candidate then Some candidate else None))"

definition resolve_easytier_binary :: "program_env \<Rightarrow> string option" where
  "resolve_easytier_binary pe = (case pe_var pe ''TERRACOTTA_EASYTIER_PATH'' of
      Some path \<Rightarrow> if pe_is_file pe path then Some path else resolve_beside_executable pe
    | None \<Rightarrow> resolve_beside_executable pe)"

definition easytier_missing :: room_error where
  "easytier_missing = room_error_new ''network.easytier-missing''
     (''The EasyTier runtime or one of its required native dependencies was not found next to ''
      @ ''terracotta-helper. On Windows, easytier-core.exe and Packet.dll must be installed together.'') False"

definition allow_tun :: "program_env \<Rightarrow> bool" where
  "allow_tun pe = (case pe_var pe ''TERRACOTTA_EASYTIER_ALLOW_TUN'' of
      None \<Rightarrow> False
    | Some v \<Rightarrow> v \<in> {''1'', ''true'', ''TRUE'', ''yes'', ''YES''})"

definition DEFAULT_SHARED_PEERS :: "string list" where
  "DEFAULT_SHARED_PEERS = [''tcp://public.easytier.top:11010'', ''tcp://easytier.public.kkrainbow.top:11010'']"

definition shared_peers :: "program_env \<Rightarrow> string list" where
  "shared_peers pe = (case pe_var pe ''TERRACOTTA_EASYTIER_PEERS'' of
      Some value \<Rightarrow>
        (let peers = filter (\<lambda>v. v \<noteq> []) (map trim (split_on (\<lambda>c. c = CHR '','' \<or> c = CHR '';'') value))
         in if peers \<noteq> [] then peers else DEFAULT_SHARED_PEERS)
    | None \<Rightarrow> DEFAULT_SHARED_PEERS)"

section \<open>The command\<close>

record launch_config =
  lc_binary :: string
  lc_prefer_direct :: bool
  lc_allow_relay :: bool
  lc_host_ipv4 :: "string option"
  lc_port_forwards :: "string list"
  lc_rpc_portal :: socket_addr

record easytier_command =
  cmd_program :: string
  cmd_env :: "(string \<times> string) list"
  cmd_args :: "string list"

definition launch_command :: "program_env \<Rightarrow> room_credentials \<Rightarrow> launch_config \<Rightarrow> easytier_command" where
  "launch_command pe credentials config =
    \<lparr>cmd_program = lc_binary config,
     cmd_env = [(''ET_NETWORK_NAME'', network_name credentials), (''ET_NETWORK_SECRET'', network_secret credentials)],
     cmd_args =
       [''--use-smoltcp'', ''--multi-thread'', ''--enable-kcp-proxy'', ''--enable-quic-proxy'',
        ''--encryption-algorithm'', ''aes-gcm'', ''--compression'', ''zstd'', ''--private-mode'', ''true'',
        ''-l'', ''tcp://0.0.0.0:0'', ''-l'', ''udp://0.0.0.0:0'',
        ''--rpc-portal'', addr_to_string (lc_rpc_portal config),
        ''--rpc-portal-whitelist'', ''127.0.0.1/32,::1/128'']
       @ (if allow_tun pe then [] else [''--no-tun''])
       @ (case lc_host_ipv4 config of None \<Rightarrow> [] | Some ipv4 \<Rightarrow> [''--ipv4'', ipv4])
       @ (if lc_prefer_direct config then [''--latency-first''] else [])
       @ concat (map (\<lambda>peer. [''-p'', peer]) (shared_peers pe))
       @ concat (map (\<lambda>forward. [''--port-forward'', forward]) (lc_port_forwards config))\<rparr>"

section \<open>The process\<close>

record easytier_node =
  node_child :: nat
  node_rpc_portal :: socket_addr
  node_binary :: string

text \<open>
  \<open>spawned\<close> gives the error of \<open>spawn\<close>, if any, for the command that is issued; \<open>exited\<close> is the exit status that \<open>try_wait\<close> reports after a
  quarter of a second, if any. A child that has exited is no process any more.
\<close>

definition start_easytier ::
    "program_env \<Rightarrow> (easytier_command \<Rightarrow> io_error option) \<Rightarrow> string option \<Rightarrow> room_credentials \<Rightarrow> launch_config
      \<Rightarrow> net_world \<Rightarrow> (room_error + easytier_node) \<times> net_world" where
  "start_easytier pe spawned exited credentials config w =
    (if \<not> pe_is_file pe (lc_binary config) then (Err easytier_missing, w)
     else (case spawned (launch_command pe credentials config) of
         Some e \<Rightarrow> (Err (room_error_new ''network.easytier-start-failed'' (''Failed to start EasyTier: '' @ io_message e) True), tick w)
       | None \<Rightarrow>
           (case spawn_process w of (child, w') \<Rightarrow>
              (case exited of
                 Some status \<Rightarrow> (Err (room_error_new ''network.easytier-start-failed''
                     (''EasyTier exited immediately with status '' @ status @ ''.'') True), kill_process child w')
               | None \<Rightarrow> (Ok \<lparr>node_child = child, node_rpc_portal = lc_rpc_portal config,
                   node_binary = lc_binary config\<rparr>, w')))))"

datatype wait_outcome = WaitExited | WaitFailed io_error | WaitTimedOut

text \<open>
  Stopping kills the child and waits for it; after three seconds it kills and waits again. When waiting
  fails the handle is dropped, which kills the child as well (\<open>kill_on_drop\<close>).
\<close>

definition stop_easytier :: "wait_outcome \<Rightarrow> easytier_node \<Rightarrow> net_world \<Rightarrow> (room_error + unit) \<times> net_world" where
  "stop_easytier outcome node w = (case outcome of
      WaitExited \<Rightarrow> (Ok (), kill_process (node_child node) w)
    | WaitFailed e \<Rightarrow> (Err (room_error_new ''network.easytier-stop-failed'' (''Failed to stop EasyTier: '' @ io_message e) False),
        kill_process (node_child node) w)
    | WaitTimedOut \<Rightarrow> (Ok (), kill_process (node_child node) w))"

section \<open>Facts\<close>

lemma shared_peers_nonempty: "shared_peers pe \<noteq> [] \<and> [] \<notin> set (shared_peers pe)"
  by (auto simp: shared_peers_def DEFAULT_SHARED_PEERS_def Let_def split: option.splits)

lemma start_easytier_outcome:
  assumes "holds ls ps ss w"
  shows "ensures (holds ls ps ss) (\<lambda>node w'. holds ls (ps @ [node_child node]) ss w' \<and> node_rpc_portal node = lc_rpc_portal config
      \<and> node_binary node = lc_binary config) (start_easytier pe spawned exited credentials config w)"
proof -
  obtain i v where s: "spawn_process w = (i, v)" by (rule prod.exhaust)
  with spawn_holds [OF assms s] assms kill_last show ?thesis
    by (auto simp: start_easytier_def holds_tick split: option.splits)
qed

lemma stop_easytier_world [simp]: "snd (stop_easytier outcome node w) = kill_process (node_child node) w"
  by (simp add: stop_easytier_def split: wait_outcome.split)

lemma resolve_is_file: "resolve_easytier_binary pe = Some path \<Longrightarrow> pe_is_file pe path"
  by (auto simp: resolve_easytier_binary_def resolve_beside_executable_def runtime_dependencies_available_def Let_def
      split: option.splits sum.splits if_splits bind_splits)

text \<open>EasyTier is launched safely. For every environment and configuration, the arguments do not depend
  on the room's credentials, which are passed in the environment of the process only; TUN is
  refused unless the user allows it by one of five words; at least one shared peer is named;
  every port forward is passed on; the program is a file that exists, on Windows with its native
  dependency beside it unless the user chose the path.
\<close>

theorem easytier_launch_safe:
  "cmd_args (launch_command pe credentials config) = cmd_args (launch_command pe credentials' config)
    \<and> set (cmd_env (launch_command pe credentials config))
        = {(''ET_NETWORK_NAME'', network_name credentials), (''ET_NETWORK_SECRET'', network_secret credentials)}
    \<and> (''--no-tun'' \<in> set (cmd_args (launch_command pe credentials config)) \<or> allow_tun pe)
    \<and> (\<exists>peer. peer \<noteq> [] \<and> {''-p'', peer} \<subseteq> set (cmd_args (launch_command pe credentials config)))
    \<and> set (lc_port_forwards config) \<subseteq> set (cmd_args (launch_command pe credentials config))
    \<and> (case resolve_easytier_binary pe of None \<Rightarrow> True | Some path \<Rightarrow> pe_is_file pe path)"
proof -
  obtain peer peers where "shared_peers pe = peer # peers" "peer \<noteq> []"
    using shared_peers_nonempty [of pe] by (cases "shared_peers pe") auto
  then show ?thesis
    by (auto simp: launch_command_def resolve_is_file split: option.split)
qed

text \<open>A request that forbids relays is not honoured: the command is the same whether relays are allowed or
  not, and it names public shared nodes in both cases.
\<close>

theorem relay_choice_ignored:
  "launch_command pe credentials (config\<lparr>lc_allow_relay := False\<rparr>) = launch_command pe credentials (config\<lparr>lc_allow_relay := True\<rparr>)
    \<and> shared_peers pe \<noteq> []"
  using shared_peers_nonempty [of pe] by (simp add: launch_command_def)

end
