(* ===== verification/F64.thy ===== *)
theory F64
  imports Room_Types
begin

text \<open>
  The operations on \<open>f64\<close> that the program uses, on bit patterns: parsing (\<open>FromStr\<close>, correctly
  rounded, ties to even), multiplication and division by 100, comparison with 1, and rounding to a
  \<open>u32\<close> (\<open>round\<close> and the saturating \<open>as\<close>). A magnitude is an exact fraction of natural numbers;
  every operation computes exactly and rounds once.
\<close>

section \<open>Patterns and magnitudes\<close>

definition f64_sign :: "f64 \<Rightarrow> bool" where
  "f64_sign x \<longleftrightarrow> 2 ^ 63 \<le> unat x"

definition f64_pattern :: "f64 \<Rightarrow> nat" where
  "f64_pattern x = unat x mod 2 ^ 63"

definition f64_inf_pattern :: nat where
  "f64_inf_pattern = 2047 * 2 ^ 52"

definition f64_is_inf :: "f64 \<Rightarrow> bool" where
  "f64_is_inf x \<longleftrightarrow> f64_pattern x = f64_inf_pattern"

definition f64_make :: "bool \<Rightarrow> nat \<Rightarrow> f64" where
  "f64_make neg pattern = word_of_nat (pattern + (if neg then 2 ^ 63 else 0))"

definition f64_nan :: "bool \<Rightarrow> f64" where
  "f64_nan neg = f64_make neg (f64_inf_pattern + 2 ^ 51)"

text \<open>The significand and the exponent of a finite pattern: its value is \<open>m * 2 ^ e / 2 ^ 1075\<close>.\<close>

definition pattern_exp :: "nat \<Rightarrow> nat" where
  "pattern_exp p = max 1 (p div 2 ^ 52)"

definition pattern_mant :: "nat \<Rightarrow> nat" where
  "pattern_mant p = p mod 2 ^ 52 + (if p div 2 ^ 52 = 0 then 0 else 2 ^ 52)"

definition pattern_num :: "nat \<Rightarrow> nat" where
  "pattern_num p = pattern_mant p * 2 ^ pattern_exp p"

definition f64_scale :: nat where
  "f64_scale = 2 ^ 1075"

section \<open>Rounding\<close>

fun bit_length :: "nat \<Rightarrow> nat" where
  "bit_length n = (if n = 0 then 0 else Suc (bit_length (n div 2)))"

declare bit_length.simps [simp del]

definition div_half_even :: "nat \<Rightarrow> nat \<Rightarrow> nat" where
  "div_half_even n d =
    (let q = n div d; r = n mod d in if d < 2 * r \<or> 2 * r = d \<and> odd q then q + 1 else q)"

text \<open>The pattern nearest to \<open>num / den\<close>.\<close>

definition f64_round :: "nat \<Rightarrow> nat \<Rightarrow> nat" where
  "f64_round num den =
    (let e = max 1 (bit_length (num * f64_scale div den) - 53)
     in min f64_inf_pattern ((e - 1) * 2 ^ 52 + div_half_even (num * f64_scale) (den * 2 ^ e)))"

section \<open>The operations\<close>

text \<open>A digit string and a decimal exponent.\<close>

definition f64_of_decimal :: "bool \<Rightarrow> string \<Rightarrow> int \<Rightarrow> f64" where
  "f64_of_decimal neg digits e =
    (let n = digits_value 10 (map (\<lambda>c. code c - 48) digits)
     in f64_make neg (if 0 \<le> e then f64_round (n * 10 ^ nat e) 1 else f64_round n (10 ^ nat (- e))))"

text \<open>The exponent of the scientific notation; the library stops accumulating at \<open>0x10000\<close>.\<close>

definition scientific_exponent :: "string \<Rightarrow> int option" where
  "scientific_exponent s =
    (let neg = (s \<noteq> [] \<and> hd s = CHR ''-'');
         ds = (if s \<noteq> [] \<and> (hd s = CHR ''-'' \<or> hd s = CHR ''+'') then tl s else s);
         v = foldl (\<lambda>a c. if a < 65536 then 10 * a + (code c - 48) else a) 0 ds
     in if ds = [] \<or> \<not> list_all is_ascii_digit ds then None
        else Some (if neg then - int v else int v))"

definition parse_f64_number :: "bool \<Rightarrow> string \<Rightarrow> f64 option" where
  "parse_f64_number neg s =
    (let whole = takeWhile is_ascii_digit s;
         s1 = dropWhile is_ascii_digit s;
         point = (s1 \<noteq> [] \<and> hd s1 = CHR ''.'');
         frac = (if point then takeWhile is_ascii_digit (tl s1) else []);
         s2 = (if point then dropWhile is_ascii_digit (tl s1) else s1)
     in if whole @ frac = [] then None
        else if s2 = [] then Some (f64_of_decimal neg (whole @ frac) (- int (length frac)))
        else if hd s2 = CHR ''e'' \<or> hd s2 = CHR ''E''
        then map_option (\<lambda>e. f64_of_decimal neg (whole @ frac) (e - int (length frac))) (scientific_exponent (tl s2))
        else None)"

definition parse_f64 :: "string \<Rightarrow> f64 option" where
  "parse_f64 s =
    (let neg = (s \<noteq> [] \<and> hd s = CHR ''-'');
         body = (if s \<noteq> [] \<and> (hd s = CHR ''-'' \<or> hd s = CHR ''+'') then tl s else s);
         lower = map to_ascii_lowercase body
     in if lower = ''nan'' then Some (f64_nan neg)
        else if lower = ''inf'' \<or> lower = ''infinity'' then Some (f64_make neg f64_inf_pattern)
        else parse_f64_number neg body)"

definition f64_gt_one :: "f64 \<Rightarrow> bool" where
  "f64_gt_one x \<longleftrightarrow> \<not> f64_is_nan x \<and> \<not> f64_sign x \<and> (f64_is_inf x \<or> f64_scale < pattern_num (f64_pattern x))"

definition f64_div_100 :: "f64 \<Rightarrow> f64" where
  "f64_div_100 x = (if f64_is_nan x \<or> f64_is_inf x then x
     else f64_make (f64_sign x) (f64_round (pattern_num (f64_pattern x)) (f64_scale * 100)))"

definition f64_mul_100 :: "f64 \<Rightarrow> f64" where
  "f64_mul_100 x = (if f64_is_nan x \<or> f64_is_inf x then x
     else f64_make (f64_sign x) (f64_round (pattern_num (f64_pattern x) * 100) f64_scale))"

text \<open>\<open>value.round() as u32\<close>: halves away from zero, then saturation; a NaN gives 0.\<close>

definition f64_round_u32 :: "f64 \<Rightarrow> u32" where
  "f64_round_u32 x = (if f64_is_nan x \<or> f64_sign x then 0
     else if f64_is_inf x then 2 ^ 32 - 1
     else word_of_nat (min (2 ^ 32 - 1) ((2 * pattern_num (f64_pattern x) + f64_scale) div (2 * f64_scale))))"

section \<open>Rounding of representable values\<close>

lemma f64_scale_pos [simp]: "0 < f64_scale" "f64_scale \<noteq> 0"
  unfolding f64_scale_def by (rule zero_less_power, simp) (rule power_not_zero, simp)

lemma bit_length_mult: "0 < n \<Longrightarrow> bit_length (n * 2 ^ k) = bit_length n + k"
proof (induction k)
  case (Suc k)
  then have "bit_length (n * 2 ^ Suc k) = Suc (bit_length (n * 2 ^ Suc k div 2))"
    by (subst bit_length.simps) simp
  also have "n * 2 ^ Suc k div 2 = n * 2 ^ k" by simp
  finally show ?case using Suc by simp
qed simp

lemma bit_length_bounds: "0 < n \<Longrightarrow> 2 ^ (bit_length n - 1) \<le> n \<and> n < 2 ^ bit_length n \<and> 0 < bit_length n"
proof (induction n rule: bit_length.induct)
  case (1 n)
  show ?case
  proof (cases "n div 2 = 0")
    case True
    with 1(2) have "n = 1" by auto
    then show ?thesis by (simp add: bit_length.simps [of "Suc 0"] bit_length.simps [of 0])
  next
    case False
    with 1 have ih: "2 ^ (bit_length (n div 2) - 1) \<le> n div 2" "n div 2 < 2 ^ bit_length (n div 2)"
      "0 < bit_length (n div 2)" by auto
    have len: "bit_length n = Suc (bit_length (n div 2))" using 1(2) by (subst bit_length.simps) simp
    have "(2::nat) ^ bit_length (n div 2) = 2 * 2 ^ (bit_length (n div 2) - 1)"
      using ih(3) by (simp flip: power_Suc)
    moreover obtain P :: nat where P: "P = 2 ^ (bit_length (n div 2) - 1)" by blast
    ultimately have "P \<le> n div 2" "n div 2 < 2 * P" "2 ^ bit_length (n div 2) = 2 * P" using ih by simp_all
    moreover from this have "2 * P \<le> n" "n < 4 * P" by linarith+
    ultimately show ?thesis using len by simp
  qed
qed

lemma bit_length_unique:
  assumes "2 ^ k \<le> n" "n < 2 ^ Suc k" shows "bit_length n = Suc k"
proof -
  have pos: "0 < n" using assms(1) by (cases n) auto
  note b = bit_length_bounds [OF this]
  have "(2::nat) ^ k < 2 ^ bit_length n" using assms(1) b by linarith
  then have "k < bit_length n" by simp
  moreover have "(2::nat) ^ (bit_length n - 1) < 2 ^ Suc k" using assms(2) b by linarith
  then have "bit_length n - 1 < Suc k" by (rule power_less_imp_less_exp [rotated]) simp
  ultimately show ?thesis by linarith
qed

text \<open>A fraction that is a significand of 53 bits times a power of two in range is rounded to its pattern.\<close>

lemma f64_round_exact:
  assumes "num * f64_scale = den * (m * 2 ^ e)" "0 < den" "2 ^ 52 \<le> m" "m < 2 ^ 53" "1 \<le> e" "e \<le> 2046"
  shows "f64_round num den = (e - 1) * 2 ^ 52 + m"
proof -
  have quot: "num * f64_scale div den = m * 2 ^ e" using assms(1,2) by simp
  have pos: "0 < m" using assms(3) by (rule less_le_trans [rotated]) simp
  have "bit_length m = 53" using bit_length_unique [of 52 m] assms(3,4) by simp
  then have "bit_length (num * f64_scale div den) = 53 + e" unfolding quot by (simp only: bit_length_mult [OF pos])
  then have e: "max 1 (bit_length (num * f64_scale div den) - 53) = e" using assms(5) by simp
  have "num * f64_scale = m * (den * 2 ^ e)" using assms(1) by (simp only: mult_ac)
  then have "div_half_even (num * f64_scale) (den * 2 ^ e) = m"
    using assms(2) by (simp add: div_half_even_def)
  moreover have "(e - 1) * 2 ^ 52 + m \<le> f64_inf_pattern"
  proof -
    have "(e - 1) * 2 ^ 52 \<le> 2045 * (2 ^ 52 :: nat)" using assms(6) by (intro mult_le_mono1) simp
    then show ?thesis using assms(4) by (simp add: f64_inf_pattern_def)
  qed
  ultimately show ?thesis unfolding f64_round_def Let_def e by (simp only: min_absorb2)
qed

lemma pattern_normal:
  assumes "2 ^ 52 \<le> m" "m < 2 ^ 53" "1 \<le> e"
  shows "pattern_num ((e - 1) * 2 ^ 52 + m) = m * 2 ^ e"
proof -
  obtain f where f: "m = 2 ^ 52 + f" "f < 2 ^ 52"
    using assms(1,2) by (auto simp: le_iff_add)
  have "(e - 1) * 2 ^ 52 + m = e * 2 ^ 52 + f"
    using assms(3) f(1) by (cases e) simp_all
  then have p: "((e - 1) * 2 ^ 52 + m) div 2 ^ 52 = e" "((e - 1) * 2 ^ 52 + m) mod 2 ^ 52 = f"
    using f(2) by simp_all
  show ?thesis using assms(3) f(1) unfolding pattern_num_def pattern_mant_def pattern_exp_def p by simp
qed

section \<open>Whole numbers\<close>

lemma f64_round_nat:
  assumes "0 < n" "n < 2 ^ 53"
  obtains m e where "f64_round n 1 = (e - 1) * 2 ^ 52 + m" "m * 2 ^ e = n * f64_scale"
    "2 ^ 52 \<le> m" "m < 2 ^ 53" "1 \<le> e" "e \<le> 2046"
proof -
  let ?l = "bit_length n"
  note b = bit_length_bounds [OF assms(1)]
  have "(2::nat) ^ (?l - 1) < 2 ^ 53" using assms(2) b by linarith
  then have "?l - 1 < 53" by (rule power_less_imp_less_exp [rotated]) simp
  then have l: "?l \<le> 53" by simp
  let ?m = "n * 2 ^ (53 - ?l)" and ?e = "?l + 1022"
  have "?m * 2 ^ ?e = n * 2 ^ (53 - ?l + ?e)" by (simp add: power_add)
  moreover have "53 - ?l + ?e = 1075" using l by simp
  ultimately have eq: "?m * 2 ^ ?e = n * f64_scale" by (simp only: f64_scale_def)
  have "2 ^ 52 = (2 :: nat) ^ (?l - 1 + (53 - ?l))" using l b by simp
  also have "\<dots> = 2 ^ (?l - 1) * 2 ^ (53 - ?l)" by (rule power_add)
  also have "\<dots> \<le> ?m" using b by (intro mult_le_mono1) simp
  finally have lo: "2 ^ 52 \<le> ?m" .
  have "?m < 2 ^ ?l * 2 ^ (53 - ?l)" using b by simp
  also have "\<dots> = 2 ^ (?l + (53 - ?l))" by (rule power_add [symmetric])
  also have "\<dots> = 2 ^ 53" using l by simp
  finally have hi: "?m < 2 ^ 53" .
  have "f64_round n 1 = (?e - 1) * 2 ^ 52 + ?m"
    using l lo hi eq [symmetric] by (intro f64_round_exact) simp_all
  from that [OF this eq lo hi] l show ?thesis by simp
qed

lemma f64_make_finite:
  assumes "p < f64_inf_pattern"
  shows "f64_pattern (f64_make neg p) = p" "f64_sign (f64_make neg p) = neg"
    "\<not> f64_is_nan (f64_make neg p)" "\<not> f64_is_inf (f64_make neg p)"
proof -
  have p: "p < 2 ^ 63" using assms by (simp add: f64_inf_pattern_def)
  then have "p + (if neg then 2 ^ 63 else 0) < 2 ^ 64" by simp
  then have u: "unat (f64_make neg p) = p + (if neg then 2 ^ 63 else 0)"
    unfolding f64_make_def by (simp only: unat_of_nat take_bit_nat_eq_self_iff [symmetric] take_bit_eq_mod) simp
  then show pat: "f64_pattern (f64_make neg p) = p" "f64_sign (f64_make neg p) = neg"
    using p by (simp_all add: f64_pattern_def f64_sign_def)
  have "unat (f64_make neg p) div 2 ^ 52 mod 2048 = p div 2 ^ 52"
  proof -
    have "p div 2 ^ 52 < 2048" using p by (simp add: less_mult_imp_div_less)
    moreover have "(p + 2 ^ 63) div 2 ^ 52 = p div 2 ^ 52 + 2048" by simp
    ultimately show ?thesis by (simp add: u)
  qed
  moreover have "p div 2 ^ 52 < 2047" using assms by (simp add: f64_inf_pattern_def less_mult_imp_div_less)
  ultimately show "\<not> f64_is_nan (f64_make neg p)" by (simp add: f64_is_nan_def)
  show "\<not> f64_is_inf (f64_make neg p)" using pat(1) assms by (simp add: f64_is_inf_def)
qed

lemma f64_round_nat_value:
  assumes "n < 2 ^ 53"
  shows "pattern_num (f64_round n 1) = n * f64_scale" "f64_round n 1 < f64_inf_pattern"
proof -
  have "pattern_num (f64_round n 1) = n * f64_scale \<and> f64_round n 1 < f64_inf_pattern"
  proof (cases "n = 0")
    case True
    have "f64_round 0 1 = 0" by (simp add: f64_round_def bit_length.simps div_half_even_def)
    with True show ?thesis by (simp add: pattern_num_def pattern_mant_def f64_inf_pattern_def)
  next
    case False
    then obtain m e where me: "f64_round n 1 = (e - 1) * 2 ^ 52 + m" "m * 2 ^ e = n * f64_scale"
      "2 ^ 52 \<le> m" "m < 2 ^ 53" "1 \<le> e" "e \<le> 2046"
      using f64_round_nat [of n] assms by blast
    have "(e - 1) * 2 ^ 52 \<le> 2045 * (2 ^ 52 :: nat)" using me(6) by (intro mult_le_mono1) simp
    then have "f64_round n 1 < f64_inf_pattern" using me(1,4) by (simp add: f64_inf_pattern_def)
    with pattern_normal [OF me(3,4,5)] me(1,2) show ?thesis by simp
  qed
  then show "pattern_num (f64_round n 1) = n * f64_scale" "f64_round n 1 < f64_inf_pattern" by simp_all
qed

definition f64_of_nat :: "nat \<Rightarrow> f64" where
  "f64_of_nat n = f64_make False (f64_round n 1)"

lemma f64_of_nat_round:
  assumes "n < 2 ^ 32" shows "f64_round_u32 (f64_of_nat n) = word_of_nat n"
proof -
  have n: "n < 2 ^ 53" using assms by simp
  note v = f64_round_nat_value [OF n]
  have "(2 * (n * f64_scale) + f64_scale) div (2 * f64_scale) = (n * (2 * f64_scale) + f64_scale) div (2 * f64_scale)"
    by (simp only: mult_ac)
  also have "\<dots> = n" by (subst div_mult_self3) simp_all
  finally show ?thesis
    using assms by (simp only: f64_round_u32_def f64_of_nat_def f64_make_finite [OF v(2)] v(1)) simp
qed

lemma digits_value_codes:
  "list_all is_ascii_digit s \<Longrightarrow> map (to_digit 10) s = map Some ds \<Longrightarrow> map (\<lambda>c. code c - 48) s = ds"
proof (induction s arbitrary: ds)
  case (Cons c s)
  then show ?case by (cases ds) (auto simp: to_digit_def is_ascii_digit_def split: if_splits)
qed simp

lemma dec_value: "digits_value 10 (map (\<lambda>c. code c - 48) (dec n)) = n"
  using dec_to_digit [of n] digits_value_codes [OF dec_digits] by metis

lemma digits_not_word:
  assumes "list_all is_ascii_digit s" "s \<noteq> []" "is_ascii_lower c"
  shows "map to_ascii_lowercase s \<noteq> c # cs" "hd s \<noteq> CHR ''-''" "hd s \<noteq> CHR ''+''"
  using assms by (cases s; auto simp: is_ascii_digit_def is_ascii_lower_def is_ascii_upper_def to_ascii_lowercase_def)+

lemma parse_f64_dec: "parse_f64 (dec n) = Some (f64_of_nat n)"
proof -
  note d = dec_digits [of n]
  have "map to_ascii_lowercase (dec n) \<noteq> ''nan''" "map to_ascii_lowercase (dec n) \<noteq> ''inf''"
    "map to_ascii_lowercase (dec n) \<noteq> ''infinity''"
    by (rule digits_not_word(1) [OF d]; simp add: is_ascii_lower_def)+
  moreover have "hd (dec n) \<noteq> CHR ''-''" "hd (dec n) \<noteq> CHR ''+''"
    using digits_not_word(2,3) [OF d, of "CHR ''a''"] by (simp_all add: is_ascii_lower_def)
  moreover have "takeWhile is_ascii_digit (dec n) = dec n" "dropWhile is_ascii_digit (dec n) = []"
    using d by (simp_all add: takeWhile_eq_all_conv dropWhile_eq_Nil_conv list_all_iff)
  ultimately show ?thesis
    by (simp add: parse_f64_def parse_f64_number_def f64_of_decimal_def dec_value f64_of_nat_def Let_def
        del: takeWhile_eq_all_conv dropWhile_eq_Nil_conv)
qed

end
