(* ===== verification/Quality.thy ===== *)
theory Quality
  imports F64 Scaffolding
begin

text \<open>
  \<open>network/quality.rs\<close>: what a TCP probe says about the network. The outcome of a connection attempt
  is \<open>None\<close> when it timed out, an error, or the time it took in nanoseconds.
\<close>

type_synonym connect_outcome = "(io_error + nat) option"

definition millis_u32 :: "nat \<Rightarrow> u32" where
  "millis_u32 nanos = word_of_nat (min (nanos div 1000000) (2 ^ 32 - 1))"

definition probe_tcp_rtt :: "connect_outcome \<Rightarrow> u32 option" where
  "probe_tcp_rtt outcome = (case outcome of
      Some (Ok elapsed) \<Rightarrow> Some (millis_u32 elapsed)
    | Some (Err _) \<Rightarrow> None
    | None \<Rightarrow> None)"

definition classify_nat :: "u32 option \<Rightarrow> connection_mode \<Rightarrow> string" where
  "classify_nat rtt_ms mode = (case (rtt_ms, mode) of
      (None, _) \<Rightarrow> ''Unreachable''
    | (Some ms, ModeDirect) \<Rightarrow>
        if ms < 40 then ''LikelyOpenOrFullCone''
        else if ms < 120 then ''LikelyAddressRestricted''
        else ''LikelySymmetricOrCongested''
    | (Some _, ModeRelay) \<Rightarrow> ''RelayAssisted''
    | _ \<Rightarrow> ''Unknown'')"

definition network_from_probe :: "u32 option \<Rightarrow> bool \<Rightarrow> bool \<Rightarrow> network_status" where
  "network_from_probe rtt_ms direct relay =
    (let healthy = rtt_ms \<noteq> None;
         mode = (if \<not> healthy then ModeUnknown else if direct then ModeDirect
                 else if relay then ModeRelay else ModeUnknown)
     in \<lparr>nat_type = Some (classify_nat rtt_ms mode), net_mode = mode, net_rtt = rtt_ms,
         net_loss = (if healthy then Some 0 else None),
         relay_node = (if mode = ModeRelay then Some ''shared-public'' else None),
         is_healthy = healthy\<rparr>)"

definition member_of_profile :: "u32 option \<Rightarrow> connection_mode \<Rightarrow> player_profile \<Rightarrow> room_member" where
  "member_of_profile rtt_ms mode profile =
    \<lparr>member_id = machine_id profile, display_name = player_name profile,
     member_mode = (case player_kind_of profile of Some KindHost \<Rightarrow> ModeDirect | _ \<Rightarrow> mode),
     member_rtt = rtt_ms, member_loss = (if rtt_ms \<noteq> None then Some 0 else None)\<rparr>"

definition members_from_profiles :: "player_profile list \<Rightarrow> u32 option \<Rightarrow> connection_mode \<Rightarrow> room_member list" where
  "members_from_profiles profiles rtt_ms mode = map (member_of_profile rtt_ms mode) profiles"

section \<open>A status and members without contradictions\<close>

text \<open>
  A relay is named exactly for a relayed connection, a healthy network has a mode or a round-trip
  time, and no loss is reported as a NaN (which the room service's comparison would take for a
  change on every poll).
\<close>

definition loss_ok :: "f64 option \<Rightarrow> bool" where
  "loss_ok l = (case l of None \<Rightarrow> True | Some x \<Rightarrow> \<not> f64_is_nan x)"

definition status_ok :: "network_status \<Rightarrow> bool" where
  "status_ok n \<longleftrightarrow> (relay_node n \<noteq> None \<longleftrightarrow> net_mode n = ModeRelay) \<and> nat_type n \<noteq> None
    \<and> (is_healthy n \<longrightarrow> net_rtt n \<noteq> None \<or> net_mode n \<noteq> ModeUnknown)"

lemma network_from_probe_ok: "status_ok (network_from_probe rtt d r)" "loss_ok (net_loss (network_from_probe rtt d r))"
  by (simp_all add: network_from_probe_def status_ok_def loss_ok_def Let_def)

lemma network_from_probe_healthy [simp]: "is_healthy (network_from_probe rtt d r) \<longleftrightarrow> rtt \<noteq> None"
  "net_rtt (network_from_probe rtt d r) = rtt"
  by (simp_all add: network_from_probe_def Let_def)

lemma members_ids: "map member_id (members_from_profiles ps rtt mode) = map machine_id ps"
  by (simp add: members_from_profiles_def member_of_profile_def)

lemma members_loss_ok: "m \<in> set (members_from_profiles ps rtt mode) \<Longrightarrow> loss_ok (member_loss m)"
  by (auto simp: members_from_profiles_def member_of_profile_def loss_ok_def)

end
