(* ===== verification/EasyTier_Cli.thy ===== *)
theory EasyTier_Cli
  imports Quality Os_Files
begin

text \<open>
  \<open>network/easytier_cli.rs\<close>: the quality of the connection as \<open>easytier-cli peer\<close> prints it. The
  outcome of running the command is \<open>None\<close> after three seconds, an error, or whether it exited with
  success and what it printed.
\<close>

section \<open>Samples\<close>

record peer_quality_sample =
  pq_nat_type :: "string option"
  pq_latency_ms :: "u32 option"
  pq_loss_rate :: "f64 option"
  pq_mode :: connection_mode
  pq_relay_node :: "string option"

type_synonym cli_outcome = "(io_error + bool \<times> bytes) option"

fun find_map :: "('a \<Rightarrow> 'b option) \<Rightarrow> 'a list \<Rightarrow> 'b option" where
  "find_map f [] = None"
| "find_map f (x # xs) = (case f x of None \<Rightarrow> find_map f xs | Some y \<Rightarrow> Some y)"

definition resolve_easytier_cli :: "bool \<Rightarrow> (string \<Rightarrow> bool) \<Rightarrow> string \<Rightarrow> string option" where
  "resolve_easytier_cli windows is_file core_binary =
    Option.bind (path_parent windows core_binary) (\<lambda>directory.
      let candidate = path_join windows directory (if windows then ''easytier-cli.exe'' else ''easytier-cli'')
      in if is_file candidate then Some candidate else None)"

definition parse_latency :: "string \<Rightarrow> u32 option" where
  "parse_latency cell =
    (let cleaned = trim (trim_end_matches ''ms'' (trim cell)) in
     if cleaned = ''*'' then None else map_option f64_round_u32 (parse_f64 cleaned))"

definition loss_of :: "f64 \<Rightarrow> f64" where
  "loss_of value = (if f64_gt_one value then f64_div_100 value else value)"

definition parse_loss :: "string \<Rightarrow> f64 option" where
  "parse_loss cell =
    (let cleaned = trim (trim_end_matches ''%'' (trim cell)) in
     if cleaned = ''*'' then None else map_option loss_of (parse_f64 cleaned))"

definition parse_nat :: "string \<Rightarrow> string option" where
  "parse_nat cell =
    (let lower = map to_ascii_lowercase cell in
     if contains_str ''cone'' lower \<or> contains_str ''symmetric'' lower \<or> contains_str ''unknown'' lower
       \<or> contains_str ''open'' lower
     then Some cell else None)"

definition prefer_sample :: "peer_quality_sample \<Rightarrow> peer_quality_sample \<Rightarrow> peer_quality_sample" where
  "prefer_sample left right = (case (pq_latency_ms left, pq_latency_ms right) of
      (Some a, Some b) \<Rightarrow> if b < a then right else left
    | (None, Some _) \<Rightarrow> right
    | _ \<Rightarrow> left)"

definition row_cells :: "string \<Rightarrow> string list" where
  "row_cells trimmed =
    (if contains_str ''|'' trimmed
     then filter (\<lambda>cell. cell \<noteq> []) (map trim (split_on (\<lambda>c. c = CHR ''|'') trimmed))
     else split_whitespace trimmed)"

definition is_cost :: "string \<Rightarrow> bool" where
  "is_cost cell \<longleftrightarrow> map to_ascii_lowercase cell \<in> {''local'', ''p2p'', ''relay'', ''direct''}"

definition row_mode :: "string option \<Rightarrow> u32 option \<Rightarrow> connection_mode" where
  "row_mode cost latency =
    (let cost_text = (case cost of None \<Rightarrow> [] | Some c \<Rightarrow> map to_ascii_lowercase c) in
     if contains_str ''relay'' cost_text then ModeRelay
     else if contains_str ''p2p'' cost_text \<or> contains_str ''direct'' cost_text \<or> cost_text = ''local'' \<or> latency \<noteq> None
     then ModeDirect
     else ModeUnknown)"

text \<open>One iteration of the loop over the lines: \<open>None\<close> is \<open>continue\<close>.\<close>

definition row_sample :: "string \<Rightarrow> peer_quality_sample option" where
  "row_sample line =
    (let trimmed = trim line; cells = row_cells trimmed;
         cost = find is_cost cells; latency = find_map parse_latency cells;
         loss = find_map parse_loss cells; nat' = find_map parse_nat cells;
         mode = row_mode cost latency
     in if trimmed = [] \<or> starts_with ''|'' trimmed \<and> contains_str ''ipv4'' trimmed then None
        else if length cells < 5 then None
        else if cost = None \<and> latency = None \<and> nat' = None then None
        else Some \<lparr>pq_nat_type = nat', pq_latency_ms = latency, pq_loss_rate = loss, pq_mode = mode,
               pq_relay_node = (if mode = ModeRelay then Some ''easytier-relay'' else None)\<rparr>)"

definition keep_best :: "peer_quality_sample option \<Rightarrow> string \<Rightarrow> peer_quality_sample option" where
  "keep_best best line = (case row_sample line of
      None \<Rightarrow> best
    | Some sample \<Rightarrow> Some (case best of None \<Rightarrow> sample | Some previous \<Rightarrow> prefer_sample previous sample))"

definition parse_peer_table :: "string \<Rightarrow> peer_quality_sample option" where
  "parse_peer_table table = foldl keep_best None (str_lines table)"

definition query_peer_quality :: "cli_outcome \<Rightarrow> peer_quality_sample option" where
  "query_peer_quality outcome = (case outcome of
      Some (Ok (success, stdout)) \<Rightarrow>
        if \<not> success then None else parse_peer_table (string_of_bytes (utf8_lossy stdout))
    | Some (Err _) \<Rightarrow> None
    | None \<Rightarrow> None)"

definition network_from_peer_sample :: "peer_quality_sample \<Rightarrow> network_status" where
  "network_from_peer_sample s =
    \<lparr>nat_type = (case pq_nat_type s of None \<Rightarrow> Some ''Unknown'' | Some n \<Rightarrow> Some n), net_mode = pq_mode s,
     net_rtt = pq_latency_ms s, net_loss = map_option f64_mul_100 (pq_loss_rate s),
     relay_node = pq_relay_node s,
     is_healthy = (pq_latency_ms s \<noteq> None \<or> pq_mode s \<noteq> ModeUnknown)\<rparr>"

section \<open>The best row\<close>

text \<open>Rows without a latency come after all rows with one.\<close>

definition latency_key :: "peer_quality_sample \<Rightarrow> nat" where
  "latency_key s = (case pq_latency_ms s of None \<Rightarrow> 2 ^ 32 | Some w \<Rightarrow> unat w)"

lemma prefer_sample_key: "prefer_sample l r = (if latency_key r < latency_key l then r else l)"
  using u32_bound [of "the (pq_latency_ms l)"] u32_bound [of "the (pq_latency_ms r)"]
  by (auto simp: prefer_sample_def latency_key_def word_less_nat_alt split: option.split)

definition first_best :: "peer_quality_sample list \<Rightarrow> peer_quality_sample \<Rightarrow> bool" where
  "first_best rows s \<longleftrightarrow> (\<exists>i < length rows. rows ! i = s \<and> (\<forall>j < length rows. latency_key s \<le> latency_key (rows ! j))
    \<and> (\<forall>j < i. latency_key s < latency_key (rows ! j)))"

lemma first_best_snoc:
  assumes "first_best rows s" shows "first_best (rows @ [r]) (prefer_sample s r)"
proof (cases "latency_key r < latency_key s")
  case True
  with assms have "\<forall>j < length rows. latency_key r < latency_key (rows ! j)"
    by (auto simp: first_best_def intro: less_le_trans)
  with True show ?thesis
    by (auto simp: first_best_def prefer_sample_key nth_append less_Suc_eq intro!: exI [of _ "length rows"] less_imp_le)
next
  case False
  with assms show ?thesis
    by (auto simp: first_best_def prefer_sample_key nth_append less_Suc_eq not_less)
qed

lemma keep_best_rows:
  "(case foldl keep_best None lines of
      None \<Rightarrow> List.map_filter row_sample lines = []
    | Some s \<Rightarrow> first_best (List.map_filter row_sample lines) s)"
proof (induction lines rule: rev_induct)
  case (snoc line lines)
  have split: "List.map_filter row_sample (lines @ [line]) = List.map_filter row_sample lines
      @ (case row_sample line of None \<Rightarrow> [] | Some r \<Rightarrow> [r])"
    by (simp add: List.map_filter_def split: option.split)
  have single: "first_best [r] r" for r by (simp add: first_best_def)
  show ?case
    using snoc first_best_snoc single by (auto simp: split keep_best_def split: option.splits)
qed (simp add: List.map_filter_def)

lemma row_sample_ok: "row_sample line = Some s \<Longrightarrow> status_ok (network_from_peer_sample s)"
  by (auto simp: row_sample_def status_ok_def network_from_peer_sample_def row_mode_def Let_def
      split: if_splits option.splits)

lemma first_best_ok:
  assumes "first_best (List.map_filter row_sample ls) s" shows "status_ok (network_from_peer_sample s)"
proof -
  have "s \<in> set (List.map_filter row_sample ls)" using assms by (auto simp: first_best_def)
  then show ?thesis by (auto simp: List.map_filter_def row_sample_ok)
qed

lemma query_ok: "query_peer_quality outcome = Some s \<Longrightarrow> status_ok (network_from_peer_sample s)"
  using keep_best_rows first_best_ok
  by (auto simp: query_peer_quality_def parse_peer_table_def split: option.splits sum.splits if_splits) (metis option.simps(5))

section \<open>Numbers\<close>

lemma trim_end_matches_none: "p \<noteq> [] \<Longrightarrow> last p \<notin> set s \<Longrightarrow> trim_end_matches p s = s"
proof -
  assume p: "p \<noteq> []" "last p \<notin> set s"
  have "drop (length s - length p) s \<noteq> p"
  proof
    assume "drop (length s - length p) s = p"
    then have "last p \<in> set (drop (length s - length p) s)" using p(1) by simp
    with p(2) show False by (auto dest: in_set_dropD)
  qed
  then show ?thesis by (simp add: trim_end_matches.simps)
qed

lemma trim_end_matches_once:
  "p \<noteq> [] \<Longrightarrow> last p \<notin> set s \<Longrightarrow> trim_end_matches p (s @ p) = s"
  by (subst trim_end_matches.simps) (simp add: trim_end_matches_none)

lemma dec_plain: "CHR ''s'' \<notin> set (dec n)" "CHR ''%'' \<notin> set (dec n)" "CHR ''*'' \<notin> set (dec n)"
  using dec_digits [of n] by (auto simp: list_all_iff is_ascii_digit_def)

lemma dec_clean: "trim (dec n) = dec n" "trim (dec n @ ''ms'') = dec n @ ''ms''" "trim (dec n @ ''%'') = dec n @ ''%''"
  "dec n \<noteq> ''*''"
  using dec_visible [of n] dec_plain(3) [of n] by (auto intro!: trim_visible)

lemma parse_latency_dec:
  assumes "n < 2 ^ 32"
  shows "parse_latency (dec n) = Some (word_of_nat n)" "parse_latency (dec n @ ''ms'') = Some (word_of_nat n)"
proof -
  have "trim_end_matches ''ms'' (dec n) = dec n" "trim_end_matches ''ms'' (dec n @ ''ms'') = dec n"
    using dec_plain(1) [of n] by (simp_all add: trim_end_matches_none trim_end_matches_once)
  with assms show "parse_latency (dec n) = Some (word_of_nat n)" "parse_latency (dec n @ ''ms'') = Some (word_of_nat n)"
    by (simp_all add: parse_latency_def dec_clean parse_f64_dec f64_of_nat_round)
qed

lemma parse_loss_dec: "parse_loss (dec n) = Some (loss_of (f64_of_nat n))" "parse_loss (dec n @ ''%'') = Some (loss_of (f64_of_nat n))"
proof -
  have "trim_end_matches ''%'' (dec n) = dec n" "trim_end_matches ''%'' (dec n @ ''%'') = dec n"
    using dec_plain(2) [of n] by (simp_all add: trim_end_matches_none trim_end_matches_once)
  then show "parse_loss (dec n) = Some (loss_of (f64_of_nat n))" "parse_loss (dec n @ ''%'') = Some (loss_of (f64_of_nat n))"
    by (simp_all add: parse_loss_def dec_clean parse_f64_dec)
qed

lemma f64_gt_one_nat: "n < 2 ^ 53 \<Longrightarrow> f64_gt_one (f64_of_nat n) \<longleftrightarrow> 1 < n"
  using f64_make_finite [OF f64_round_nat_value(2), of n False] f64_round_nat_value(1) [of n]
  by (simp add: f64_gt_one_def f64_of_nat_def)

text \<open>A cell that carries neither unit is read as the same number by both parsers.\<close>

definition unitless :: "string \<Rightarrow> bool" where
  "unitless cell \<longleftrightarrow> trim_end_matches ''ms'' (trim cell) = trim cell \<and> trim_end_matches ''%'' (trim cell) = trim cell"

definition cell_number :: "string \<Rightarrow> f64 option" where
  "cell_number cell = (if trim cell = ''*'' then None else parse_f64 (trim cell))"

lemma unitless_numbers:
  assumes "list_all unitless cells"
  shows "find_map parse_latency cells = map_option f64_round_u32 (find_map cell_number cells)"
    "find_map parse_loss cells = map_option loss_of (find_map cell_number cells)"
  using assms
  by (induction cells) (auto simp: unitless_def parse_latency_def parse_loss_def cell_number_def split: option.split)

section \<open>Rows as the tool prints them\<close>

lemma cells_eval:
  "row_cells ''| 10.144.144.1 | host | p2p | 18 | 0.01 | FullCone |''
    = [''10.144.144.1'', ''host'', ''p2p'', ''18'', ''0.01'', ''FullCone'']"
  "row_cells ''| 10.144.144.2 | nan | relay | 90 | 0.05 | Symmetric |''
    = [''10.144.144.2'', ''nan'', ''relay'', ''90'', ''0.05'', ''Symmetric'']"
  by (simp_all add: row_cells_def str_eval)

lemma numbers_eval:
  "cell_number ''10.144.144.1'' = None" "cell_number ''10.144.144.2'' = None" "cell_number ''host'' = None" "cell_number ''p2p'' = None"
  "cell_number ''nan'' = Some (f64_nan False)"
  by (simp_all add: cell_number_def parse_f64_def parse_f64_number_def str_eval)

lemma cell_number_dec: "cell_number (dec n) = Some (f64_of_nat n)"
  by (simp add: cell_number_def dec_clean parse_f64_dec)

lemma dec_eval: "dec 18 = ''18''" "dec 90 = ''90''"
  by (simp_all add: str_eval)

lemma cost_row_sample:
  assumes "trimmed = trim line" "trimmed \<noteq> []" "\<not> contains_str ''ipv4'' trimmed" "5 \<le> length (row_cells trimmed)"
    "find is_cost (row_cells trimmed) = Some c"
  shows "\<exists>s. row_sample line = Some s"
  using assms by (simp add: row_sample_def Let_def)

lemma row_sample_numbers:
  assumes "row_sample line = Some s"
  shows "pq_latency_ms s = find_map parse_latency (row_cells (trim line))"
    "pq_loss_rate s = find_map parse_loss (row_cells (trim line))"
  using assms by (auto simp: row_sample_def Let_def split: if_splits)

lemma unitless_eval:
  "list_all unitless [''10.144.144.1'', ''host'', ''p2p'', ''18'', ''0.01'', ''FullCone'']"
  "list_all unitless [''10.144.144.2'', ''nan'', ''relay'', ''90'', ''0.05'', ''Symmetric'']"
  by (simp_all add: unitless_def str_eval trim_end_matches.simps)

lemma row_eval:
  "\<exists>s. row_sample ''| 10.144.144.1 | host | p2p | 18 | 0.01 | FullCone |'' = Some s"
  "\<exists>s. row_sample ''| 10.144.144.2 | nan | relay | 90 | 0.05 | Symmetric |'' = Some s"
  by (rule cost_row_sample [OF refl]; simp add: str_eval cells_eval [unfolded str_eval] is_cost_def)+

section \<open>Properties\<close>

text \<open>The sample taken from the table is the best row: no row gives a sample exactly when there is none;
  otherwise it is the first row with the lowest latency (rows without a latency come last), and the
  status made from it is consistent: a relay is named exactly when the connection is relayed, and a
  healthy network has a round-trip time or a known mode.\<close>

theorem peer_table_best:
  "case parse_peer_table table of
     None \<Rightarrow> list_all (\<lambda>line. row_sample line = None) (str_lines table)
   | Some s \<Rightarrow> first_best (List.map_filter row_sample (str_lines table)) s \<and> status_ok (network_from_peer_sample s)"
proof -
  have "list_all (\<lambda>line. row_sample line = None) ls" if "List.map_filter row_sample ls = []" for ls
    using that by (auto simp: List.map_filter_def filter_empty_conv list_all_iff)
  then show ?thesis
    using keep_best_rows [of "str_lines table"] first_best_ok by (auto simp: parse_peer_table_def split: option.splits)
qed

text \<open>The reported packet loss is not the loss. In a row whose cells carry no units, which is how the tool
  prints them, latency and loss are both read from the first cell that is a number, so the loss
  column is never used: the loss is the latency, divided by one hundred when it exceeds one.\<close>

theorem loss_is_latency:
  assumes "row_sample line = Some s" "list_all unitless (row_cells (trim line))"
  shows "pq_latency_ms s = map_option f64_round_u32 (find_map cell_number (row_cells (trim line)))
    \<and> pq_loss_rate s = map_option loss_of (find_map cell_number (row_cells (trim line)))"
  using row_sample_numbers [OF assms(1)] unitless_numbers [OF assms(2)] by simp

theorem loss_is_latency_witness:
  "\<exists>s. row_sample ''| 10.144.144.1 | host | p2p | 18 | 0.01 | FullCone |'' = Some s
    \<and> pq_latency_ms s = Some 18 \<and> pq_loss_rate s = Some (f64_div_100 (f64_of_nat 18))"
proof -
  let ?line = "''| 10.144.144.1 | host | p2p | 18 | 0.01 | FullCone |''"
  obtain s where s: "row_sample ?line = Some s" using row_eval(1) by blast
  have "trim ?line = ?line" by (simp add: str_eval)
  then have cells: "row_cells (trim ?line) = [''10.144.144.1'', ''host'', ''p2p'', ''18'', ''0.01'', ''FullCone'']"
    using cells_eval(1) by simp
  have "find_map cell_number (row_cells (trim ?line)) = Some (f64_of_nat 18)"
    using cell_number_dec [of 18] by (simp add: cells numbers_eval dec_eval)
  moreover have "loss_of (f64_of_nat 18) = f64_div_100 (f64_of_nat 18)"
    by (simp add: loss_of_def f64_gt_one_nat)
  ultimately show ?thesis
    using loss_is_latency [OF s] s unitless_eval(1) f64_of_nat_round [of 18] by (simp add: cells)
qed

lemma f64_nan_is_nan: "f64_is_nan (f64_nan False)"
  by (simp add: f64_nan_def f64_make_def f64_inf_pattern_def f64_is_nan_def)

text \<open>A peer whose host name reads as a float corrupts the sample. With a peer named \<open>nan\<close> the latency
  becomes 0 (so this row wins over every other), the loss becomes a NaN, and the resulting
  status differs from itself by \<open>PartialEq\<close>, which makes the room service publish a network event
  on every poll.\<close>

theorem host_named_nan:
  "\<exists>s. row_sample ''| 10.144.144.2 | nan | relay | 90 | 0.05 | Symmetric |'' = Some s
    \<and> pq_latency_ms s = Some 0
    \<and> \<not> network_status_eq (network_from_peer_sample s) (network_from_peer_sample s)"
proof -
  let ?line = "''| 10.144.144.2 | nan | relay | 90 | 0.05 | Symmetric |''"
  obtain s where s: "row_sample ?line = Some s" using row_eval(2) by blast
  have "trim ?line = ?line" by (simp add: str_eval)
  then have cells: "row_cells (trim ?line) = [''10.144.144.2'', ''nan'', ''relay'', ''90'', ''0.05'', ''Symmetric'']"
    using cells_eval(2) by simp
  have "find_map cell_number (row_cells (trim ?line)) = Some (f64_nan False)"
    by (simp add: cells numbers_eval)
  then have "pq_latency_ms s = Some 0 \<and> pq_loss_rate s = Some (f64_nan False)"
    using row_sample_numbers [OF s] unitless_numbers unitless_eval(2)
    by (simp add: cells f64_nan_is_nan f64_round_u32_def loss_of_def f64_gt_one_def del: find_map.simps)
  moreover from this have "net_loss (network_from_peer_sample s) = Some (f64_nan False)"
    by (simp add: network_from_peer_sample_def f64_mul_100_def f64_nan_is_nan)
  ultimately show ?thesis
    using s f64_nan_is_nan by (auto simp: network_status_eq_def f64_eq_def)
qed

end
