(* ===== verification/Port_Forward.thy ===== *)
theory Port_Forward
  imports Os_Net
begin

text \<open>
  \<open>network/port_forward.rs\<close> and \<open>network/minecraft_broadcast.rs\<close>: a TCP forwarder with its accept loop and
  its connections, and the announcement of the local forward to the Minecraft client.
\<close>

section \<open>The forwarder\<close>

record port_forward =
  pf_listener :: nat
  pf_local_addr :: socket_addr
  pf_target :: socket_addr

definition local_loopback :: socket_addr where
  "local_loopback = SocketV4 127 0 0 1 0"

text \<open>\<open>fault\<close>, \<open>free\<close>: what binding meets; \<open>addr_fault\<close>: the error of \<open>local_addr\<close>, if any.\<close>

definition forward_start_on ::
    "io_error option \<Rightarrow> u16 \<Rightarrow> io_error option \<Rightarrow> socket_addr \<Rightarrow> socket_addr \<Rightarrow> net_world
      \<Rightarrow> (io_error + port_forward) \<times> net_world" where
  "forward_start_on fault free addr_fault bind target w =
    and_then (tcp_bind fault free bind w) (\<lambda>(listener, a) w.
      (case addr_fault of
         Some e \<Rightarrow> (Err e, close_listener listener w)
       | None \<Rightarrow> (Ok \<lparr>pf_listener = listener, pf_local_addr = a, pf_target = target\<rparr>, w)))"

definition forward_start ::
    "io_error option \<Rightarrow> u16 \<Rightarrow> io_error option \<Rightarrow> socket_addr \<Rightarrow> net_world \<Rightarrow> (io_error + port_forward) \<times> net_world" where
  "forward_start fault free addr_fault target w = forward_start_on fault free addr_fault local_loopback target w"

definition forward_stop :: "port_forward \<Rightarrow> net_world \<Rightarrow> net_world" where
  "forward_stop f w = close_listener (pf_listener f) w"

lemma forward_start_on_outcome:
  assumes "holds ls ps ss w"
  shows "ensures (holds ls ps ss)
    (\<lambda>f w'. holds (ls @ [(pf_listener f, pf_local_addr f)]) ps ss w' \<and> addr_port (pf_local_addr f) \<noteq> 0
        \<and> pf_local_addr f = bound_addr free bind \<and> \<not> in_use (pf_local_addr f) w \<and> pf_target f = target)
    (forward_start_on fault free addr_fault bind target w)"
  unfolding forward_start_on_def
  by (rule ensures_and_then [OF bind_outcome [OF assms]]) (auto intro: close_last split: option.splits)

lemma bound_local [simp]: "bound_addr p local_loopback = SocketV4 127 0 0 1 p"
  by (simp add: local_loopback_def bound_addr_def)

section \<open>The accept loop\<close>

text \<open>
  The state of a running forwarder: whether the loop still runs, the connection tasks it has spawned
  that have not started yet, those that have, and the counter of active connections (a \<open>usize\<close> that wraps around).
  The tasks are detached: nothing but their own end stops them.
\<close>

record forward_state =
  fw_running :: bool
  fw_pending :: nat
  fw_open :: nat
  fw_active :: u64

datatype forward_event =
    FwAccepted bool
  | FwShutdown bool
  | FwAbort
  | FwTaskStarts
  | FwTaskEnds

definition forward_initial :: forward_state where
  "forward_initial = \<lparr>fw_running = True, fw_pending = 0, fw_open = 0, fw_active = 0\<rparr>"

fun forward_step :: "forward_event \<Rightarrow> forward_state \<Rightarrow> forward_state" where
  "forward_step (FwAccepted ok) s =
    (if \<not> fw_running s then s
     else if ok then s\<lparr>fw_pending := Suc (fw_pending s)\<rparr> else s\<lparr>fw_running := False\<rparr>)"
| "forward_step (FwShutdown stop) s = (if fw_running s \<and> stop then s\<lparr>fw_running := False\<rparr> else s)"
| "forward_step FwAbort s = s\<lparr>fw_running := False\<rparr>"
| "forward_step FwTaskStarts s =
    (if 0 < fw_pending s
     then s\<lparr>fw_pending := fw_pending s - 1, fw_open := Suc (fw_open s), fw_active := fw_active s + 1\<rparr> else s)"
| "forward_step FwTaskEnds s =
    (if 0 < fw_open s then s\<lparr>fw_open := fw_open s - 1, fw_active := fw_active s - 1\<rparr> else s)"

definition forward_ok :: "forward_state \<Rightarrow> bool" where
  "forward_ok s \<longleftrightarrow> fw_active s = word_of_nat (fw_open s)"

lemma forward_ok_step: "forward_ok s \<Longrightarrow> forward_ok (forward_step e s)"
  by (cases e) (auto simp: forward_ok_def of_nat_diff)

interpretation forwarder: invariant_machine forward_step forward_ok
  by unfold_locales (rule forward_ok_step)

lemma stopped_step: "\<not> fw_running s \<Longrightarrow> \<not> fw_running (forward_step e s)
    \<and> fw_pending (forward_step e s) + fw_open (forward_step e s) \<le> fw_pending s + fw_open s"
  by (cases e) auto

lemma stopped_run: "\<not> fw_running s \<Longrightarrow> \<not> fw_running (run_ops forward_step es s)
    \<and> fw_pending (run_ops forward_step es s) + fw_open (run_ops forward_step es s) \<le> fw_pending s + fw_open s"
proof (induction es arbitrary: s)
  case (Cons e es)
  from stopped_step [OF Cons.prems, of e] Cons.IH [of "forward_step e s"] show ?case by simp
qed simp

section \<open>The announcement\<close>

definition MINECRAFT_LAN_DISCOVERY :: string where
  "MINECRAFT_LAN_DISCOVERY = ''127.0.0.1:4445''"

definition payload :: "u16 \<Rightarrow> bytes" where
  "payload port = as_bytes (''[MOTD]PCL N Terracotta[/MOTD][AD]'' @ dec (unat port) @ ''[/AD]'')"

record lan_broadcast =
  lb_sender :: nat
  lb_payload :: bytes

definition broadcast_start :: "io_error option \<Rightarrow> socket_addr \<Rightarrow> net_world \<Rightarrow> (io_error + lan_broadcast) \<times> net_world" where
  "broadcast_start udp_fault local_minecraft w = (case udp_fault of
      Some e \<Rightarrow> (Err e, tick w)
    | None \<Rightarrow> (case open_sender w of (i, w') \<Rightarrow>
        (Ok \<lparr>lb_sender = i, lb_payload = payload (addr_port local_minecraft)\<rparr>, w')))"

definition broadcast_stop :: "lan_broadcast \<Rightarrow> net_world \<Rightarrow> net_world" where
  "broadcast_stop b w = close_sender (lb_sender b) w"

text \<open>The loop of the announcement: what it has sent when it stopped or is still running.\<close>

datatype broadcast_event = BcTick | BcShutdown bool

fun broadcast_run :: "bytes \<Rightarrow> broadcast_event list \<Rightarrow> bytes list \<Rightarrow> bool \<times> bytes list" where
  "broadcast_run pl [] sent = (True, sent)"
| "broadcast_run pl (BcTick # es) sent = broadcast_run pl es (sent @ [pl])"
| "broadcast_run pl (BcShutdown stop # es) sent = (if stop then (False, sent) else broadcast_run pl es sent)"

lemma discovery_address_parses: "parse_socket_addr MINECRAFT_LAN_DISCOVERY = Some (SocketV4 127 0 0 1 4445)"
proof -
  have "addr_to_string (SocketV4 127 0 0 1 4445) = MINECRAFT_LAN_DISCOVERY"
    by (simp add: show_v4_def str_eval MINECRAFT_LAN_DISCOVERY_def)
  with parse_show_v4 [of 127 0 0 1 4445] show ?thesis by simp
qed

lemma payload_inj: "payload p = payload q \<longleftrightarrow> p = q"
  by (simp add: payload_def unsigned_word_eqI del: as_bytes_append) (metis unsigned_word_eqI)

lemma broadcast_start_outcome:
  assumes "holds ls ps ss w"
  shows "ensures (holds ls ps ss) (\<lambda>b. holds ls ps (ss @ [lb_sender b])) (broadcast_start fault a w)"
proof -
  obtain i v where s: "open_sender w = (i, v)" by (rule prod.exhaust)
  from assms sender_holds [OF assms s] s show ?thesis
    by (auto simp: broadcast_start_def holds_tick split: option.splits)
qed

lemma broadcast_run_sent: "\<exists>n. snd (broadcast_run pl es sent) = sent @ replicate n pl
    \<and> (fst (broadcast_run pl es sent) \<longrightarrow> n = length (filter (\<lambda>e. e = BcTick) es))"
proof (induction pl es sent rule: broadcast_run.induct)
  case (2 pl es sent)
  then obtain n where "snd (broadcast_run pl es (sent @ [pl])) = (sent @ [pl]) @ replicate n pl"
    "fst (broadcast_run pl es (sent @ [pl])) \<longrightarrow> n = length (filter (\<lambda>e. e = BcTick) es)" by blast
  then show ?case by (intro exI [of _ "Suc n"]) simp
qed auto

text \<open>The counter of a forwarder is the number of connections being forwarded, modulo \<open>2^64\<close>, under every
  interleaving of accepted connections, starting and ending tasks, shutdown and abort; and once
  the loop has stopped it accepts nothing more, so the connections only get fewer.\<close>

theorem forward_counts:
  "fw_active (run_ops forward_step es forward_initial) = word_of_nat (fw_open (run_ops forward_step es forward_initial))
    \<and> (\<not> fw_running (run_ops forward_step es forward_initial) \<longrightarrow>
        fw_open (run_ops forward_step (es @ es') forward_initial)
          \<le> fw_pending (run_ops forward_step es forward_initial) + fw_open (run_ops forward_step es forward_initial))"
proof -
  have "forward_ok forward_initial" by (simp add: forward_ok_def forward_initial_def)
  then have "forward_ok (run_ops forward_step es forward_initial)" by (rule forwarder.inv_run)
  with stopped_run [of "run_ops forward_step es forward_initial" es'] show ?thesis
    by (auto simp: forward_ok_def run_ops_append)
qed

theorem forward_counts_witness:
  "fw_open (run_ops forward_step ([FwAccepted True, FwTaskStarts, FwAbort] @ [FwAccepted True, FwTaskStarts]) forward_initial) \<le> 1"
  using forward_counts [of "[FwAccepted True, FwTaskStarts, FwAbort]" "[FwAccepted True, FwTaskStarts]"]
  by (simp add: forward_initial_def)

end
