(* ===== verification/Backend.thy ===== *)
theory Backend
  imports Discovery EasyTier EasyTier_Cli Port_Forward Scaffolding_Listener Room_Service
begin

text \<open>
  \<open>network/backend.rs\<close>: the production backend of the room service. It composes the credentials, the
  mesh endpoints, the EasyTier process, the scaffolding server and client, the port forwards, the local
  discovery and the network quality. What the operating system and the peers answer is a record
  of functions of the time (the counter of \<open>Os_Net\<close>), so a theorem over all such records covers
  every behaviour of them. The IPC session calls one operation at a time, so each is a function from
  state to state (\<open>create\<close> and \<open>join\<close> take the session lock only to check that there is no session and to store
  the new one; the other operations hold it throughout). A value that is dropped releases its resource: a child process is
  killed (\<open>kill_on_drop\<close>), a loop ends with its shutdown channel and closes its socket; an aborted task is
  gone at once.
\<close>

section \<open>The environment and the state\<close>

record backend_env =
  en_program :: program_env
  en_discovery :: discovery_env
  en_profiles :: profile_codec
  en_sha256 :: "bytes \<Rightarrow> bytes"
  en_hmac :: "bytes \<Rightarrow> bytes \<Rightarrow> bytes"
  en_urandom :: "nat \<Rightarrow> io_error + reader"
  en_bind_fault :: "nat \<Rightarrow> io_error option"
  en_free_port :: "nat \<Rightarrow> u16"
  en_addr_fault :: "nat \<Rightarrow> io_error option"
  en_udp_fault :: "nat \<Rightarrow> io_error option"
  en_spawn_fault :: "nat \<Rightarrow> easytier_command \<Rightarrow> io_error option"
  en_early_exit :: "nat \<Rightarrow> string option"
  en_wait :: "nat \<Rightarrow> wait_outcome"
  en_connect :: "nat \<Rightarrow> socket_addr \<Rightarrow> connect_outcome"
  en_remote :: "nat \<Rightarrow> socket_addr \<Rightarrow> nat \<Rightarrow> bytes \<Rightarrow> remote_answer"
  en_heartbeat :: "nat \<Rightarrow> nat \<times> nat"
  en_cli :: "nat \<Rightarrow> string \<Rightarrow> string \<Rightarrow> cli_outcome"
  en_faults :: "nat \<Rightarrow> fs_faults"
  en_clock :: "nat \<Rightarrow> int"
  en_instant :: "nat \<Rightarrow> nat"
  en_others :: "nat \<Rightarrow> file_system \<Rightarrow> file_system"

record host_session =
  hs_credentials :: room_credentials
  hs_endpoints :: mesh_endpoints
  hs_easytier :: easytier_node
  hs_scaffolding :: nat
  hs_context :: server_context
  hs_scaffolding_addr :: socket_addr
  hs_minecraft :: socket_addr
  hs_scaffolding_ingress :: port_forward
  hs_minecraft_ingress :: port_forward
  hs_prefer_direct :: bool
  hs_allow_relay :: bool

record member_session =
  ms_easytier :: easytier_node
  ms_scaffolding_forward :: "port_forward option"
  ms_minecraft_forward :: "port_forward option"
  ms_broadcast :: "lan_broadcast option"
  ms_local_scaffolding :: socket_addr
  ms_local_minecraft :: socket_addr
  ms_prefer_direct :: bool
  ms_allow_relay :: bool

datatype active_session = HostActive host_session | MemberActive member_session

record backend_state =
  bk_identity :: "bytes option"
  bk_session :: "active_session option"
  bk_world :: net_world

definition new_backend :: "net_world \<Rightarrow> backend_state" where
  "new_backend w = \<lparr>bk_identity = None, bk_session = None, bk_world = w\<rparr>"

definition on_world :: "(net_world \<Rightarrow> ('e + 'a) \<times> net_world) \<Rightarrow> backend_state \<Rightarrow> ('e + 'a) \<times> backend_state" where
  "on_world f s = (case f (bk_world s) of (r, w) \<Rightarrow> (r, s\<lparr>bk_world := w\<rparr>))"

definition on_files :: "(file_system \<Rightarrow> ('e + 'a) \<times> file_system) \<Rightarrow> net_world \<Rightarrow> ('e + 'a) \<times> net_world" where
  "on_files f w = (case f (nw_files w) of (r, fs) \<Rightarrow> (r, tick (w\<lparr>nw_files := fs\<rparr>)))"

section \<open>Guards\<close>

definition require_identity :: "backend_state \<Rightarrow> room_error + bytes" where
  "require_identity s = ok_or (room_error_new ''identity.not-initialized''
     ''Initialize the secure identity before entering a room.'' False) (bk_identity s)"

definition ensure_idle :: "backend_state \<Rightarrow> room_error + unit" where
  "ensure_idle s = (if bk_session s \<noteq> None
     then Err (room_error_new ''room.operation-in-progress''
            ''A room session is already active in the network backend.'' False)
     else Ok ())"

definition host_profile :: "backend_env \<Rightarrow> bytes \<Rightarrow> player_profile" where
  "host_profile e identity = \<lparr>player_name = ''Host'', machine_id = machine_id_from_identity (en_sha256 e) identity,
     vendor = ''PCL N Terracotta'', player_kind_of = Some KindHost\<rparr>"

definition guest_profile :: "backend_env \<Rightarrow> bytes \<Rightarrow> player_profile" where
  "guest_profile e identity = \<lparr>player_name = ''Player'', machine_id = machine_id_from_identity (en_sha256 e) identity,
     vendor = ''PCL N Terracotta'', player_kind_of = Some KindGuest\<rparr>"

section \<open>Pieces of a host\<close>

definition launch ::
    "backend_env \<Rightarrow> room_credentials \<Rightarrow> launch_config \<Rightarrow> net_world \<Rightarrow> (room_error + easytier_node) \<times> net_world" where
  "launch e credentials config w =
    start_easytier (en_program e) (en_spawn_fault e (nw_tick w)) (en_early_exit e (nw_tick w)) credentials config w"

definition halt :: "backend_env \<Rightarrow> easytier_node \<Rightarrow> net_world \<Rightarrow> net_world" where
  "halt e node w = snd (stop_easytier (en_wait e (nw_tick w)) node w)"

definition forward_on :: "backend_env \<Rightarrow> socket_addr \<Rightarrow> socket_addr \<Rightarrow> net_world \<Rightarrow> (io_error + port_forward) \<times> net_world" where
  "forward_on e bind target w = forward_start_on (en_bind_fault e (nw_tick w)) (en_free_port e (nw_tick w))
     (en_addr_fault e (nw_tick w)) bind target w"

definition scaffolding_failed :: "string \<Rightarrow> string \<Rightarrow> bool \<Rightarrow> room_error" where
  "scaffolding_failed what message retry =
    room_error_new ''network.scaffolding-failed'' (''Failed to '' @ what @ '': '' @ message) retry"

text \<open>
  The context, the server and its address, as \<open>create\<close> (\<open>verb\<close> is \<open>bind\<close>) and \<open>set_lan_address\<close> (\<open>rebind\<close>)
  make them. A server whose address cannot be read is dropped.
\<close>

definition open_scaffolding ::
    "backend_env \<Rightarrow> string \<Rightarrow> bytes \<Rightarrow> u16 \<Rightarrow> net_world \<Rightarrow> (room_error + scaffolding_server) \<times> net_world" where
  "open_scaffolding e verb identity port w =
    (case new_server_context (en_instant e (nw_tick w)) (host_profile e identity) port of
       Err err \<Rightarrow> (Err (scaffolding_failed ''create Scaffolding context'' (scaffolding_text err) False), w)
     | Ok context \<Rightarrow>
         (case server_bind (en_bind_fault e (nw_tick w)) (en_free_port e (nw_tick w)) local_loopback context w of
            (Err err, w') \<Rightarrow> (Err (scaffolding_failed (verb @ '' Scaffolding server'') (scaffolding_text err) True), w')
          | (Ok server, w') \<Rightarrow>
              (case server_local_addr (en_addr_fault e (nw_tick w')) server of
                 Err err \<Rightarrow> (Err (scaffolding_failed ''read Scaffolding address'' (io_message err) True),
                            close_listener (srv_listener server) w')
               | Ok _ \<Rightarrow> (Ok server, w'))))"

definition ingress_failed :: "string \<Rightarrow> string \<Rightarrow> io_error \<Rightarrow> room_error" where
  "ingress_failed verb what err = room_error_new ''network.mesh-ingress-failed''
     (''Failed to '' @ verb @ '' mesh '' @ what @ '' ingress: '' @ io_message err) True"

definition advertise ::
    "backend_env \<Rightarrow> string \<Rightarrow> socket_addr \<Rightarrow> socket_addr \<Rightarrow> net_world \<Rightarrow> (room_error + string) \<times> net_world" where
  "advertise e room scaffolding minecraft w =
    on_files (publish_local_endpoint (en_discovery e) (en_faults e (nw_tick w))
      \<lparr>adv_room_code = room, adv_scaffolding = addr_to_string scaffolding, adv_minecraft = addr_to_string minecraft,
       published_unix_seconds = now_unix_seconds (en_clock e (nw_tick w))\<rparr>) w"

definition host_network_status :: "bool \<Rightarrow> bool \<Rightarrow> network_status" where
  "host_network_status direct relay =
    \<lparr>nat_type = Some ''Unknown'',
     net_mode = (if direct then ModeDirect else if relay then ModeRelay else ModeUnknown),
     net_rtt = Some 0, net_loss = Some 0, relay_node = None, is_healthy = True\<rparr>"

text \<open>
  What \<open>create\<close> does after EasyTier runs, in three parts: the scaffolding server, the two mesh ingresses, the
  advertisement and the session. Every failure stops what has been started.
\<close>

definition host_publish ::
    "backend_env \<Rightarrow> room_credentials \<Rightarrow> socket_addr \<Rightarrow> bool \<Rightarrow> bool \<Rightarrow> easytier_node \<Rightarrow> scaffolding_server
      \<Rightarrow> port_forward \<Rightarrow> port_forward \<Rightarrow> net_world \<Rightarrow> (room_error + host_session) \<times> net_world" where
  "host_publish e credentials minecraft direct relay node server scaffolding_ingress minecraft_ingress w =
    (case advertise e (cred_room_code credentials) (srv_local_addr server) minecraft w of
       (Err err, w) \<Rightarrow> (Err err,
           halt e node (close_listener (srv_listener server)
             (forward_stop minecraft_ingress (forward_stop scaffolding_ingress w))))
     | (Ok _, w) \<Rightarrow>
         (Ok \<lparr>hs_credentials = credentials,
              hs_endpoints = mesh_from_room_code (en_sha256 e) (cred_room_code credentials), hs_easytier = node,
              hs_scaffolding = srv_listener server, hs_context = srv_context server,
              hs_scaffolding_addr = srv_local_addr server, hs_minecraft = minecraft,
              hs_scaffolding_ingress = scaffolding_ingress, hs_minecraft_ingress = minecraft_ingress,
              hs_prefer_direct = direct, hs_allow_relay = relay\<rparr>, w))"

definition host_ingress ::
    "backend_env \<Rightarrow> room_credentials \<Rightarrow> socket_addr \<Rightarrow> bool \<Rightarrow> bool \<Rightarrow> easytier_node \<Rightarrow> scaffolding_server
      \<Rightarrow> net_world \<Rightarrow> (room_error + host_session) \<times> net_world" where
  "host_ingress e credentials minecraft direct relay node server w =
    (let endpoints = mesh_from_room_code (en_sha256 e) (cred_room_code credentials) in
     case forward_on e (mesh_ingress_bind_scaffolding endpoints) (srv_local_addr server) w of
       (Err err, w) \<Rightarrow> (Err (ingress_failed ''bind'' ''Scaffolding'' err),
                        halt e node (close_listener (srv_listener server) w))
     | (Ok scaffolding_ingress, w) \<Rightarrow>
         (case forward_on e (mesh_ingress_bind_minecraft endpoints) minecraft w of
            (Err err, w) \<Rightarrow> (Err (ingress_failed ''bind'' ''Minecraft'' err),
                halt e node (close_listener (srv_listener server) (forward_stop scaffolding_ingress w)))
          | (Ok minecraft_ingress, w) \<Rightarrow>
              host_publish e credentials minecraft direct relay node server scaffolding_ingress minecraft_ingress w))"

definition host_services ::
    "backend_env \<Rightarrow> bytes \<Rightarrow> room_credentials \<Rightarrow> socket_addr \<Rightarrow> bool \<Rightarrow> bool \<Rightarrow> easytier_node \<Rightarrow> net_world
      \<Rightarrow> (room_error + host_session) \<times> net_world" where
  "host_services e identity credentials minecraft direct relay node w =
    (case open_scaffolding e ''bind'' identity (addr_port minecraft) w of
       (Err err, w) \<Rightarrow> (Err err, kill_process (node_child node) w)
     | (Ok server, w) \<Rightarrow> host_ingress e credentials minecraft direct relay node server w)"

definition start_host ::
    "backend_env \<Rightarrow> bytes \<Rightarrow> string \<Rightarrow> socket_addr \<Rightarrow> bool \<Rightarrow> bool \<Rightarrow> net_world \<Rightarrow> (room_error + host_session) \<times> net_world" where
  "start_host e identity binary minecraft direct relay w =
    and_then (generate (en_sha256 e) (en_hmac e) (en_urandom e (nw_tick w)), tick w) (\<lambda>credentials w.
    and_then (launch e credentials \<lparr>lc_binary = binary, lc_prefer_direct = direct, lc_allow_relay = relay,
                lc_host_ipv4 = Some ''10.144.144.1'', lc_port_forwards = [],
                lc_rpc_portal = rpc_portal_for_room (en_sha256 e) (cred_room_code credentials)\<rparr> w) (\<lambda>node w.
      host_services e identity credentials minecraft direct relay node w))"

text \<open>\<open>create\<close> after its guards, and the whole.\<close>

definition host_room ::
    "backend_env \<Rightarrow> create_room_request \<Rightarrow> bytes \<Rightarrow> string \<Rightarrow> backend_state \<Rightarrow> (room_error + backend_room) \<times> backend_state" where
  "host_room e request identity binary s =
    and_then (ok_or (room_error_invalid ''The LAN address must be a valid IP endpoint.'')
                (parse_socket_addr (create_lan_address request)), s) (\<lambda>minecraft s.
    if \<not> is_loopback minecraft \<or> addr_port minecraft = 0
    then (Err (room_error_invalid ''The LAN address must use a loopback IP and a non-zero port.''), s)
    else
      and_then (on_world (start_host e identity binary minecraft (prefer_direct request) (allow_relay request)) s) (\<lambda>host s.
        (Ok \<lparr>br_room_code = cred_room_code (hs_credentials host), br_local_address = None,
             br_network = host_network_status (prefer_direct request) (allow_relay request),
             br_members = [\<lparr>member_id = machine_id_from_identity (en_sha256 e) identity, display_name = ''Host'',
                member_mode = ModeDirect, member_rtt = Some 0, member_loss = Some 0\<rparr>]\<rparr>,
         s\<lparr>bk_session := Some (HostActive host)\<rparr>)))"

definition backend_create ::
    "backend_env \<Rightarrow> create_room_request \<Rightarrow> backend_state \<Rightarrow> (room_error + backend_room) \<times> backend_state" where
  "backend_create e request s =
    and_then (ensure_idle s, s) (\<lambda>_ s.
    and_then (require_identity s, s) (\<lambda>identity s.
    and_then (ok_or easytier_missing (resolve_easytier_binary (en_program e)), s) (\<lambda>binary s.
      host_room e request identity binary s)))"

section \<open>The peer's side\<close>

text \<open>
  Connecting a scaffolding client and one heartbeat: \<open>en_remote\<close> gives what comes back for the \<open>i\<close>-th
  request on the connection opened at this time.
\<close>

definition client_heartbeat ::
    "backend_env \<Rightarrow> socket_addr \<Rightarrow> player_profile \<Rightarrow> net_world \<Rightarrow> heartbeat_result option \<times> net_world" where
  "client_heartbeat e address profile w =
    (let t = nw_tick w;
         remote = (\<lambda>bs i. (en_remote e t address i bs, Suc i));
         connecting = map_option (\<lambda>r. try_bind r (\<lambda>_. Ok ())) (en_connect e t address)
     in (case client_connect (en_profiles e) remote connecting address profile 0 of
           (Err _, _) \<Rightarrow> (None, tick w)
         | (Ok c, _) \<Rightarrow>
             (case heartbeat (en_profiles e) remote (fst (en_heartbeat e t)) (snd (en_heartbeat e t)) c of
                (Err _, _) \<Rightarrow> (None, tick w)
              | (Ok result, _) \<Rightarrow> (Some result, tick w))))"

definition collect_member_snapshot ::
    "backend_env \<Rightarrow> socket_addr \<Rightarrow> player_profile \<Rightarrow> net_world
      \<Rightarrow> (room_member list \<times> u32 option \<times> connection_mode) \<times> net_world" where
  "collect_member_snapshot e scaffolding profile w = (case client_heartbeat e scaffolding profile w of
      (None, w) \<Rightarrow>
        (([\<lparr>member_id = machine_id profile, display_name = player_name profile, member_mode = ModeUnknown,
            member_rtt = None, member_loss = None\<rparr>], None, ModeUnknown), w)
    | (Some result, w) \<Rightarrow>
        (let rtt_ms = Some (millis_u32 (latency result)) in
         ((map (\<lambda>p. \<lparr>member_id = machine_id p, display_name = player_name p, member_mode = ModeDirect,
                      member_rtt = rtt_ms, member_loss = None\<rparr>) (hb_players result), rtt_ms, ModeDirect), w)))"

definition LOCAL_DISCOVERY_ATTEMPTS :: nat where
  "LOCAL_DISCOVERY_ATTEMPTS = 8"

definition MESH_PROBE_ATTEMPTS :: nat where
  "MESH_PROBE_ATTEMPTS = 40"

text \<open>While the loop sleeps, other processes may change the files.\<close>

fun local_endpoint_loop ::
    "backend_env \<Rightarrow> string \<Rightarrow> nat \<Rightarrow> net_world \<Rightarrow> (room_error + room_endpoint_advertisement option) \<times> net_world" where
  "local_endpoint_loop e room 0 w = (Ok None, w)"
| "local_endpoint_loop e room (Suc n) w =
    and_then (on_files (load_local_endpoint (en_discovery e) (en_faults e (nw_tick w)) (en_clock e (nw_tick w)) room) w)
      (\<lambda>found w. case found of
          Some advertisement \<Rightarrow> (Ok (Some advertisement), w)
        | None \<Rightarrow> local_endpoint_loop e room n (w\<lparr>nw_files := en_others e (nw_tick w) (nw_files w)\<rparr>))"

definition try_local_endpoint ::
    "backend_env \<Rightarrow> string \<Rightarrow> net_world \<Rightarrow> (room_error + room_endpoint_advertisement option) \<times> net_world" where
  "try_local_endpoint e room w = local_endpoint_loop e room LOCAL_DISCOVERY_ATTEMPTS w"

definition peer_unreachable :: "socket_addr \<Rightarrow> room_error" where
  "peer_unreachable address = room_error_new ''network.peer-unreachable''
     (''The room host was not reachable via EasyTier mesh at '' @ HOST_VIRTUAL_IPV4 @ '' (probed local forward ''
      @ addr_to_string address @ ''). Ensure the host is online, both sides share the same room code, and consider ''
      @ ''TERRACOTTA_EASYTIER_ALLOW_TUN=1 when userspace routing is insufficient.'') True"

fun wait_for_tcp_loop :: "backend_env \<Rightarrow> socket_addr \<Rightarrow> nat \<Rightarrow> net_world \<Rightarrow> (room_error + unit) \<times> net_world" where
  "wait_for_tcp_loop e address 0 w = (Err (peer_unreachable address), w)"
| "wait_for_tcp_loop e address (Suc n) w = (case en_connect e (nw_tick w) address of
      Some (Ok _) \<Rightarrow> (Ok (), tick w)
    | _ \<Rightarrow> wait_for_tcp_loop e address n (tick w))"

definition wait_for_tcp :: "backend_env \<Rightarrow> socket_addr \<Rightarrow> net_world \<Rightarrow> (room_error + unit) \<times> net_world" where
  "wait_for_tcp e address w = wait_for_tcp_loop e address MESH_PROBE_ATTEMPTS w"

definition start_broadcast :: "backend_env \<Rightarrow> socket_addr \<Rightarrow> net_world \<Rightarrow> lan_broadcast option \<times> net_world" where
  "start_broadcast e local_minecraft w =
    (case broadcast_start (en_udp_fault e (nw_tick w)) local_minecraft w of
       (Ok b, w') \<Rightarrow> (Some b, w')
     | (Err _, w') \<Rightarrow> (None, w'))"

definition member_config :: "backend_env \<Rightarrow> string \<Rightarrow> room_credentials \<Rightarrow> string list \<Rightarrow> launch_config" where
  "member_config e binary credentials forwards =
    \<lparr>lc_binary = binary, lc_prefer_direct = True, lc_allow_relay = True, lc_host_ipv4 = None,
     lc_port_forwards = forwards, lc_rpc_portal = rpc_portal_for_room (en_sha256 e) (cred_room_code credentials)\<rparr>"

definition forward_failed :: "string \<Rightarrow> io_error \<Rightarrow> room_error" where
  "forward_failed what err = room_error_new ''network.forward-failed''
     (''Failed to create '' @ what @ '' forward: '' @ io_message err) True"

definition local_member_room :: "string \<Rightarrow> socket_addr \<Rightarrow> u32 option \<Rightarrow> room_member list \<Rightarrow> backend_room" where
  "local_member_room room minecraft rtt_ms ms =
    \<lparr>br_room_code = room, br_local_address = Some (addr_to_string minecraft),
     br_network = \<lparr>nat_type = Some ''Local'', net_mode = ModeDirect, net_rtt = rtt_ms, net_loss = Some 0,
        relay_node = None, is_healthy = True\<rparr>,
     br_members = ms\<rparr>"

definition mesh_member_room ::
    "string \<Rightarrow> socket_addr \<Rightarrow> connection_mode \<Rightarrow> u32 option \<Rightarrow> room_member list \<Rightarrow> backend_room" where
  "mesh_member_room room minecraft mode rtt_ms ms =
    \<lparr>br_room_code = room, br_local_address = Some (addr_to_string minecraft),
     br_network = \<lparr>nat_type = Some ''Unknown'', net_mode = mode, net_rtt = rtt_ms, net_loss = None,
        relay_node = None, is_healthy = True\<rparr>,
     br_members = ms\<rparr>"

text \<open>The part of \<open>join_via_local_discovery\<close> after EasyTier runs.\<close>

definition local_member_session ::
    "backend_env \<Rightarrow> bytes \<Rightarrow> room_credentials \<Rightarrow> easytier_node \<Rightarrow> port_forward \<Rightarrow> port_forward \<Rightarrow> net_world
      \<Rightarrow> (room_error + backend_room \<times> member_session) \<times> net_world" where
  "local_member_session e identity credentials node scaffolding_forward minecraft_forward w =
    (case collect_member_snapshot e (pf_local_addr scaffolding_forward) (guest_profile e identity) w of
       ((ms, rtt_ms, _), w) \<Rightarrow>
    (case start_broadcast e (pf_local_addr minecraft_forward) w of
       (broadcast, w) \<Rightarrow>
         (Ok (local_member_room (cred_room_code credentials) (pf_local_addr minecraft_forward) rtt_ms ms,
              \<lparr>ms_easytier = node, ms_scaffolding_forward = Some scaffolding_forward,
               ms_minecraft_forward = Some minecraft_forward, ms_broadcast = broadcast,
               ms_local_scaffolding = pf_local_addr scaffolding_forward,
               ms_local_minecraft = pf_local_addr minecraft_forward,
               ms_prefer_direct = True, ms_allow_relay = True\<rparr>), w)))"

definition local_member_services ::
    "backend_env \<Rightarrow> bytes \<Rightarrow> room_credentials \<Rightarrow> room_endpoint_advertisement \<Rightarrow> easytier_node \<Rightarrow> net_world
      \<Rightarrow> (room_error + backend_room \<times> member_session) \<times> net_world" where
  "local_member_services e identity credentials advertisement node w =
    (case scaffolding_addr advertisement of
       Err err \<Rightarrow> (Err err, halt e node w)
     | Ok scaffolding_target \<Rightarrow>
    (case minecraft_addr advertisement of
       Err err \<Rightarrow> (Err err, halt e node w)
     | Ok minecraft_target \<Rightarrow>
    (case forward_on e local_loopback scaffolding_target w of
       (Err err, w) \<Rightarrow> (Err (forward_failed ''Scaffolding'' err), halt e node w)
     | (Ok scaffolding_forward, w) \<Rightarrow>
    (case forward_on e local_loopback minecraft_target w of
       (Err err, w) \<Rightarrow> (Err (forward_failed ''Minecraft'' err), halt e node (forward_stop scaffolding_forward w))
     | (Ok minecraft_forward, w) \<Rightarrow>
         local_member_session e identity credentials node scaffolding_forward minecraft_forward w))))"

definition join_via_local_discovery ::
    "backend_env \<Rightarrow> bytes \<Rightarrow> room_credentials \<Rightarrow> string \<Rightarrow> room_endpoint_advertisement \<Rightarrow> net_world
      \<Rightarrow> (room_error + backend_room \<times> member_session) \<times> net_world" where
  "join_via_local_discovery e identity credentials binary advertisement w =
    and_then (launch e credentials (member_config e binary credentials []) w) (\<lambda>node w.
      local_member_services e identity credentials advertisement node w)"

text \<open>The cross-machine path of \<open>join\<close>: EasyTier forwards two local ports to the host's virtual address.\<close>

definition join_via_mesh ::
    "backend_env \<Rightarrow> bytes \<Rightarrow> room_credentials \<Rightarrow> string \<Rightarrow> net_world
      \<Rightarrow> (room_error + backend_room \<times> member_session) \<times> net_world" where
  "join_via_mesh e identity credentials binary w =
    (let endpoints = mesh_from_room_code (en_sha256 e) (cred_room_code credentials);
         local_scaffolding = member_local_scaffolding_addr endpoints;
         local_minecraft = member_local_minecraft_addr endpoints
     in and_then (launch e credentials (member_config e binary credentials (member_port_forwards endpoints)) w) (\<lambda>node w.
        (case wait_for_tcp e local_scaffolding w of
           (Err err, w) \<Rightarrow> (Err err, halt e node w)
         | (Ok _, w) \<Rightarrow>
        (case collect_member_snapshot e local_scaffolding (guest_profile e identity) w of
           ((ms, rtt_ms, mode), w) \<Rightarrow>
        (case start_broadcast e local_minecraft w of
           (broadcast, w) \<Rightarrow>
             (Ok (mesh_member_room (cred_room_code credentials) local_minecraft mode rtt_ms ms,
                  \<lparr>ms_easytier = node, ms_scaffolding_forward = None, ms_minecraft_forward = None,
                   ms_broadcast = broadcast, ms_local_scaffolding = local_scaffolding,
                   ms_local_minecraft = local_minecraft, ms_prefer_direct = True, ms_allow_relay = True\<rparr>), w))))))"

definition start_member ::
    "backend_env \<Rightarrow> bytes \<Rightarrow> string \<Rightarrow> string \<Rightarrow> net_world \<Rightarrow> (room_error + backend_room \<times> member_session) \<times> net_world" where
  "start_member e identity binary room w =
    and_then (from_room_code (en_sha256 e) (en_hmac e) room, w) (\<lambda>credentials w.
    and_then (try_local_endpoint e (cred_room_code credentials) w) (\<lambda>found w. case found of
        Some advertisement \<Rightarrow> join_via_local_discovery e identity credentials binary advertisement w
      | None \<Rightarrow> join_via_mesh e identity credentials binary w))"

definition backend_join ::
    "backend_env \<Rightarrow> join_room_request \<Rightarrow> backend_state \<Rightarrow> (room_error + backend_room) \<times> backend_state" where
  "backend_join e request s =
    and_then (ensure_idle s, s) (\<lambda>_ s.
    and_then (require_identity s, s) (\<lambda>identity s.
    and_then (ok_or easytier_missing (resolve_easytier_binary (en_program e)), s) (\<lambda>binary s.
    and_then (on_world (start_member e identity binary (join_room_code request)) s) (\<lambda>(room, member) s.
      (Ok room, s\<lparr>bk_session := Some (MemberActive member)\<rparr>)))))"

section \<open>A running session\<close>

text \<open>
  Moving the host to another LAN address: the running scaffolding server is shut down first; an error
  after that leaves the session as it is, with the new server dropped again.
\<close>

definition move_ingress ::
    "backend_env \<Rightarrow> socket_addr \<Rightarrow> host_session \<Rightarrow> scaffolding_server \<Rightarrow> net_world \<Rightarrow> (room_error + unit) \<times> host_session \<times> net_world" where
  "move_ingress e address host server w =
    (case forward_on e (mesh_ingress_bind_scaffolding (hs_endpoints host)) (srv_local_addr server) w of
       (Err err, w) \<Rightarrow> (Err (ingress_failed ''rebind'' ''Scaffolding'' err), host, close_listener (srv_listener server) w)
     | (Ok scaffolding_ingress, w) \<Rightarrow>
    (case forward_on e (mesh_ingress_bind_minecraft (hs_endpoints host)) address w of
       (Err err, w) \<Rightarrow> (Err (ingress_failed ''rebind'' ''Minecraft'' err), host,
                        forward_stop scaffolding_ingress (close_listener (srv_listener server) w))
     | (Ok minecraft_ingress, w) \<Rightarrow>
         (let host' = host\<lparr>hs_scaffolding := srv_listener server, hs_context := srv_context server,
                hs_scaffolding_addr := srv_local_addr server, hs_minecraft := address,
                hs_scaffolding_ingress := scaffolding_ingress, hs_minecraft_ingress := minecraft_ingress\<rparr>;
              w' = forward_stop (hs_minecraft_ingress host) (forward_stop (hs_scaffolding_ingress host) w)
          in (case advertise e (cred_room_code (hs_credentials host)) (srv_local_addr server) address w' of
                (Err err, w) \<Rightarrow> (Err err, host', w)
              | (Ok _, w) \<Rightarrow> (Ok (), host', w)))))"

definition move_host ::
    "backend_env \<Rightarrow> bytes option \<Rightarrow> socket_addr \<Rightarrow> host_session \<Rightarrow> net_world \<Rightarrow> (room_error + unit) \<times> host_session \<times> net_world" where
  "move_host e identity address host w =
    (let w = close_listener (hs_scaffolding host) w in
     case identity of
       None \<Rightarrow> (Err (room_error_new ''identity.not-initialized''
                  ''Initialize the secure identity before entering a room.'' False), host, w)
     | Some identity \<Rightarrow>
    (case open_scaffolding e ''rebind'' identity (addr_port address) w of
       (Err err, w) \<Rightarrow> (Err err, host, w)
     | (Ok server, w) \<Rightarrow> move_ingress e address host server w))"

definition backend_set_lan_address ::
    "backend_env \<Rightarrow> socket_addr \<Rightarrow> backend_state \<Rightarrow> (room_error + unit) \<times> backend_state" where
  "backend_set_lan_address e address s = (case bk_session s of
      Some (HostActive host) \<Rightarrow>
        if \<not> is_loopback address \<or> addr_port address = 0
        then (Err (room_error_invalid ''The LAN address must use a loopback IP and a non-zero port.''), s)
        else (case move_host e (bk_identity s) address host (bk_world s) of
            (r, host', w) \<Rightarrow> (r, s\<lparr>bk_session := Some (HostActive host'), bk_world := w\<rparr>))
    | _ \<Rightarrow> (Err (room_error_new ''room.not-host''
              ''Only a connected room host can change the LAN address.'' False), s))"

definition sample_network ::
    "backend_env \<Rightarrow> easytier_node \<Rightarrow> socket_addr \<Rightarrow> bool \<Rightarrow> bool \<Rightarrow> net_world \<Rightarrow> network_status \<times> net_world" where
  "sample_network e node target direct relay w =
    (case (case resolve_easytier_cli (pe_windows (en_program e)) (pe_is_file (en_program e)) (node_binary node) of
             None \<Rightarrow> None
           | Some cli \<Rightarrow> query_peer_quality (en_cli e (nw_tick w) cli (''tcp://'' @ addr_to_string (node_rpc_portal node)))) of
       Some sample \<Rightarrow>
         (let network = network_from_peer_sample sample in
          if net_rtt network = None
          then (let rtt = probe_tcp_rtt (en_connect e (nw_tick w) target)
                in (network\<lparr>net_rtt := rtt, is_healthy := (rtt \<noteq> None)\<rparr>, tick w))
          else (network, tick w))
     | None \<Rightarrow> (network_from_probe (probe_tcp_rtt (en_connect e (nw_tick w) target)) direct relay, tick w))"

definition probe_profile :: "u64 \<Rightarrow> player_profile" where
  "probe_profile now = \<lparr>player_name = ''Probe'', machine_id = ''probe-'' @ dec (unat now),
     vendor = ''PCL N Terracotta'', player_kind_of = Some KindGuest\<rparr>"

definition refresh_backend ::
    "backend_env \<Rightarrow> backend_state \<Rightarrow> (room_error + backend_refresh) \<times> backend_state" where
  "refresh_backend e s = (case bk_session s of
      Some (HostActive host) \<Rightarrow>
        (case sample_network e (hs_easytier host) (hs_minecraft host) (hs_prefer_direct host) (hs_allow_relay host) (bk_world s) of
           (net, w) \<Rightarrow>
             (Ok \<lparr>rf_network = Some net,
                  rf_members = Some (members_from_profiles (player_profiles (hs_context host)) (net_rtt net) (net_mode net)),
                  rf_local_address = None\<rparr>, s\<lparr>bk_world := w\<rparr>))
    | Some (MemberActive member) \<Rightarrow>
        (case sample_network e (ms_easytier member) (ms_local_minecraft member) (ms_prefer_direct member)
                (ms_allow_relay member) (bk_world s) of
           (net, w) \<Rightarrow>
        (case client_heartbeat e (ms_local_scaffolding member) (probe_profile (now_unix_seconds (en_clock e (nw_tick w)))) w of
           (result, w) \<Rightarrow>
             (Ok \<lparr>rf_network = Some net,
                  rf_members = map_option (\<lambda>hb. members_from_profiles (hb_players hb)
                      (Some (millis_u32 (latency hb))) (net_mode net)) result,
                  rf_local_address = Some (addr_to_string (ms_local_minecraft member))\<rparr>, s\<lparr>bk_world := w\<rparr>)))
    | None \<Rightarrow> (Ok backend_refresh_default, s))"

definition backend_diagnose :: "backend_env \<Rightarrow> backend_state \<Rightarrow> (room_error + network_status) \<times> backend_state" where
  "backend_diagnose e s = and_then (refresh_backend e s) (\<lambda>rf s.
     (ok_or (room_error_new ''room.not-connected'' ''Network diagnostics require an active room.'' False) (rf_network rf), s))"

definition stop_forward :: "port_forward option \<Rightarrow> net_world \<Rightarrow> net_world" where
  "stop_forward f w = (case f of None \<Rightarrow> w | Some x \<Rightarrow> forward_stop x w)"

definition stop_session :: "backend_env \<Rightarrow> active_session \<Rightarrow> net_world \<Rightarrow> net_world" where
  "stop_session e active w = (case active of
      HostActive host \<Rightarrow>
        (let w = close_listener (hs_scaffolding host) w;
             w = forward_stop (hs_minecraft_ingress host) (forward_stop (hs_scaffolding_ingress host) w);
             w = halt e (hs_easytier host) w
         in snd (on_files (clear_local_endpoint (en_discovery e) (en_faults e (nw_tick w))
                  (cred_room_code (hs_credentials host))) w))
    | MemberActive member \<Rightarrow>
        (let w = (case ms_broadcast member of None \<Rightarrow> w | Some b \<Rightarrow> broadcast_stop b w);
             w = stop_forward (ms_minecraft_forward member) (stop_forward (ms_scaffolding_forward member) w)
         in halt e (ms_easytier member) w))"

definition stop_session_locked :: "backend_env \<Rightarrow> backend_state \<Rightarrow> backend_state" where
  "stop_session_locked e s = (case bk_session s of
      None \<Rightarrow> s
    | Some active \<Rightarrow> s\<lparr>bk_session := None, bk_world := stop_session e active (bk_world s)\<rparr>)"

definition backend_leave :: "backend_env \<Rightarrow> backend_state \<Rightarrow> (room_error + unit) \<times> backend_state" where
  "backend_leave e s = (Ok (), stop_session_locked e s)"

definition backend_set_identity :: "bytes \<Rightarrow> backend_state \<Rightarrow> backend_state" where
  "backend_set_identity identity s = s\<lparr>bk_identity := Some identity\<rparr>"

text \<open>The \<open>RoomBackend\<close> implementation.\<close>

definition easytier_room_backend :: "backend_env \<Rightarrow> backend_state room_backend" where
  "easytier_room_backend e =
    \<lparr>be_set_identity = backend_set_identity, be_create = backend_create e, be_join = backend_join e,
     be_set_lan_address = backend_set_lan_address e, be_diagnose = backend_diagnose e,
     be_leave = backend_leave e, be_refresh = refresh_backend e\<rparr>"

end
