(* ===== verification/Backend_Inv.thy ===== *)
theory Backend_Inv
  imports Backend
begin

text \<open>
  The invariant of the network backend: the operating-system resources that exist are exactly those of
  the active session, and the session is well formed. It holds for every behaviour of the system and of
  the peers, on every path through the operations.
\<close>

section \<open>What a session holds\<close>

definition host_listeners :: "host_session \<Rightarrow> (nat \<times> socket_addr) list" where
  "host_listeners host = [(hs_scaffolding host, hs_scaffolding_addr host),
     (pf_listener (hs_scaffolding_ingress host), pf_local_addr (hs_scaffolding_ingress host)),
     (pf_listener (hs_minecraft_ingress host), pf_local_addr (hs_minecraft_ingress host))]"

definition forward_list :: "port_forward option \<Rightarrow> (nat \<times> socket_addr) list" where
  "forward_list f = (case f of None \<Rightarrow> [] | Some x \<Rightarrow> [(pf_listener x, pf_local_addr x)])"

definition sender_list :: "lan_broadcast option \<Rightarrow> nat list" where
  "sender_list b = (case b of None \<Rightarrow> [] | Some x \<Rightarrow> [lb_sender x])"

definition member_holds :: "member_session \<Rightarrow> net_world \<Rightarrow> bool" where
  "member_holds m = holds (forward_list (ms_scaffolding_forward m) @ forward_list (ms_minecraft_forward m))
     [node_child (ms_easytier m)] (sender_list (ms_broadcast m))"

definition host_holds :: "host_session \<Rightarrow> net_world \<Rightarrow> bool" where
  "host_holds host = holds (host_listeners host) [node_child (hs_easytier host)] []"

text \<open>A host whose scaffolding server has been shut down.\<close>

definition host_holds_rest :: "host_session \<Rightarrow> net_world \<Rightarrow> bool" where
  "host_holds_rest host = holds (tl (host_listeners host)) [node_child (hs_easytier host)] []"

definition host_ok :: "backend_env \<Rightarrow> host_session \<Rightarrow> bool" where
  "host_ok e host \<longleftrightarrow> normalize_room_code (cred_room_code (hs_credentials host)) = Ok (cred_room_code (hs_credentials host))
    \<and> hs_endpoints host = mesh_from_room_code (en_sha256 e) (cred_room_code (hs_credentials host))
    \<and> pf_local_addr (hs_scaffolding_ingress host) = mesh_ingress_bind_scaffolding (hs_endpoints host)
    \<and> pf_local_addr (hs_minecraft_ingress host) = mesh_ingress_bind_minecraft (hs_endpoints host)
    \<and> pf_target (hs_scaffolding_ingress host) = hs_scaffolding_addr host
    \<and> pf_target (hs_minecraft_ingress host) = hs_minecraft host
    \<and> loopback_endpoint (hs_minecraft host) \<and> loopback_endpoint (hs_scaffolding_addr host)
    \<and> ctx_port (hs_context host) = addr_port (hs_minecraft host)
    \<and> (\<exists>profile. registry_ok profile (hs_context host)) \<and> distinct (map fst (host_listeners host))"

definition member_ok :: "member_session \<Rightarrow> bool" where
  "member_ok m \<longleftrightarrow> loopback_endpoint (ms_local_minecraft m) \<and> loopback_endpoint (ms_local_scaffolding m)"

section \<open>The pieces\<close>

lemma forward_on_ensures:
  assumes "holds ls ps ss w"
  shows "ensures (holds ls ps ss)
    (\<lambda>f w'. holds (ls @ [(pf_listener f, pf_local_addr f)]) ps ss w' \<and> addr_port (pf_local_addr f) \<noteq> 0
        \<and> pf_local_addr f = bound_addr (en_free_port e (nw_tick w)) bind \<and> \<not> in_use (pf_local_addr f) w \<and> pf_target f = target)
    (forward_on e bind target w)"
  unfolding forward_on_def by (rule forward_start_on_outcome [OF assms])

lemma halt_world [simp]: "halt e node w = kill_process (node_child node) w"
  by (simp add: halt_def)

lemma launch_ensures:
  assumes "holds ls ps ss w"
  shows "ensures (holds ls ps ss) (\<lambda>node. holds ls (ps @ [node_child node]) ss) (launch e credentials config w)"
  unfolding launch_def by (rule ensures_mono [OF start_easytier_outcome [OF assms]]) auto

lemma on_files_ensures: "holds ls ps ss w \<Longrightarrow> ensures (holds ls ps ss) (\<lambda>_. holds ls ps ss) (on_files f w)"
  by (auto simp: on_files_def ensures_def holds_tick split: prod.split sum.split)

lemma advertise_ensures: "holds ls ps ss w \<Longrightarrow> ensures (holds ls ps ss) (\<lambda>_. holds ls ps ss) (advertise e room a b w)"
  unfolding advertise_def by (rule on_files_ensures)

lemma loopback_bound: "addr_port a \<noteq> 0 \<Longrightarrow> a = bound_addr free local_loopback \<Longrightarrow> loopback_endpoint a"
  by (auto simp: loopback_endpoint_def)

lemma open_scaffolding_ensures:
  assumes "holds ls ps ss w"
  shows "ensures (holds ls ps ss)
    (\<lambda>server w'. holds (ls @ [(srv_listener server, srv_local_addr server)]) ps ss w'
        \<and> loopback_endpoint (srv_local_addr server) \<and> ctx_port (srv_context server) = port
        \<and> (\<exists>profile. registry_ok profile (srv_context server)))
    (open_scaffolding e verb identity port w)"
proof (cases "new_server_context (en_instant e (nw_tick w)) (host_profile e identity) port")
  case (Inr ctx)
  have "ctx_port ctx = port \<and> (\<exists>profile. registry_ok profile ctx)"
    using Inr registry_ok_new [OF Inr] by (auto simp: new_server_context_def Let_def split: if_splits)
  then show ?thesis unfolding open_scaffolding_def Inr sum.case
    by (intro ensures_case [OF server_bind_outcome [OF assms]])
      (auto simp: server_local_addr_def intro: close_last loopback_bound split: option.split)
qed (simp add: open_scaffolding_def assms)

section \<open>Hosting\<close>

lemma mesh_ports_nonzero:
  "addr_port (mesh_ingress_bind_scaffolding (mesh_from_room_code sha c)) \<noteq> 0"
  "addr_port (mesh_ingress_bind_minecraft (mesh_from_room_code sha c)) \<noteq> 0"
  "addr_port (member_local_scaffolding_addr (mesh_from_room_code sha c)) \<noteq> 0"
  "addr_port (member_local_minecraft_addr (mesh_from_room_code sha c)) \<noteq> 0"
proof -
  obtain a b where "unat (scaffolding_port (mesh_from_room_code sha c)) = 41000 + a"
    "unat (member_local_scaffolding_port (mesh_from_room_code sha c)) = 42000 + a"
    "unat (minecraft_port (mesh_from_room_code sha c)) = 51000 + b"
    "unat (member_local_minecraft_port (mesh_from_room_code sha c)) = 52000 + b"
    by (rule mesh_ports) blast
  then show "addr_port (mesh_ingress_bind_scaffolding (mesh_from_room_code sha c)) \<noteq> 0"
    "addr_port (mesh_ingress_bind_minecraft (mesh_from_room_code sha c)) \<noteq> 0"
    "addr_port (member_local_scaffolding_addr (mesh_from_room_code sha c)) \<noteq> 0"
    "addr_port (member_local_minecraft_addr (mesh_from_room_code sha c)) \<noteq> 0"
    by (auto simp: mesh_ingress_bind_scaffolding_def mesh_ingress_bind_minecraft_def
        member_local_scaffolding_addr_def member_local_minecraft_addr_def)
qed

lemma bound_nonzero: "addr_port a \<noteq> 0 \<Longrightarrow> bound_addr free a = a"
  by (simp add: bound_addr_def)

lemma kill_only: "holds ls [c] ss w \<Longrightarrow> holds ls [] ss (kill_process c w)"
  using kill_last [of ls "[]" c ss w] by simp

lemma host_publish_ensures:
  assumes "holds [(srv_listener server, srv_local_addr server), (pf_listener si, pf_local_addr si),
      (pf_listener mi, pf_local_addr mi)] [node_child node] [] w"
  shows "ensures (holds [] [] []) (\<lambda>host w'. host_holds host w'
      \<and> host = \<lparr>hs_credentials = credentials, hs_endpoints = mesh_from_room_code (en_sha256 e) (cred_room_code credentials),
          hs_easytier = node, hs_scaffolding = srv_listener server, hs_context = srv_context server,
          hs_scaffolding_addr = srv_local_addr server, hs_minecraft = minecraft, hs_scaffolding_ingress = si,
          hs_minecraft_ingress = mi, hs_prefer_direct = direct, hs_allow_relay = relay\<rparr>)
    (host_publish e credentials minecraft direct relay node server si mi w)"
  unfolding host_publish_def
proof (rule ensures_case [OF advertise_ensures [OF assms]])
  fix s assume "holds [(srv_listener server, srv_local_addr server), (pf_listener si, pf_local_addr si),
      (pf_listener mi, pf_local_addr mi)] [node_child node] [] s"
  from close_all [OF this, of "[pf_listener si, pf_listener mi, srv_listener server]"]
  show "ensures (holds [] [] []) R (Err err, halt e node (close_listener (srv_listener server) (forward_stop mi (forward_stop si s))))" for R err
    by (simp add: forward_stop_def kill_only)
qed (simp add: host_holds_def host_listeners_def)

text \<open>The session that results, before its parts are known to be well formed.\<close>

lemma second_ingress_ensures:
  assumes w: "holds [(srv_listener server, srv_local_addr server), (pf_listener si, pf_local_addr si)] [node_child node] [] w"
    and host: "\<And>mi host. pf_local_addr mi = mesh_ingress_bind_minecraft (mesh_from_room_code (en_sha256 e) (cred_room_code credentials))
      \<Longrightarrow> pf_target mi = minecraft
      \<Longrightarrow> host = \<lparr>hs_credentials = credentials, hs_endpoints = mesh_from_room_code (en_sha256 e) (cred_room_code credentials),
          hs_easytier = node, hs_scaffolding = srv_listener server, hs_context = srv_context server,
          hs_scaffolding_addr = srv_local_addr server, hs_minecraft = minecraft, hs_scaffolding_ingress = si,
          hs_minecraft_ingress = mi, hs_prefer_direct = direct, hs_allow_relay = relay\<rparr>
      \<Longrightarrow> distinct (map fst (host_listeners host)) \<Longrightarrow> P host"
  shows "ensures (holds [] [] []) (\<lambda>host w'. host_holds host w' \<and> P host)
    (case forward_on e (mesh_ingress_bind_minecraft (mesh_from_room_code (en_sha256 e) (cred_room_code credentials))) minecraft w of
       (Err err, w) \<Rightarrow> (Err (ingress_failed ''bind'' ''Minecraft'' err),
           halt e node (close_listener (srv_listener server) (forward_stop si w)))
     | (Ok mi, w) \<Rightarrow> host_publish e credentials minecraft direct relay node server si mi w)"
proof (rule ensures_case [OF forward_on_ensures [OF w]])
  fix s assume "holds [(srv_listener server, srv_local_addr server), (pf_listener si, pf_local_addr si)] [node_child node] [] s"
  from close_all [OF this, of "[pf_listener si, srv_listener server]"]
  show "ensures (holds [] [] []) R (Err err, halt e node (close_listener (srv_listener server) (forward_stop si s)))" for R err
    by (simp add: forward_stop_def kill_only)
next
  let ?b = "mesh_ingress_bind_minecraft (mesh_from_room_code (en_sha256 e) (cred_room_code credentials))"
  fix mi :: port_forward and w2
  assume mi: "holds ([(srv_listener server, srv_local_addr server), (pf_listener si, pf_local_addr si)]
      @ [(pf_listener mi, pf_local_addr mi)]) [node_child node] [] w2 \<and> addr_port (pf_local_addr mi) \<noteq> 0
    \<and> pf_local_addr mi = bound_addr (en_free_port e (nw_tick w)) ?b \<and> \<not> in_use (pf_local_addr mi) w \<and> pf_target mi = minecraft"
  then have "holds [(srv_listener server, srv_local_addr server), (pf_listener si, pf_local_addr si),
      (pf_listener mi, pf_local_addr mi)] [node_child node] [] w2" by auto
  from host_publish_ensures [OF this]
  show "ensures (holds [] [] []) (\<lambda>host w'. host_holds host w' \<and> P host)
      (host_publish e credentials minecraft direct relay node server si mi w2)"
    by (rule ensures_mono)
      (use mi host [of mi] in \<open>auto simp: bound_nonzero mesh_ports_nonzero host_holds_def holds_def\<close>)
qed

lemma host_ingress_ensures:
  assumes w: "holds [(srv_listener server, srv_local_addr server)] [node_child node] [] w"
    and ok: "loopback_endpoint (srv_local_addr server)" "ctx_port (srv_context server) = addr_port minecraft"
    "registry_ok profile (srv_context server)" "loopback_endpoint minecraft"
    "normalize_room_code (cred_room_code credentials) = Ok (cred_room_code credentials)"
  shows "ensures (holds [] [] []) (\<lambda>host w'. host_holds host w' \<and> host_ok e host
      \<and> hs_credentials host = credentials \<and> hs_minecraft host = minecraft)
    (host_ingress e credentials minecraft direct relay node server w)"
  unfolding host_ingress_def Let_def
proof (rule ensures_case [OF forward_on_ensures [OF w]])
  fix s assume "holds [(srv_listener server, srv_local_addr server)] [node_child node] [] s"
  then show "ensures (holds [] [] []) R (Err err, halt e node (close_listener (srv_listener server) s))" for R err
    using close_last [of "[]"] by (simp add: kill_only)
next
  let ?m = "mesh_from_room_code (en_sha256 e) (cred_room_code credentials)"
  fix si :: port_forward and w1
  assume si: "holds ([(srv_listener server, srv_local_addr server)] @ [(pf_listener si, pf_local_addr si)]) [node_child node] [] w1
    \<and> addr_port (pf_local_addr si) \<noteq> 0
    \<and> pf_local_addr si = bound_addr (en_free_port e (nw_tick w)) (mesh_ingress_bind_scaffolding ?m)
    \<and> \<not> in_use (pf_local_addr si) w \<and> pf_target si = srv_local_addr server"
  show "ensures (holds [] [] []) (\<lambda>host w'. host_holds host w' \<and> host_ok e host
      \<and> hs_credentials host = credentials \<and> hs_minecraft host = minecraft)
    (case forward_on e (mesh_ingress_bind_minecraft ?m) minecraft w1 of
       (Err err, w) \<Rightarrow> (Err (ingress_failed ''bind'' ''Minecraft'' err),
           halt e node (close_listener (srv_listener server) (forward_stop si w)))
     | (Ok mi, w) \<Rightarrow> host_publish e credentials minecraft direct relay node server si mi w)"
    by (rule second_ingress_ensures)
      (use si ok in \<open>auto simp: host_ok_def bound_nonzero mesh_ports_nonzero\<close>)
qed

lemma host_services_ensures:
  assumes "holds [] [node_child node] [] w" "loopback_endpoint minecraft"
    "normalize_room_code (cred_room_code credentials) = Ok (cred_room_code credentials)"
  shows "ensures (holds [] [] []) (\<lambda>host w'. host_holds host w' \<and> host_ok e host
      \<and> hs_credentials host = credentials \<and> hs_minecraft host = minecraft)
    (host_services e identity credentials minecraft direct relay node w)"
  unfolding host_services_def
  by (rule ensures_case [OF open_scaffolding_ensures [OF assms(1)]])
    (auto intro: kill_only host_ingress_ensures simp: assms(2,3))

lemma credentials_normal:
  "from_room_code sha hmac room = Ok c \<Longrightarrow> normalize_room_code (cred_room_code c) = Ok (cred_room_code c)"
  by (auto simp: from_room_code_def res_simps Let_def intro: credential_codes.normalize_idem)

lemma generate_normal:
  "generate sha hmac rng = Ok c \<Longrightarrow> normalize_room_code (cred_room_code c) = Ok (cred_room_code c)"
  by (auto simp: generate_def res_simps intro: credentials_normal)

lemma start_host_ensures:
  assumes "holds [] [] [] w" "loopback_endpoint minecraft"
  shows "ensures (holds [] [] []) (\<lambda>host w'. host_holds host w' \<and> host_ok e host \<and> hs_minecraft host = minecraft)
    (start_host e identity binary minecraft direct relay w)"
  unfolding start_host_def
  by (rule ensures_and_then [where R' = "\<lambda>c w'. holds [] [] [] w' \<and> normalize_room_code (cred_room_code c) = Ok (cred_room_code c)"])
    (auto simp: assms holds_tick generate_normal intro!: ensures_pure ensures_and_then [OF launch_ensures]
      intro: ensures_mono [OF host_services_ensures [OF _ assms(2)]])

section \<open>Joining\<close>

lemma heartbeat_holds: "holds ls ps ss w \<Longrightarrow> holds ls ps ss (snd (client_heartbeat e a p w))"
  by (simp add: client_heartbeat_def Let_def holds_tick split: prod.split sum.split)

lemma snapshot_holds:
  "holds ls ps ss w \<Longrightarrow> collect_member_snapshot e a p w = (x, w') \<Longrightarrow> holds ls ps ss w'"
  using heartbeat_holds [of ls ps ss w e a p]
  by (auto simp: collect_member_snapshot_def Let_def split: prod.splits option.splits)

lemma broadcast_holds:
  "holds ls ps [] w \<Longrightarrow> start_broadcast e a w = (b, w') \<Longrightarrow> holds ls ps (sender_list b) w'"
  using broadcast_start_outcome [of ls ps "[]" w "en_udp_fault e (nw_tick w)" a]
  by (auto simp: start_broadcast_def sender_list_def split: prod.splits sum.splits)

lemma local_endpoint_ensures:
  "holds ls ps ss w \<Longrightarrow> ensures (holds ls ps ss) (\<lambda>_. holds ls ps ss) (local_endpoint_loop e room n w)"
proof (induction n arbitrary: w)
  case (Suc n)
  show ?case unfolding local_endpoint_loop.simps
    by (rule ensures_and_then [OF on_files_ensures [OF Suc.prems]]) (auto simp: Suc.IH split: option.split)
qed simp

lemma wait_ensures:
  "holds ls ps ss w \<Longrightarrow> ensures (holds ls ps ss) (\<lambda>_. holds ls ps ss) (wait_for_tcp_loop e a n w)"
proof (induction n arbitrary: w)
  case (Suc n)
  then show ?case by (auto simp: holds_tick split: option.split sum.split)
qed simp

text \<open>What a successful join gives: a session that is well formed, and a room with its address.\<close>

definition joined :: "string \<Rightarrow> backend_room \<times> member_session \<Rightarrow> net_world \<Rightarrow> bool" where
  "joined room_name x w \<longleftrightarrow> member_holds (snd x) w \<and> member_ok (snd x) \<and> br_room_code (fst x) = room_name
    \<and> br_local_address (fst x) = Some (addr_to_string (ms_local_minecraft (snd x)))"

lemma local_session_ensures:
  assumes "holds [(pf_listener sf, pf_local_addr sf), (pf_listener mf, pf_local_addr mf)] [node_child node] [] w"
    "loopback_endpoint (pf_local_addr sf)" "loopback_endpoint (pf_local_addr mf)"
  shows "ensures (holds [] [] []) (joined (cred_room_code credentials))
    (local_member_session e identity credentials node sf mf w)"
proof -
  obtain ms rtt mode w1 where 1: "collect_member_snapshot e (pf_local_addr sf) (guest_profile e identity) w = ((ms, rtt, mode), w1)"
    by (metis prod.exhaust)
  obtain b w2 where 2: "start_broadcast e (pf_local_addr mf) w1 = (b, w2)" by (rule prod.exhaust)
  from broadcast_holds [OF snapshot_holds [OF assms(1) 1] 2] assms(2,3) 1 2 show ?thesis
    by (simp add: local_member_session_def joined_def member_holds_def member_ok_def forward_list_def local_member_room_def)
qed

lemma local_services_ensures:
  assumes w: "holds [] [node_child node] [] w"
  shows "ensures (holds [] [] []) (joined (cred_room_code credentials))
    (local_member_services e identity credentials advertisement node w)"
proof (cases "scaffolding_addr advertisement"; cases "minecraft_addr advertisement")
  fix st mt assume targets: "scaffolding_addr advertisement = Ok st" "minecraft_addr advertisement = Ok mt"
  show ?thesis unfolding local_member_services_def targets sum.case
  proof (rule ensures_case [OF forward_on_ensures [OF w]])
    fix sf :: port_forward and w1
    assume sf: "holds ([] @ [(pf_listener sf, pf_local_addr sf)]) [node_child node] [] w1 \<and> addr_port (pf_local_addr sf) \<noteq> 0
      \<and> pf_local_addr sf = bound_addr (en_free_port e (nw_tick w)) local_loopback \<and> \<not> in_use (pf_local_addr sf) w \<and> pf_target sf = st"
    then have w1: "holds [(pf_listener sf, pf_local_addr sf)] [node_child node] [] w1" by auto
    show "ensures (holds [] [] []) (joined (cred_room_code credentials)) (case forward_on e local_loopback mt w1 of
        (Err err, w) \<Rightarrow> (Err (forward_failed ''Minecraft'' err), halt e node (forward_stop sf w))
      | (Ok mf, w) \<Rightarrow> local_member_session e identity credentials node sf mf w)"
    proof (rule ensures_case [OF forward_on_ensures [OF w1]])
      fix s assume "holds [(pf_listener sf, pf_local_addr sf)] [node_child node] [] s"
      then show "ensures (holds [] [] []) R (Err err, halt e node (forward_stop sf s))" for R err
        using close_last [of "[]"] by (simp add: forward_stop_def kill_only)
    qed (use sf in \<open>auto intro!: local_session_ensures simp: loopback_endpoint_def\<close>)
  qed (simp add: kill_only)
qed (simp_all add: local_member_services_def w kill_only)

lemma mesh_local_loopback:
  "loopback_endpoint (member_local_scaffolding_addr (mesh_from_room_code sha c))"
  "loopback_endpoint (member_local_minecraft_addr (mesh_from_room_code sha c))"
  using mesh_ports_nonzero(3,4) [of sha c]
  by (simp_all add: loopback_endpoint_def member_local_scaffolding_addr_def member_local_minecraft_addr_def)

lemma mesh_session_ensures:
  assumes "holds [] [node_child node] [] w" "loopback_endpoint ls" "loopback_endpoint lm"
  shows "ensures (holds [] [] []) (joined room_name)
    (case collect_member_snapshot e ls (guest_profile e identity) w of ((ms, rtt_ms, mode), w) \<Rightarrow>
      (case start_broadcast e lm w of (broadcast, w) \<Rightarrow>
         (Ok (mesh_member_room room_name lm mode rtt_ms ms,
              \<lparr>ms_easytier = node, ms_scaffolding_forward = None, ms_minecraft_forward = None,
               ms_broadcast = broadcast, ms_local_scaffolding = ls, ms_local_minecraft = lm,
               ms_prefer_direct = True, ms_allow_relay = True\<rparr>), w)))"
proof -
  obtain ms rtt mode w1 where 1: "collect_member_snapshot e ls (guest_profile e identity) w = ((ms, rtt, mode), w1)"
    by (metis prod.exhaust)
  obtain b w2 where 2: "start_broadcast e lm w1 = (b, w2)" by (rule prod.exhaust)
  from broadcast_holds [OF snapshot_holds [OF assms(1) 1] 2] assms(2,3) 1 2 show ?thesis
    by (simp add: joined_def member_holds_def member_ok_def forward_list_def mesh_member_room_def)
qed

lemma mesh_join_ensures:
  assumes "holds [] [] [] w"
  shows "ensures (holds [] [] []) (joined (cred_room_code credentials)) (join_via_mesh e identity credentials binary w)"
  unfolding join_via_mesh_def Let_def
proof (rule ensures_and_then [OF launch_ensures [OF assms]])
  fix node :: easytier_node and w1 assume "holds [] ([] @ [node_child node]) [] w1"
  then have w1: "holds [] [node_child node] [] w1" by simp
  let ?m = "mesh_from_room_code (en_sha256 e) (cred_room_code credentials)"
  show "ensures (holds [] [] []) (joined (cred_room_code credentials))
     (case wait_for_tcp e (member_local_scaffolding_addr ?m) w1 of
        (Err err, w) \<Rightarrow> (Err err, halt e node w)
      | (Ok _, w) \<Rightarrow>
          (case collect_member_snapshot e (member_local_scaffolding_addr ?m) (guest_profile e identity) w of ((ms, rtt_ms, mode), w) \<Rightarrow>
            (case start_broadcast e (member_local_minecraft_addr ?m) w of (broadcast, w) \<Rightarrow>
              (Ok (mesh_member_room (cred_room_code credentials) (member_local_minecraft_addr ?m) mode rtt_ms ms,
                \<lparr>ms_easytier = node, ms_scaffolding_forward = None, ms_minecraft_forward = None,
                 ms_broadcast = broadcast, ms_local_scaffolding = member_local_scaffolding_addr ?m,
                 ms_local_minecraft = member_local_minecraft_addr ?m,
                 ms_prefer_direct = True, ms_allow_relay = True\<rparr>), w))))"
    unfolding wait_for_tcp_def
    by (rule ensures_case [OF wait_ensures [OF w1]]) (auto intro: kill_only mesh_session_ensures mesh_local_loopback)
qed

lemma start_member_ensures:
  assumes "holds [] [] [] w"
  shows "ensures (holds [] [] []) (\<lambda>x w'. \<exists>room_name. joined room_name x w' \<and> normalize_room_code room = Ok room_name)
    (start_member e identity binary room w)"
  unfolding start_member_def
proof (rule ensures_and_then [where R' = "\<lambda>c w'. holds [] [] [] w' \<and> normalize_room_code room = Ok (cred_room_code c)"])
  show "ensures (holds [] [] []) (\<lambda>c w'. holds [] [] [] w' \<and> normalize_room_code room = Ok (cred_room_code c))
      (from_room_code (en_sha256 e) (en_hmac e) room, w)"
    by (rule ensures_pure) (auto simp: assms from_room_code_def res_simps Let_def)
next
  fix c :: room_credentials and w1 assume c: "holds [] [] [] w1 \<and> normalize_room_code room = Ok (cred_room_code c)"
  show "ensures (holds [] [] []) (\<lambda>x w'. \<exists>room_name. joined room_name x w' \<and> normalize_room_code room = Ok room_name)
    (and_then (try_local_endpoint e (cred_room_code c) w1) (\<lambda>found w. case found of
        None \<Rightarrow> join_via_mesh e identity c binary w
      | Some advertisement \<Rightarrow> join_via_local_discovery e identity c binary advertisement w))"
    unfolding try_local_endpoint_def
  proof (rule ensures_and_then [OF local_endpoint_ensures [of "[]" "[]" "[]"]])
    fix found w2 assume w2: "holds [] [] [] w2"
    have "ensures (holds [] [] []) (joined (cred_room_code c)) (join_via_local_discovery e identity c binary a w2)" for a
      unfolding join_via_local_discovery_def
      by (rule ensures_and_then [OF launch_ensures [OF w2]]) (simp add: local_services_ensures)
    with mesh_join_ensures [OF w2] c
    show "ensures (holds [] [] []) (\<lambda>x w'. \<exists>room_name. joined room_name x w' \<and> normalize_room_code room = Ok room_name)
      (case found of None \<Rightarrow> join_via_mesh e identity c binary w2
       | Some advertisement \<Rightarrow> join_via_local_discovery e identity c binary advertisement w2)"
      by (auto split: option.split intro: ensures_mono)
  qed (simp add: c)
qed

section \<open>Moving a host\<close>

lemma overlap_refl: "overlap a a"
  by (cases a) auto

lemma in_use_listener: "(i, a) \<in> set (nw_listeners w) \<Longrightarrow> in_use a w"
  by (force simp: in_use_def list_ex_iff overlap_refl)

lemma host_holds_close:
  assumes "host_holds host w \<or> host_holds_rest host w" "host_ok e host"
  shows "host_holds_rest host (close_listener (hs_scaffolding host) w)"
proof -
  let ?f = "filter (\<lambda>(j, a). j \<noteq> hs_scaffolding host)"
  have rest: "?f (tl (host_listeners host)) = tl (host_listeners host)"
    using assms(2) by (intro filter_absent) (auto simp: host_ok_def host_listeners_def)
  moreover have "?f (host_listeners host) = ?f (tl (host_listeners host))" by (simp add: host_listeners_def)
  ultimately show ?thesis
    using assms(1) close_holds [of _ "[node_child (hs_easytier host)]" "[]" w "hs_scaffolding host"]
    unfolding host_holds_def host_holds_rest_def by metis
qed

text \<open>The old ingress still listens on the port that the new one needs, so binding it fails.\<close>

lemma move_ingress_fails:
  assumes "host_ok e host"
    "holds (tl (host_listeners host) @ [(srv_listener server, srv_local_addr server)]) [node_child (hs_easytier host)] [] w"
  shows "\<exists>err w'. move_ingress e address host server w = (Err (ingress_failed ''rebind'' ''Scaffolding'' err), host, w')
    \<and> host_holds_rest host w'"
proof -
  let ?b = "mesh_ingress_bind_scaffolding (hs_endpoints host)"
  have "addr_port ?b \<noteq> 0" "pf_local_addr (hs_scaffolding_ingress host) = ?b"
    using assms(1) mesh_ports_nonzero by (simp_all add: host_ok_def)
  then have "in_use (bound_addr (en_free_port e (nw_tick w)) ?b) w"
    using assms(2) by (auto simp: bound_nonzero holds_def host_listeners_def intro!: in_use_listener)
  then obtain err w1 where f: "forward_on e ?b (srv_local_addr server) w = (Err err, w1)"
    using forward_on_ensures [OF assms(2), of e ?b "srv_local_addr server"]
    by (cases "forward_on e ?b (srv_local_addr server) w"; cases "fst (forward_on e ?b (srv_local_addr server) w)") auto
  with forward_on_ensures [OF assms(2), of e ?b "srv_local_addr server"]
  have "holds (tl (host_listeners host) @ [(srv_listener server, srv_local_addr server)]) [node_child (hs_easytier host)] [] w1"
    by simp
  from close_last [OF this] f show ?thesis
    by (intro exI) (simp add: move_ingress_def host_holds_rest_def)
qed

lemma move_host_fails:
  assumes "host_holds host w \<or> host_holds_rest host w" "host_ok e host"
  shows "\<exists>err w'. move_host e identity address host w = (Err err, host, w') \<and> host_holds_rest host w'"
proof (cases identity)
  case None
  with host_holds_close [OF assms] show ?thesis by (simp add: move_host_def Let_def)
next
  case (Some i)
  let ?w = "close_listener (hs_scaffolding host) w"
  have w: "holds (tl (host_listeners host)) [node_child (hs_easytier host)] [] ?w"
    using host_holds_close [OF assms] by (simp add: host_holds_rest_def)
  obtain x w1 where x: "open_scaffolding e ''rebind'' i (addr_port address) ?w = (x, w1)" by (rule prod.exhaust)
  note o = open_scaffolding_ensures [OF w, of "addr_port address" e "''rebind''" i, unfolded x]
  show ?thesis
  proof (cases x)
    case (Inl err)
    with o x Some show ?thesis by (simp add: move_host_def Let_def host_holds_rest_def)
  next
    case (Inr server)
    with o have "holds (tl (host_listeners host) @ [(srv_listener server, srv_local_addr server)])
        [node_child (hs_easytier host)] [] w1" by simp
    from move_ingress_fails [OF assms(2) this, of address] x Inr Some show ?thesis
      by (auto simp: move_host_def Let_def)
  qed
qed

section \<open>Stopping\<close>

lemma stop_host:
  assumes "host_holds host w \<or> host_holds_rest host w"
  shows "holds [] [] [] (stop_session e (HostActive host) w)"
proof -
  obtain ls where "holds ls [node_child (hs_easytier host)] [] w" "set (map fst ls) \<subseteq> set (map fst (host_listeners host))"
    using assms by (auto simp: host_holds_def host_holds_rest_def host_listeners_def)
  from close_all [OF this(1), of "[hs_scaffolding host, pf_listener (hs_scaffolding_ingress host),
      pf_listener (hs_minecraft_ingress host)]"] this(2)
  have "holds [] [node_child (hs_easytier host)] [] (forward_stop (hs_minecraft_ingress host)
      (forward_stop (hs_scaffolding_ingress host) (close_listener (hs_scaffolding host) w)))"
    by (simp add: forward_stop_def host_listeners_def)
  from ensures_snd [OF on_files_ensures [OF kill_only [OF this]]] show ?thesis
    by (simp add: stop_session_def Let_def)
qed

lemma close_sender_only: "holds ls ps [c] w \<Longrightarrow> holds ls ps [] (close_sender c w)"
  using close_sender_holds [of ls ps "[c]" w c] by simp

lemma stop_member:
  assumes "member_holds m w" shows "holds [] [] [] (stop_session e (MemberActive m) w)"
proof -
  let ?ls = "forward_list (ms_scaffolding_forward m) @ forward_list (ms_minecraft_forward m)"
  let ?w = "case ms_broadcast m of None \<Rightarrow> w | Some b \<Rightarrow> broadcast_stop b w"
  have "holds ?ls [node_child (ms_easytier m)] [] ?w"
    using assms by (auto simp: member_holds_def sender_list_def broadcast_stop_def close_sender_only split: option.splits)
  from close_all [OF this, of "map fst ?ls"]
  have "holds [] [node_child (ms_easytier m)] [] (fold close_listener (map fst ?ls) ?w)" by simp
  moreover have "fold close_listener (map fst ?ls) v
      = stop_forward (ms_minecraft_forward m) (stop_forward (ms_scaffolding_forward m) v)" for v
    by (simp add: forward_list_def stop_forward_def forward_stop_def split: option.split)
  ultimately show ?thesis by (simp add: stop_session_def Let_def kill_only)
qed

section \<open>The invariant\<close>

definition session_ok :: "backend_env \<Rightarrow> active_session option \<Rightarrow> net_world \<Rightarrow> bool" where
  "session_ok e active w = (case active of
      None \<Rightarrow> holds [] [] [] w
    | Some (HostActive host) \<Rightarrow> host_ok e host \<and> (host_holds host w \<or> host_holds_rest host w)
    | Some (MemberActive m) \<Rightarrow> member_ok m \<and> member_holds m w)"

definition backend_ok :: "backend_env \<Rightarrow> backend_state \<Rightarrow> bool" where
  "backend_ok e s \<longleftrightarrow> session_ok e (bk_session s) (bk_world s) \<and> (bk_session s = None \<or> bk_identity s \<noteq> None)"

lemma on_world_ensures:
  "ensures Q R (f (bk_world s))
    \<Longrightarrow> ensures (\<lambda>s'. Q (bk_world s') \<and> bk_session s' = bk_session s \<and> bk_identity s' = bk_identity s)
     (\<lambda>v s'. R v (bk_world s') \<and> bk_session s' = bk_session s \<and> bk_identity s' = bk_identity s) (on_world f s)"
  by (auto simp: on_world_def ensures_def split: prod.splits sum.splits)

lemma session_ok_simps [simp]:
  "session_ok e None w = holds [] [] [] w"
  "session_ok e (Some (HostActive host)) w = (host_ok e host \<and> (host_holds host w \<or> host_holds_rest host w))"
  "session_ok e (Some (MemberActive m)) w = (member_ok m \<and> member_holds m w)"
  by (simp_all add: session_ok_def)

text \<open>The guards of \<open>create\<close> and \<open>join\<close>: nothing has happened when they refuse.\<close>

lemma guards_ensure:
  assumes "backend_ok e s"
    "\<And>identity binary. bk_session s = None \<Longrightarrow> bk_identity s = Some identity \<Longrightarrow> holds [] [] [] (bk_world s)
      \<Longrightarrow> ensures (\<lambda>s'. backend_ok e s' \<and> bk_session s' = bk_session s) R (f identity binary s)"
  shows "ensures (\<lambda>s'. backend_ok e s' \<and> bk_session s' = bk_session s) R
    (and_then (ensure_idle s, s) (\<lambda>_ s. and_then (require_identity s, s) (\<lambda>identity s.
      and_then (ok_or easytier_missing (resolve_easytier_binary (en_program e)), s) (\<lambda>binary s. f identity binary s))))"
  using assms
  by (intro ensures_try) (auto simp: ensure_idle_def require_identity_def res_simps backend_ok_def split: if_splits)

lemma host_room_ensures:
  assumes "bk_session s = None" "bk_identity s = Some identity" "holds [] [] [] (bk_world s)"
  shows "ensures (\<lambda>s'. backend_ok e s' \<and> bk_session s' = bk_session s)
    (\<lambda>room s'. \<exists>host. bk_session s' = Some (HostActive host) \<and> backend_ok e s'
       \<and> host_holds host (bk_world s') \<and> parse_socket_addr (create_lan_address request) = Some (hs_minecraft host)
       \<and> br_room_code room = cred_room_code (hs_credentials host) \<and> br_local_address room = None)
    (host_room e request identity binary s)"
  unfolding host_room_def
proof (rule ensures_try)
  fix minecraft
  assume "ok_or (room_error_invalid ''The LAN address must be a valid IP endpoint.'')
      (parse_socket_addr (create_lan_address request)) = Ok minecraft"
  then have p: "parse_socket_addr (create_lan_address request) = Some minecraft" by (simp add: res_simps)
  let ?start = "start_host e identity binary minecraft (prefer_direct request) (allow_relay request)"
  have start: "ensures (\<lambda>s'. backend_ok e s' \<and> bk_session s' = bk_session s)
      (\<lambda>host s'. host_holds host (bk_world s') \<and> host_ok e host \<and> hs_minecraft host = minecraft \<and> bk_identity s' \<noteq> None)
      (on_world ?start s)" if "\<not> (\<not> is_loopback minecraft \<or> addr_port minecraft = 0)"
  proof -
    have "loopback_endpoint minecraft" using that by (simp add: loopback_endpoint_def)
    from on_world_ensures [where f = ?start, OF start_host_ensures [OF assms(3) this]]
    show ?thesis by (rule ensures_mono) (auto simp: backend_ok_def assms)
  qed
  show "ensures (\<lambda>s'. backend_ok e s' \<and> bk_session s' = bk_session s)
    (\<lambda>room s'. \<exists>host. bk_session s' = Some (HostActive host) \<and> backend_ok e s'
       \<and> host_holds host (bk_world s') \<and> parse_socket_addr (create_lan_address request) = Some (hs_minecraft host)
       \<and> br_room_code room = cred_room_code (hs_credentials host) \<and> br_local_address room = None)
    (if \<not> is_loopback minecraft \<or> addr_port minecraft = 0
    then (Err (room_error_invalid ''The LAN address must use a loopback IP and a non-zero port.''), s)
    else
      and_then (on_world (start_host e identity binary minecraft (prefer_direct request) (allow_relay request)) s) (\<lambda>host s.
        (Ok \<lparr>br_room_code = cred_room_code (hs_credentials host), br_local_address = None,
             br_network = host_network_status (prefer_direct request) (allow_relay request),
             br_members = [\<lparr>member_id = machine_id_from_identity (en_sha256 e) identity, display_name = ''Host'',
                member_mode = ModeDirect, member_rtt = Some 0, member_loss = Some 0\<rparr>]\<rparr>,
         s\<lparr>bk_session := Some (HostActive host)\<rparr>)))"
  proof (cases "\<not> is_loopback minecraft \<or> addr_port minecraft = 0")
    case False
    show ?thesis unfolding if_not_P [OF False]
      by (rule ensures_and_then [OF start [OF False]]) (use p in \<open>auto simp: backend_ok_def\<close>)
  qed (simp add: backend_ok_def assms)
qed (simp add: backend_ok_def assms)

lemma backend_create_ensures:
  assumes "backend_ok e s"
  shows "ensures (\<lambda>s'. backend_ok e s' \<and> bk_session s' = bk_session s)
    (\<lambda>room s'. \<exists>host. bk_session s' = Some (HostActive host) \<and> backend_ok e s'
       \<and> host_holds host (bk_world s') \<and> parse_socket_addr (create_lan_address request) = Some (hs_minecraft host)
       \<and> br_room_code room = cred_room_code (hs_credentials host) \<and> br_local_address room = None)
    (backend_create e request s)"
  unfolding backend_create_def by (rule guards_ensure [OF assms]) (rule host_room_ensures)

end
