(* ===== verification/Service_Backend.thy ===== *)
theory Service_Backend
  imports Room_Service
begin

text \<open>
  What the room service relies on in its backend, and what follows for the two together: the
  snapshot that the service reports and the session that the backend runs never disagree.
\<close>

text \<open>A room that the service takes over as it is.\<close>

definition enters :: "bool \<Rightarrow> backend_room \<Rightarrow> bool" where
  "enters require_local room \<longleftrightarrow> validate_backend_room room require_local = Ok room"

text \<open>
  A backend that runs at most one session: \<open>active\<close> is the role of the session. A failed operation
  leaves no session behind, a session that is entered passes the service's validation, a refresh of a
  session reports a network status, and leaving cannot fail.
\<close>

locale session_backend =
  fixes B :: "'b room_backend"
    and inv :: "'b \<Rightarrow> bool"
    and active :: "'b \<Rightarrow> room_role option"
  assumes identity_law: "inv b \<Longrightarrow> inv (be_set_identity B k b) \<and> active (be_set_identity B k b) = active b"
    and create_law: "inv b \<Longrightarrow> ensures (\<lambda>b'. inv b' \<and> active b' = active b)
        (\<lambda>room b'. inv b' \<and> active b' = Some RoleHost \<and> enters False room) (be_create B rc b)"
    and join_law: "inv b \<Longrightarrow> ensures (\<lambda>b'. inv b' \<and> active b' = active b)
        (\<lambda>room b'. inv b' \<and> active b' = Some RoleMember \<and> enters True room) (be_join B rj b)"
    and set_lan_law: "inv b \<Longrightarrow> inv (snd (be_set_lan_address B a b)) \<and> active (snd (be_set_lan_address B a b)) = active b"
    and refresh_law: "inv b \<Longrightarrow> ensures (\<lambda>_. False)
        (\<lambda>rf b'. inv b' \<and> active b' = active b \<and> (rf_network rf = None \<longleftrightarrow> active b = None)) (be_refresh B b)"
    and leave_law: "inv b \<Longrightarrow> ensures (\<lambda>_. False) (\<lambda>_ b'. inv b' \<and> active b' = None) (be_leave B b)"
begin

definition agrees :: "'b room_service \<Rightarrow> bool" where
  "agrees s \<longleftrightarrow> inv (svc_backend s)
    \<and> active (svc_backend s) = (if room_st (svc_state s) \<in> {Connected, Reconnecting} then Some (role (svc_state s)) else None)
    \<and> room_st (svc_state s) \<in> {Idle, Connected, Reconnecting, Faulted}"

lemma agrees_identity: "agrees s \<Longrightarrow> agrees (initialize_identity B k s)"
  using identity_law [of "svc_backend s" k] by (auto simp: agrees_def initialize_identity_def)

lemma refresh_obtain:
  assumes "agrees s"
  obtains rf b' where "be_refresh B (svc_backend s) = (Ok rf, b')" "inv b'" "active b' = active (svc_backend s)"
    "rf_network rf = None \<longleftrightarrow> active (svc_backend s) = None"
  using refresh_law [of "svc_backend s"] assms
  by (cases "be_refresh B (svc_backend s)"; cases "fst (be_refresh B (svc_backend s))") (auto simp: agrees_def)

lemma refresh_snapshot_keeps:
  "refresh_snapshot rf st = (st', en, es) \<Longrightarrow> role st' = role st
    \<and> (room_st st \<in> {Connected, Reconnecting} \<longrightarrow> room_st st' \<in> {Connected, Reconnecting})"
  by (auto simp: refresh_snapshot_def apply_network_def Let_def split: option.splits if_splits)

lemma agrees_poll:
  assumes "agrees s" shows "agrees (poll_and_emit B ko s)"
proof -
  obtain rf b' where rf: "be_refresh B (svc_backend s) = (Ok rf, b')" "inv b'" "active b' = active (svc_backend s)"
    by (rule refresh_obtain [OF assms])
  obtain st en es where st: "refresh_snapshot rf (svc_state s) = (st, en, es)" by (rule prod_cases3)
  have "svc_backend (poll_and_emit B ko s) = b'"
    "svc_state (poll_and_emit B ko s) = (if room_st (svc_state s) \<in> {Connected, Reconnecting, Diagnosing} then st else svc_state s)"
    by (simp_all add: poll_and_emit_def rf(1) Let_def st publish_def split: option.split)
  with assms rf refresh_snapshot_keeps [OF st] show ?thesis by (auto simp: agrees_def)
qed

lemma agrees_status: "agrees s \<Longrightarrow> agrees (snd (status B ko s))"
  by (simp add: status_def Let_def agrees_poll)

lemma agrees_enter:
  assumes "ensures (\<lambda>b'. inv b' \<and> active b' = None) (\<lambda>room b'. inv b' \<and> active b' = Some r \<and> enters req room) (answer, svc_backend s)"
  shows "agrees (snd (enter_room r req sid answer s))"
  using assms
  by (auto simp: enter_room_def agrees_def faulted_snapshot_def connected_snapshot_def enters_def Let_def publish_def
      replace_known_members_def split: sum.split)

lemma agrees_create:
  assumes "agrees s" shows "agrees (snd (create B rq s))"
proof -
  have law: "ensures (\<lambda>b'. inv b' \<and> active b' = None) (\<lambda>room b'. inv b' \<and> active b' = Some RoleHost \<and> enters False room)
      (answer, b)" if "room_st (svc_state s) = Idle" "be_create B r (svc_backend s) = (answer, b)" for r answer b
    using create_law [of "svc_backend s" r] assms that by (simp add: agrees_def)
  show ?thesis
    using assms law
    by (auto simp: create_def Let_def split: sum.split prod.split intro!: agrees_enter)
qed

lemma agrees_join:
  assumes "agrees s" shows "agrees (snd (join_room B rq s))"
proof -
  have law: "ensures (\<lambda>b'. inv b' \<and> active b' = None) (\<lambda>room b'. inv b' \<and> active b' = Some RoleMember \<and> enters True room)
      (answer, b)" if "room_st (svc_state s) = Idle" "be_join B r (svc_backend s) = (answer, b)" for r answer b
    using join_law [of "svc_backend s" r] assms that by (simp add: agrees_def)
  show ?thesis
    using assms law
    by (auto simp: join_room_def Let_def split: sum.split prod.split intro!: agrees_enter)
qed

lemma agrees_set_lan:
  assumes "agrees s" shows "agrees (snd (set_lan_address B ko rq s))"
proof -
  have "agrees (s\<lparr>svc_backend := b\<rparr>)" if "be_set_lan_address B a (svc_backend s) = (r, b)" for a r b
    using set_lan_law [of "svc_backend s" a] assms that by (simp add: agrees_def)
  with assms show ?thesis
    using agrees_status [of _ ko]
    by (auto simp: set_lan_address_def Let_def split: sum.split prod.split) (metis snd_conv)+
qed

lemma agrees_diagnose:
  assumes "agrees s" shows "agrees (snd (diagnose B s))"
proof -
  obtain rf b' where rf: "be_refresh B (svc_backend s) = (Ok rf, b')" "inv b'" "active b' = active (svc_backend s)"
    "rf_network rf = None \<longleftrightarrow> active (svc_backend s) = None"
    by (rule refresh_obtain [OF assms])
  with assms show ?thesis
    by (auto simp: diagnose_def Let_def agrees_def split: option.splits)
qed

lemma agrees_leave:
  assumes "agrees s" shows "agrees (snd (leave B s))"
proof -
  from assms have "inv (svc_backend s)" by (simp add: agrees_def)
  from leave_law [OF this] obtain b' where "be_leave B (svc_backend s) = (Ok (), b')" "inv b'" "active b' = None"
    by (cases "be_leave B (svc_backend s)"; cases "fst (be_leave B (svc_backend s))") auto
  with assms show ?thesis
    by (auto simp: leave_def Let_def agrees_def publish_def idle_snapshot_def)
qed

lemma agrees_step: "agrees s \<Longrightarrow> agrees (service_step B ko x s)"
  by (cases x) (simp_all add: agrees_identity agrees_poll agrees_status agrees_create agrees_join agrees_set_lan
      agrees_diagnose agrees_leave)

lemma agrees_new: "inv b \<Longrightarrow> active b = None \<Longrightarrow> agrees (new_room_service b)"
  by (simp add: agrees_def new_room_service_def idle_snapshot_def)

end

end
