(* ===== verification/Backend_System.thy ===== *)
theory Backend_System
  imports Backend_Inv Service_Backend
begin

text \<open>
  The network backend as a machine that keeps its invariant, the room service on top of it, and
  the properties of the two together.
\<close>

section \<open>Every operation keeps the invariant\<close>

definition active_role :: "backend_state \<Rightarrow> room_role option" where
  "active_role s = map_option (\<lambda>a. case a of HostActive _ \<Rightarrow> RoleHost | MemberActive _ \<Rightarrow> RoleMember) (bk_session s)"

lemma backend_join_ensures:
  assumes "backend_ok e s"
  shows "ensures (\<lambda>s'. backend_ok e s' \<and> bk_session s' = bk_session s)
    (\<lambda>room s'. \<exists>m. bk_session s' = Some (MemberActive m) \<and> backend_ok e s'
       \<and> normalize_room_code (join_room_code request) = Ok (br_room_code room)
       \<and> br_local_address room = Some (addr_to_string (ms_local_minecraft m)))
    (backend_join e request s)"
  unfolding backend_join_def
proof (rule guards_ensure [OF assms])
  fix identity binary
  assume s: "bk_session s = None" "bk_identity s = Some identity" "holds [] [] [] (bk_world s)"
  let ?start = "start_member e identity binary (join_room_code request)"
  show "ensures (\<lambda>s'. backend_ok e s' \<and> bk_session s' = bk_session s)
    (\<lambda>room s'. \<exists>m. bk_session s' = Some (MemberActive m) \<and> backend_ok e s'
       \<and> normalize_room_code (join_room_code request) = Ok (br_room_code room)
       \<and> br_local_address room = Some (addr_to_string (ms_local_minecraft m)))
    (and_then (on_world ?start s) (\<lambda>(room, member) s. (Ok room, s\<lparr>bk_session := Some (MemberActive member)\<rparr>)))"
  proof (rule ensures_and_then)
    show "ensures (\<lambda>s'. backend_ok e s' \<and> bk_session s' = bk_session s)
      (\<lambda>x s'. (\<exists>room_name. joined room_name x (bk_world s') \<and> normalize_room_code (join_room_code request) = Ok room_name)
          \<and> bk_identity s' \<noteq> None) (on_world ?start s)"
      by (rule ensures_mono [OF on_world_ensures [where f = ?start, OF start_member_ensures [OF s(3)]]])
        (auto simp: backend_ok_def s)
  qed (auto simp: backend_ok_def joined_def)
qed

lemma set_lan_fails:
  assumes "backend_ok e s"
  shows "\<exists>err s'. backend_set_lan_address e address s = (Err err, s') \<and> backend_ok e s'
    \<and> bk_session s' = bk_session s \<and> bk_identity s' = bk_identity s
    \<and> (\<forall>host. bk_session s = Some (HostActive host) \<longrightarrow> loopback_endpoint address
         \<longrightarrow> host_holds_rest host (bk_world s'))"
proof (cases "bk_session s")
  case (Some active)
  show ?thesis
  proof (cases active)
    case (HostActive host)
    with assms Some have host: "host_ok e host" "host_holds host (bk_world s) \<or> host_holds_rest host (bk_world s)"
      by (simp_all add: backend_ok_def)
    from move_host_fails [OF host(2,1), of "bk_identity s" address] obtain err w where
      "move_host e (bk_identity s) address host (bk_world s) = (Err err, host, w)" "host_holds_rest host w"
      by blast
    with assms Some HostActive host show ?thesis
      by (auto simp: backend_set_lan_address_def backend_ok_def loopback_endpoint_def)
  qed (use assms Some in \<open>simp add: backend_set_lan_address_def\<close>)
qed (use assms in \<open>simp add: backend_set_lan_address_def\<close>)

lemma session_ok_tick: "session_ok e a w \<Longrightarrow> session_ok e a (tick w)"
  by (auto simp: session_ok_def host_holds_def host_holds_rest_def member_holds_def holds_tick
      split: option.splits active_session.splits)

lemma session_ok_files [simp]: "session_ok e a (w\<lparr>nw_files := fs\<rparr>) = session_ok e a w"
  by (auto simp: session_ok_def host_holds_def host_holds_rest_def member_holds_def
      split: option.splits active_session.splits)

lemma sample_network_world [simp]: "snd (sample_network e node target d r w) = tick w"
  by (simp add: sample_network_def Let_def split: option.split)

lemma client_heartbeat_world [simp]: "snd (client_heartbeat e a p w) = tick w"
  by (simp add: client_heartbeat_def Let_def split: prod.split sum.split)

text \<open>A refresh only takes time, and reports a network status exactly when there is a session.\<close>

lemma refresh_ensures:
  assumes "backend_ok e s"
  shows "ensures (\<lambda>_. False) (\<lambda>rf s'. backend_ok e s' \<and> bk_session s' = bk_session s
      \<and> (rf_network rf = None \<longleftrightarrow> bk_session s = None)) (refresh_backend e s)"
proof (cases "bk_session s")
  case (Some active)
  have ok: "session_ok e (Some active) (bk_world s)" "bk_identity s \<noteq> None" using assms Some by (simp_all add: backend_ok_def)
  show ?thesis
  proof (cases active)
    case (HostActive host)
    obtain n w where n: "sample_network e (hs_easytier host) (hs_minecraft host) (hs_prefer_direct host) (hs_allow_relay host)
        (bk_world s) = (n, w)" by (rule prod.exhaust)
    then have "w = tick (bk_world s)" using sample_network_world by (metis snd_conv)
    with n Some HostActive session_ok_tick [OF ok(1)] ok(2) show ?thesis by (simp add: refresh_backend_def backend_ok_def)
  next
    case (MemberActive m)
    obtain n w where n: "sample_network e (ms_easytier m) (ms_local_minecraft m) (ms_prefer_direct m) (ms_allow_relay m)
        (bk_world s) = (n, w)" by (rule prod.exhaust)
    then have w: "w = tick (bk_world s)" using sample_network_world by (metis snd_conv)
    obtain r w' where r: "client_heartbeat e (ms_local_scaffolding m) (probe_profile (now_unix_seconds (en_clock e (nw_tick w)))) w
        = (r, w')" by (rule prod.exhaust)
    then have "w' = tick w" using client_heartbeat_world by (metis snd_conv)
    with n r w Some MemberActive session_ok_tick [OF session_ok_tick [OF ok(1)]] ok(2) show ?thesis
      by (simp add: refresh_backend_def backend_ok_def)
  qed
qed (use assms in \<open>simp add: refresh_backend_def backend_refresh_default_def\<close>)

lemma diagnose_keeps:
  assumes "backend_ok e s"
  shows "backend_ok e (snd (backend_diagnose e s)) \<and> bk_session (snd (backend_diagnose e s)) = bk_session s"
  using refresh_ensures [OF assms]
  by (cases "refresh_backend e s"; cases "fst (refresh_backend e s)") (auto simp: backend_diagnose_def and_then_simps)

lemma leave_clears:
  assumes "backend_ok e s"
  shows "backend_ok e (stop_session_locked e s) \<and> bk_session (stop_session_locked e s) = None
    \<and> holds [] [] [] (bk_world (stop_session_locked e s))"
proof (cases "bk_session s")
  case (Some active)
  with assms show ?thesis
    by (cases active) (simp_all add: stop_session_locked_def backend_ok_def stop_host stop_member)
qed (use assms in \<open>simp add: stop_session_locked_def backend_ok_def\<close>)

lemma identity_keeps:
  "backend_ok e s \<Longrightarrow> backend_ok e (backend_set_identity k s) \<and> bk_session (backend_set_identity k s) = bk_session s"
  by (simp add: backend_ok_def backend_set_identity_def)

section \<open>The service on this backend\<close>

lemma host_room_enters:
  "host_ok e host \<Longrightarrow> br_room_code room = cred_room_code (hs_credentials host) \<Longrightarrow> br_local_address room = None
    \<Longrightarrow> enters False room"
  by (cases room) (simp add: enters_def validate_backend_room_def service_normalize_eq host_ok_def Let_def)

lemma member_room_enters:
  assumes "normalize_room_code text = Ok (br_room_code room)" "br_local_address room = Some (addr_to_string a)" "loopback_endpoint a"
  shows "enters True room"
  using credential_codes.normalize_idem [OF assms(1)] service_addresses.validate_printed [OF assms(3)] assms(2)
  by (cases room) (simp add: enters_def validate_backend_room_def service_normalize_eq Let_def del: addr_to_string.simps)

interpretation easytier_backend: session_backend "easytier_room_backend e" "backend_ok e" active_role for e
proof
  fix b :: backend_state and k rc rj a assume ok: "backend_ok e b"
  show "backend_ok e (be_set_identity (easytier_room_backend e) k b)
      \<and> active_role (be_set_identity (easytier_room_backend e) k b) = active_role b"
    using identity_keeps [OF ok] by (simp add: easytier_room_backend_def active_role_def)
  show "ensures (\<lambda>b'. backend_ok e b' \<and> active_role b' = active_role b)
      (\<lambda>room b'. backend_ok e b' \<and> active_role b' = Some RoleHost \<and> enters False room) (be_create (easytier_room_backend e) rc b)"
    unfolding easytier_room_backend_def room_backend.simps
    by (rule ensures_mono [OF backend_create_ensures [OF ok]]) (auto simp: active_role_def backend_ok_def intro: host_room_enters)
  show "ensures (\<lambda>b'. backend_ok e b' \<and> active_role b' = active_role b)
      (\<lambda>room b'. backend_ok e b' \<and> active_role b' = Some RoleMember \<and> enters True room) (be_join (easytier_room_backend e) rj b)"
    unfolding easytier_room_backend_def room_backend.simps
    by (rule ensures_mono [OF backend_join_ensures [OF ok]])
      (auto simp: active_role_def backend_ok_def member_ok_def intro: member_room_enters)
  show "backend_ok e (snd (be_set_lan_address (easytier_room_backend e) a b))
      \<and> active_role (snd (be_set_lan_address (easytier_room_backend e) a b)) = active_role b"
    using set_lan_fails [OF ok, of a] by (auto simp: easytier_room_backend_def active_role_def)
  show "ensures (\<lambda>_. False) (\<lambda>rf b'. backend_ok e b' \<and> active_role b' = active_role b
      \<and> (rf_network rf = None \<longleftrightarrow> active_role b = None)) (be_refresh (easytier_room_backend e) b)"
    unfolding easytier_room_backend_def room_backend.simps
    by (rule ensures_mono [OF refresh_ensures [OF ok]]) (auto simp: active_role_def)
  show "ensures (\<lambda>_. False) (\<lambda>_ b'. backend_ok e b' \<and> active_role b' = None) (be_leave (easytier_room_backend e) b)"
    using leave_clears [OF ok] by (simp add: easytier_room_backend_def backend_leave_def active_role_def)
qed

section \<open>The whole helper\<close>

text \<open>
  Between the requests of the launcher, the players' programs talk to the scaffolding server of a host,
  and other processes change the files.
\<close>

definition guest_traffic :: "backend_env \<Rightarrow> registry_op \<Rightarrow> backend_state \<Rightarrow> backend_state" where
  "guest_traffic e x s = (case bk_session s of
      Some (HostActive host) \<Rightarrow>
        s\<lparr>bk_session := Some (HostActive (host\<lparr>hs_context := registry_step (en_profiles e) x (hs_context host)\<rparr>))\<rparr>
    | _ \<Rightarrow> s)"

definition files_change :: "file_system \<Rightarrow> backend_state \<Rightarrow> backend_state" where
  "files_change fs s = s\<lparr>bk_world := (bk_world s)\<lparr>nw_files := fs\<rparr>\<rparr>"

datatype helper_event = ServiceCall service_op | GuestTraffic registry_op | FilesChange file_system

fun helper_step ::
    "backend_env \<Rightarrow> (string list \<Rightarrow> string list) \<Rightarrow> helper_event \<Rightarrow> backend_state room_service \<Rightarrow> backend_state room_service" where
  "helper_step e ko (ServiceCall x) s = service_step (easytier_room_backend e) ko x s"
| "helper_step e ko (GuestTraffic x) s = s\<lparr>svc_backend := guest_traffic e x (svc_backend s)\<rparr>"
| "helper_step e ko (FilesChange fs) s = s\<lparr>svc_backend := files_change fs (svc_backend s)\<rparr>"

definition quiet_world :: "file_system \<Rightarrow> net_world" where
  "quiet_world fs = \<lparr>nw_tick = 0, nw_listeners = [], nw_processes = [], nw_senders = [], nw_files = fs\<rparr>"

definition helper_run ::
    "backend_env \<Rightarrow> (string list \<Rightarrow> string list) \<Rightarrow> helper_event list \<Rightarrow> file_system \<Rightarrow> backend_state room_service" where
  "helper_run e ko evs fs = run_ops (helper_step e ko) evs (new_room_service (new_backend (quiet_world fs)))"

lemma registry_step_port: "ctx_port (registry_step pc x ctx) = ctx_port ctx"
  by (cases x) (simp_all add: answer_request_registry record_guest_def remove_stale_guests_def Let_def split: bool.split sum.split)

lemma traffic_keeps:
  assumes "backend_ok e s" shows "backend_ok e (guest_traffic e x s) \<and> active_role (guest_traffic e x s) = active_role s"
proof -
  have "host_ok e (host\<lparr>hs_context := registry_step (en_profiles e) x (hs_context host)\<rparr>)" if "host_ok e host" for host
    using that by (auto simp: host_ok_def host_listeners_def registry_step_port intro: registry_ok_step)
  with assms show ?thesis
    by (auto simp: guest_traffic_def backend_ok_def active_role_def host_holds_def host_holds_rest_def host_listeners_def
        split: option.split active_session.split)
qed

interpretation helper: invariant_machine "helper_step e ko" "easytier_backend.agrees e" for e ko
proof
  fix s :: "backend_state room_service" and x assume s: "easytier_backend.agrees e s"
  show "easytier_backend.agrees e (helper_step e ko x s)"
  proof (cases x)
    case (ServiceCall op)
    with s show ?thesis by (simp add: easytier_backend.agrees_step)
  next
    case (GuestTraffic r)
    with s traffic_keeps [of e "svc_backend s" r] show ?thesis by (simp add: easytier_backend.agrees_def)
  next
    case (FilesChange fs)
    with s show ?thesis by (simp add: easytier_backend.agrees_def files_change_def backend_ok_def active_role_def)
  qed
qed

lemma helper_agrees: "easytier_backend.agrees e (helper_run e ko evs fs)"
  unfolding helper_run_def
  by (intro helper.inv_run easytier_backend.agrees_new)
    (simp_all add: backend_ok_def new_backend_def quiet_world_def holds_def active_role_def)

lemma helper_backend_ok: "backend_ok e (svc_backend (helper_run e ko evs fs))"
  using helper_agrees by (simp add: easytier_backend.agrees_def)

section \<open>Polling loops\<close>

definition connects :: "backend_env \<Rightarrow> socket_addr \<Rightarrow> nat \<Rightarrow> bool" where
  "connects e a t = (case en_connect e t a of Some (Ok _) \<Rightarrow> True | _ \<Rightarrow> False)"

lemma wait_loop_step:
  "wait_for_tcp_loop e a (Suc n) w = (if connects e a (nw_tick w) then (Ok (), tick w) else wait_for_tcp_loop e a n (tick w))"
  by (simp add: connects_def split: option.split sum.split)

lemma wait_loop_Ok:
  "i < n \<Longrightarrow> connects e a (nw_tick w + i) \<Longrightarrow> (\<forall>j<i. \<not> connects e a (nw_tick w + j))
    \<Longrightarrow> wait_for_tcp_loop e a n w = (Ok (), w\<lparr>nw_tick := nw_tick w + Suc i\<rparr>)"
proof (induction n arbitrary: i w)
  case (Suc n)
  show ?case
  proof (cases i)
    case 0
    with Suc.prems show ?thesis by (simp add: wait_loop_step tick_def del: wait_for_tcp_loop.simps)
  next
    case (Suc k)
    have "\<not> connects e a (nw_tick w)" using Suc.prems(3) Suc by force
    moreover have "\<forall>j<k. \<not> connects e a (nw_tick (tick w) + j)" using Suc.prems(3) Suc by force
    ultimately show ?thesis using Suc.IH [of k "tick w"] Suc.prems Suc
      by (simp add: wait_loop_step tick_def del: wait_for_tcp_loop.simps)
  qed
qed simp

lemma wait_loop_Err:
  "(\<forall>i<n. \<not> connects e a (nw_tick w + i))
    \<Longrightarrow> wait_for_tcp_loop e a n w = (Err (peer_unreachable a), w\<lparr>nw_tick := nw_tick w + n\<rparr>)"
proof (induction n arbitrary: w)
  case (Suc n)
  have "\<not> connects e a (nw_tick w)" using Suc.prems by force
  moreover have "\<forall>i<n. \<not> connects e a (nw_tick (tick w) + i)" using Suc.prems by force
  ultimately show ?case using Suc.IH [of "tick w"] by (simp add: wait_loop_step tick_def del: wait_for_tcp_loop.simps)
qed simp

lemma local_loop_ticks:
  "nw_tick (snd (local_endpoint_loop e room n w)) \<le> nw_tick w + n"
proof (induction n arbitrary: w)
  case (Suc n)
  show ?case
    by (auto simp: on_files_def and_then_def split: prod.split sum.split option.split intro: order_trans [OF Suc.IH])
qed simp

section \<open>Refresh\<close>

lemma sample_network_ok:
  assumes "sample_network e node target d r w = (n, w')" shows "status_ok n"
proof -
  have "status_ok (m\<lparr>net_rtt := x, is_healthy := (x \<noteq> None)\<rparr>)" if "status_ok m" for m x
    using that by (auto simp: status_ok_def)
  with assms query_ok network_from_probe_ok(1) show ?thesis
    by (auto simp: sample_network_def Let_def split: option.splits if_splits)
qed

lemma host_members:
  assumes "registry_ok profile ctx"
  shows "\<exists>m ms. members_from_profiles (player_profiles ctx) rtt mode = m # ms \<and> member_id m = machine_id profile
    \<and> member_mode m = ModeDirect \<and> distinct (map member_id (m # ms))"
proof -
  obtain guests where g: "player_profiles ctx = profile # guests" by (rule player_profiles_host_first [OF assms])
  have "player_kind_of profile = Some KindHost" using assms by (simp add: registry_ok_def)
  then have "member_mode (member_of_profile rtt mode profile) = ModeDirect" by (simp add: member_of_profile_def)
  moreover have "members_from_profiles (player_profiles ctx) rtt mode
      = member_of_profile rtt mode profile # map (member_of_profile rtt mode) guests"
    by (simp add: members_from_profiles_def g)
  moreover have "distinct (map member_id (members_from_profiles (player_profiles ctx) rtt mode))"
    by (simp only: members_ids distinct_player_ids [OF assms])
  moreover have "member_id (member_of_profile rtt mode profile) = machine_id profile" by (simp add: member_of_profile_def)
  ultimately show ?thesis by metis
qed

section \<open>Properties\<close>

text \<open>C5: After any sequence of requests of the launcher, with any traffic of players, any change of files by
  other processes and any behaviour of the system and of the peers, the state that the room service
  reports and the network session agree: a session runs exactly when the room is connected or
  reconnecting, it has the role that the snapshot shows, and between requests the room is idle, connected,
  reconnecting or faulted.\<close>

theorem service_mirrors_backend:
  "let s = helper_run e ko evs fs; st = svc_state s in
     active_role (svc_backend s) = (if room_st st = Connected \<or> room_st st = Reconnecting then Some (role st) else None)
     \<and> room_st st \<in> {Idle, Connected, Reconnecting, Faulted}"
  using helper_agrees [of e ko evs fs] by (simp add: easytier_backend.agrees_def Let_def)


text \<open>C22: The session is well formed in every reachable state: a host's room code is canonical, its two ingresses listen
  on the mesh address and on the ports derived from that code and lead to its own scaffolding server and to
  the game, both on loopback, and the scaffolding server announces the game's port; a member's two local endpoints
  are loopback endpoints with a port.\<close>

theorem session_well_formed:
  "case bk_session (svc_backend (helper_run e ko evs fs)) of
     None \<Rightarrow> True
   | Some (HostActive host) \<Rightarrow>
       (let c = cred_room_code (hs_credentials host); mesh = mesh_from_room_code (en_sha256 e) c in
          normalize_room_code c = Ok c
          \<and> pf_local_addr (hs_scaffolding_ingress host) = mesh_ingress_bind_scaffolding mesh
          \<and> pf_local_addr (hs_minecraft_ingress host) = mesh_ingress_bind_minecraft mesh
          \<and> pf_target (hs_scaffolding_ingress host) = hs_scaffolding_addr host
          \<and> pf_target (hs_minecraft_ingress host) = hs_minecraft host
          \<and> loopback_endpoint (hs_scaffolding_addr host) \<and> loopback_endpoint (hs_minecraft host)
          \<and> ctx_port (hs_context host) = addr_port (hs_minecraft host))
   | Some (MemberActive m) \<Rightarrow> loopback_endpoint (ms_local_minecraft m) \<and> loopback_endpoint (ms_local_scaffolding m)"
  using helper_backend_ok [of e ko evs fs]
  by (auto simp: backend_ok_def Let_def host_ok_def member_ok_def split: option.split active_session.split)

text \<open>C39: A refresh never fails and never contradicts itself. In every reachable state its network status
  names a relay exactly for a relayed connection and is healthy only with a round-trip time or a known mode; a host's list of
  members starts with the host itself, with a direct connection, and names nobody twice; a member's local address is the
  one of its session; without a session nothing is reported.\<close>

theorem refresh_consistent:
  "case refresh_backend e (svc_backend (helper_run e ko evs fs)) of
     (Err _, _) \<Rightarrow> False
   | (Ok rf, b') \<Rightarrow>
       (case bk_session b' of
          None \<Rightarrow> rf = backend_refresh_default
        | Some (HostActive host) \<Rightarrow> (\<exists>n m ms. rf_network rf = Some n \<and> status_ok n \<and> rf_members rf = Some (m # ms)
            \<and> member_id m = host_machine_id (hs_context host) \<and> member_mode m = ModeDirect \<and> distinct (map member_id (m # ms)))
        | Some (MemberActive m) \<Rightarrow> (\<exists>n. rf_network rf = Some n \<and> status_ok n)
            \<and> rf_local_address rf = Some (addr_to_string (ms_local_minecraft m)))"
proof -
  let ?s = "svc_backend (helper_run e ko evs fs)"
  have ok: "session_ok e (bk_session ?s) (bk_world ?s)" using helper_backend_ok [of e ko evs fs] by (simp add: backend_ok_def)
  show ?thesis
  proof (cases "bk_session ?s")
    case None
    then show ?thesis by (simp add: refresh_backend_def)
  next
    case (Some active)
    show ?thesis
    proof (cases active)
      case (HostActive host)
      obtain profile where "registry_ok profile (hs_context host)" using ok Some HostActive by (auto simp: host_ok_def)
      from host_members [OF this] this Some HostActive show ?thesis
        by (auto simp: refresh_backend_def registry_ok_def split: prod.split dest: sample_network_ok)
    next
      case (MemberActive m)
      with Some show ?thesis by (auto simp: refresh_backend_def split: prod.split dest: sample_network_ok)
    qed
  qed
qed

text \<open>Both polling loops of \<open>join\<close> end. \<open>wait_for_tcp\<close> makes at most forty attempts: it succeeds with
  the first one that connects and makes no further one, and it reports the peer unreachable exactly when all
  forty failed. The search for a local host reads the files at most eight times.\<close>

theorem join_loops_end:
  "wait_for_tcp e a w =
     (if \<exists>i<40. connects e a (nw_tick w + i)
      then (Ok (), w\<lparr>nw_tick := nw_tick w + Suc (LEAST i. connects e a (nw_tick w + i))\<rparr>)
      else (Err (peer_unreachable a), w\<lparr>nw_tick := nw_tick w + 40\<rparr>))
   \<and> nw_tick (snd (try_local_endpoint e room w)) \<le> nw_tick w + 8"
proof -
  let ?P = "\<lambda>i. connects e a (nw_tick w + i)"
  have "wait_for_tcp e a w = (Ok (), w\<lparr>nw_tick := nw_tick w + Suc (LEAST i. ?P i)\<rparr>)" if i: "i < 40" "?P i" for i
    unfolding wait_for_tcp_def MESH_PROBE_ATTEMPTS_def
  proof (rule wait_loop_Ok)
    show "(LEAST i. ?P i) < 40" using Least_le [of ?P, OF i(2)] i(1) by (rule le_less_trans)
    show "?P (LEAST i. ?P i)" by (rule LeastI [of ?P, OF i(2)])
    show "\<forall>j<(LEAST i. ?P i). \<not> ?P j" using not_less_Least [of _ ?P] by blast
  qed
  moreover have "wait_for_tcp e a w = (Err (peer_unreachable a), w\<lparr>nw_tick := nw_tick w + 40\<rparr>)" if "\<not> (\<exists>i<40. ?P i)"
    unfolding wait_for_tcp_def MESH_PROBE_ATTEMPTS_def by (rule wait_loop_Err) (use that in blast)
  moreover have "nw_tick (snd (try_local_endpoint e room w)) \<le> nw_tick w + 8"
    unfolding try_local_endpoint_def LOCAL_DISCOVERY_ATTEMPTS_def by (rule local_loop_ticks)
  ultimately show ?thesis by auto
qed

end
