(* ===== verification/Backend_Live.thy ===== *)
theory Backend_Live
  imports Backend_System
begin

text \<open>
  Hosting works when nothing fails: the conditions on the system under which a room is created, and that a
  member on the same machine then finds it.
\<close>

section \<open>A system without failures\<close>

text \<open>
  The port that the system gives to the scaffolding server must lie outside the two ranges of the mesh
  ports: the mesh ingresses listen on every address of the machine, so they would collide with it.
\<close>

definition mesh_port_range :: "nat set" where
  "mesh_port_range = {41000..<50000} \<union> {51000..<60000}"

definition working_env :: "backend_env \<Rightarrow> bool" where
  "working_env e \<longleftrightarrow> resolve_easytier_binary (en_program e) \<noteq> None
    \<and> (\<forall>t. (\<forall>cmd. en_spawn_fault e t cmd = None) \<and> en_early_exit e t = None \<and> en_bind_fault e t = None \<and> en_addr_fault e t = None
        \<and> en_faults e t = no_faults \<and> en_free_port e t \<noteq> 0 \<and> unat (en_free_port e t) \<notin> mesh_port_range
        \<and> (\<exists>r. en_urandom e t = Ok r \<and> 12 \<le> length (rx r)))
    \<and> (\<forall>bs. length (en_sha256 e bs) = 32) \<and> (\<forall>a. \<exists>body. de_to_vec (en_discovery e) a = Ok body)"

lemma launch_live:
  assumes "working_env e" "lc_binary config = binary" "resolve_easytier_binary (en_program e) = Some binary"
  shows "ensures (\<lambda>_. False) (\<lambda>_ w'. nw_listeners w' = nw_listeners w) (launch e credentials config w)"
  using assms resolve_is_file [OF assms(3)]
  by (simp add: launch_def start_easytier_def working_env_def spawn_process_def)

lemma forward_on_live:
  assumes "working_env e" "addr_port bind \<noteq> 0" "\<not> in_use bind w"
  shows "ensures (\<lambda>_. False) (\<lambda>f w'. nw_listeners w' = nw_listeners w @ [(pf_listener f, bind)]) (forward_on e bind target w)"
  using assms by (simp add: forward_on_def forward_start_on_def tcp_bind_def Let_def working_env_def bound_addr_def and_then_simps)

lemma control_visible: "list_all (\<lambda>c. 33 \<le> code c \<and> code c < 127) s \<Longrightarrow> \<not> has_control s"
proof -
  assume s: "list_all (\<lambda>c. 33 \<le> code c \<and> code c < 127) s"
  then have "chars s = map (\<lambda>c. [c]) s" by (intro chars_ascii) (auto simp: list_all_iff)
  with s show ?thesis by (auto simp: has_control_def is_control_def list_all_iff list_ex_iff Let_def)
qed

lemma hex_valid:
  assumes "bs \<noteq> []" "length bs \<le> 64" shows "valid_text (hex_encode bs) 128"
proof -
  have "list_all (\<lambda>c. 33 \<le> code c \<and> code c < 127) (hex_encode bs)"
    using hex_encode_lower [of bs] by (auto simp: list_all_iff is_lower_hex_def is_ascii_digit_def)
  moreover have "hex_encode bs \<noteq> []" using assms(1) length_hex_encode [of bs] by (cases "hex_encode bs") auto
  ultimately show ?thesis using assms(2) by (simp add: valid_text_def trim_visible control_visible)
qed

lemma host_profile_valid:
  assumes "working_env e" shows "profile_validate (host_profile e identity)"
proof -
  have "length (en_sha256 e identity) = 32" using assms by (simp add: working_env_def)
  then have "take 16 (en_sha256 e identity) \<noteq> []" by auto
  then have "valid_text (hex_encode (take 16 (en_sha256 e identity))) 128" by (rule hex_valid) simp
  then show ?thesis
    by (simp add: profile_validate_def host_profile_def machine_id_from_identity_def)
      (simp add: valid_text_def str_eval)
qed

lemma open_scaffolding_live:
  assumes "working_env e" "port \<noteq> 0" "nw_listeners w = []"
  shows "ensures (\<lambda>_. False) (\<lambda>server w'. nw_listeners w' = [(srv_listener server, srv_local_addr server)]
      \<and> (\<exists>p. srv_local_addr server = SocketV4 127 0 0 1 p \<and> unat p \<notin> mesh_port_range)) (open_scaffolding e verb identity port w)"
  using assms host_profile_valid [OF assms(1)]
  by (simp add: open_scaffolding_def new_server_context_def Let_def server_bind_def tcp_bind_def working_env_def in_use_def
      err_map_def and_then_simps server_local_addr_def local_loopback_def bound_addr_def)

lemma publish_total:
  assumes "compact_ok (compact_room_code (adv_room_code a))" "de_to_vec env a = Ok body"
  shows "ensures (\<lambda>_. False) (\<lambda>_ _. True) (publish_local_endpoint env no_faults a fs)"
  using assms
  by (simp add: publish_local_endpoint_def advertisement_path_def compact_ok_def Let_def sc_simps create_dir_all_def fault_result_def no_faults_def
      restrict_directory_def restrict_file_def restrict_mode_def set_permissions_def fs_write_def split: option.split)

section \<open>Hosting succeeds\<close>

lemma host_publish_live:
  assumes "working_env e" "compact_ok (compact_room_code (cred_room_code c))"
  shows "ensures (\<lambda>_. False) (\<lambda>_ _. True) (host_publish e c minecraft d r node server si mi w)"
proof -
  let ?a = "\<lparr>adv_room_code = cred_room_code c, adv_scaffolding = addr_to_string (srv_local_addr server),
    adv_minecraft = addr_to_string minecraft, published_unix_seconds = now_unix_seconds (en_clock e (nw_tick w))\<rparr>"
  obtain body where "de_to_vec (en_discovery e) ?a = Ok body" using assms(1) unfolding working_env_def by metis
  with assms publish_total [of ?a "en_discovery e" body "nw_files w"]
  have "ensures (\<lambda>_. False) (\<lambda>_ _. True) (advertise e (cred_room_code c) (srv_local_addr server) minecraft w)"
    unfolding advertise_def on_files_def
    by (auto simp: working_env_def ensures_def split: prod.splits sum.splits)
  then show ?thesis unfolding host_publish_def by (rule ensures_case) auto
qed

lemma mesh_ports_split:
  "unat (scaffolding_port (mesh_from_room_code sha c)) \<in> mesh_port_range"
  "unat (minecraft_port (mesh_from_room_code sha c)) \<in> mesh_port_range"
  "scaffolding_port (mesh_from_room_code sha c) \<noteq> minecraft_port (mesh_from_room_code sha c)"
proof -
  obtain a b where "a < 9000" "b < 9000" "unat (scaffolding_port (mesh_from_room_code sha c)) = 41000 + a"
    "unat (minecraft_port (mesh_from_room_code sha c)) = 51000 + b"
    by (rule mesh_ports) blast
  then show "unat (scaffolding_port (mesh_from_room_code sha c)) \<in> mesh_port_range"
    "unat (minecraft_port (mesh_from_room_code sha c)) \<in> mesh_port_range"
    "scaffolding_port (mesh_from_room_code sha c) \<noteq> minecraft_port (mesh_from_room_code sha c)"
    by (auto simp: mesh_port_range_def)
qed

lemma host_ingress_live:
  assumes "working_env e" "compact_ok (compact_room_code (cred_room_code c))"
    "nw_listeners w = [(i, SocketV4 127 0 0 1 p)]" "unat p \<notin> mesh_port_range"
  shows "ensures (\<lambda>_. False) (\<lambda>_ _. True) (host_ingress e c minecraft d r node server w)"
  unfolding host_ingress_def Let_def
proof (rule ensures_case [OF forward_on_live [OF assms(1)]])
  let ?m = "mesh_from_room_code (en_sha256 e) (cred_room_code c)"
  note free = mesh_ports_split [of "en_sha256 e" "cred_room_code c"] assms(4)
  show "addr_port (mesh_ingress_bind_scaffolding ?m) \<noteq> 0" by (rule mesh_ports_nonzero)
  show "\<not> in_use (mesh_ingress_bind_scaffolding ?m) w"
    using free by (auto simp: assms(3) in_use_def mesh_ingress_bind_scaffolding_def)
  fix si :: port_forward and w1 :: net_world assume "nw_listeners w1 = nw_listeners w @ [(pf_listener si, mesh_ingress_bind_scaffolding ?m)]"
  then have "\<not> in_use (mesh_ingress_bind_minecraft ?m) w1"
    using free by (auto simp: assms(3) in_use_def mesh_ingress_bind_scaffolding_def mesh_ingress_bind_minecraft_def)
  note second = forward_on_live [OF assms(1) mesh_ports_nonzero(2) this]
  show "ensures (\<lambda>_. False) (\<lambda>_ _. True) (case forward_on e (mesh_ingress_bind_minecraft ?m) minecraft w1 of
      (Err err, w) \<Rightarrow> (Err (ingress_failed ''bind'' ''Minecraft'' err), halt e node (close_listener (srv_listener server) (forward_stop si w)))
    | (Ok mi, w) \<Rightarrow> host_publish e c minecraft d r node server si mi w)"
    by (rule ensures_case [OF second]) (auto intro: host_publish_live [OF assms(1,2)])
qed auto

lemma generate_live:
  assumes "working_env e"
  obtains c where "generate (en_sha256 e) (en_hmac e) (en_urandom e t) = Ok c" "compact_ok (compact_room_code (cred_room_code c))"
proof -
  obtain r where "en_urandom e t = Ok r" "12 \<le> length (rx r)" using assms unfolding working_env_def by metis
  from generate_total [OF this] obtain c where c: "generate (en_sha256 e) (en_hmac e) (en_urandom e t) = Ok c" by blast
  from generate_normal [OF this] have "compact_ok (compact_room_code (cred_room_code c))"
    by (simp add: normalize_room_code_alt split: if_splits)
  with c that show ?thesis by blast
qed

lemma start_host_live:
  assumes "working_env e" "resolve_easytier_binary (en_program e) = Some binary" "loopback_endpoint minecraft" "nw_listeners w = []"
  shows "ensures (\<lambda>_. False) (\<lambda>_ _. True) (start_host e identity binary minecraft d r w)"
proof -
  obtain c where c: "generate (en_sha256 e) (en_hmac e) (en_urandom e (nw_tick w)) = Ok c"
    "compact_ok (compact_room_code (cred_room_code c))" by (rule generate_live [OF assms(1)])
  have port: "addr_port minecraft \<noteq> 0" using assms(3) by (simp add: loopback_endpoint_def)
  have "ensures (\<lambda>_. False) (\<lambda>_ _. True) (host_services e identity c minecraft d r node w')" if "nw_listeners w' = []" for node w'
    unfolding host_services_def
    by (rule ensures_case [OF open_scaffolding_live [OF assms(1) port that]]) (auto intro: host_ingress_live [OF assms(1) c(2)])
  then show ?thesis unfolding start_host_def c(1) and_then_simps
    by (intro ensures_and_then [OF launch_live [OF assms(1) _ assms(2)]]) (simp_all add: assms(4))
qed

lemma ensures_conj:
  "ensures Q R x \<Longrightarrow> ensures Q' R' x \<Longrightarrow> ensures (\<lambda>s. Q s \<and> Q' s) (\<lambda>v s. R v s \<and> R' v s) x"
  by (auto simp: ensures_def split: prod.splits sum.splits)

lemma ensures_Ok: "ensures (\<lambda>_. False) R x \<longleftrightarrow> (\<exists>v s. x = (Ok v, s) \<and> R v s)"
  by (auto simp: ensures_def split: prod.splits sum.splits)

lemma on_world_live:
  "ensures (\<lambda>_. False) R (f (bk_world s)) \<Longrightarrow> ensures (\<lambda>_. False) (\<lambda>v s'. R v (bk_world s')) (on_world f s)"
  by (auto simp: on_world_def ensures_def split: prod.splits sum.splits)

lemma guards_live:
  assumes "bk_session s = None" "bk_identity s = Some identity" "resolve_easytier_binary (en_program e) = Some binary"
  shows "and_then (ensure_idle s, s) (\<lambda>_ s. and_then (require_identity s, s) (\<lambda>identity s.
      and_then (ok_or easytier_missing (resolve_easytier_binary (en_program e)), s) (\<lambda>binary s. f identity binary s)))
    = f identity binary s"
  using assms by (simp add: ensure_idle_def require_identity_def and_then_simps ok_or_def)

lemma working_binary:
  assumes "working_env e" obtains binary where "resolve_easytier_binary (en_program e) = Some binary"
  using assms unfolding working_env_def by auto

lemma create_live:
  assumes "working_env e" "bk_session s = None" "bk_identity s \<noteq> None" "nw_listeners (bk_world s) = []"
    "parse_socket_addr (create_lan_address request) = Some minecraft" "loopback_endpoint minecraft"
  shows "ensures (\<lambda>_. False) (\<lambda>_ _. True) (backend_create e request s)"
proof -
  obtain binary where b: "resolve_easytier_binary (en_program e) = Some binary" by (rule working_binary [OF assms(1)])
  obtain identity where i: "bk_identity s = Some identity" using assms(3) by auto
  have m: "\<not> (\<not> is_loopback minecraft \<or> addr_port minecraft = 0)" using assms(6) by (simp add: loopback_endpoint_def)
  have start: "ensures (\<lambda>_. False) (\<lambda>_ _. True) (on_world (start_host e identity binary minecraft d r) s)" for d r
    by (rule on_world_live) (rule start_host_live [OF assms(1) b assms(6,4)])
  have "ensures (\<lambda>_. False) (\<lambda>_ _. True) (host_room e request identity binary s)"
    unfolding host_room_def assms(5) ok_or_def option.case and_then_simps if_not_P [OF m]
    by (rule ensures_and_then [OF start]) simp
  then show ?thesis unfolding backend_create_def guards_live [OF assms(2) i b] .
qed

text \<open>What the room service makes of an answer of the backend that passes its validation.\<close>

lemma enter_room_Ok:
  assumes "enters req room"
  shows "\<exists>snapshot s'. enter_room r req sid (Ok room) s = (Ok snapshot, s') \<and> svc_state s' = snapshot
    \<and> svc_backend s' = svc_backend s \<and> room_st snapshot = Connected \<and> role snapshot = r
    \<and> room_code snapshot = Some (br_room_code room) \<and> local_address snapshot = br_local_address room"
  using assms
  by (auto simp: enters_def enter_room_def Let_def connected_snapshot_def publish_def replace_known_members_def)

lemma idle_helper:
  assumes "room_st (svc_state (helper_run e ko evs fs)) = Idle"
  shows "bk_session (svc_backend (helper_run e ko evs fs)) = None"
    "nw_listeners (bk_world (svc_backend (helper_run e ko evs fs))) = []"
proof -
  have a: "easytier_backend.agrees e (helper_run e ko evs fs)" by (rule helper_agrees)
  with assms show s: "bk_session (svc_backend (helper_run e ko evs fs)) = None"
    by (simp add: easytier_backend.agrees_def active_role_def)
  with a show "nw_listeners (bk_world (svc_backend (helper_run e ko evs fs))) = []"
    by (simp add: easytier_backend.agrees_def backend_ok_def holds_def)
qed

lemma host_goes_live:
  assumes env: "working_env e" and s: "s = helper_run e ko evs fs" "room_st (svc_state s) = Idle" "bk_identity (svc_backend s) \<noteq> None"
    and request: "validate_session_id (create_session_id request) = Ok sid"
      "validate_loopback_address (create_lan_address request) = Ok address"
  shows "\<exists>snapshot s' host. create (easytier_room_backend e) request s = (Ok snapshot, s') \<and> svc_state s' = snapshot
    \<and> room_st snapshot = Connected \<and> role snapshot = RoleHost
    \<and> bk_session (svc_backend s') = Some (HostActive host) \<and> host_holds host (bk_world (svc_backend s')) \<and> hs_minecraft host = address"
proof -
  let ?rq = "request\<lparr>create_session_id := sid, create_lan_address := addr_to_string address\<rparr>"
  let ?s = "s\<lparr>svc_state := pending_snapshot Creating RoleHost (Some sid)\<rparr>"
  have loop: "loopback_endpoint address" using request(2) by (simp add: service_addresses.validate_Ok_iff)
  then have parse: "parse_socket_addr (create_lan_address ?rq) = Some address"
    using service_addresses.validate_printed [OF loop] by (simp add: service_addresses.validate_Ok_iff del: addr_to_string.simps)
  have ok: "backend_ok e (svc_backend s)" by (simp add: s(1) helper_backend_ok)
  have "ensures (\<lambda>_. False) (\<lambda>_ _. True) (backend_create e ?rq (svc_backend s))"
    by (rule create_live [OF env _ s(3) _ parse loop]) (use idle_helper s in auto)
  from ensures_conj [OF this backend_create_ensures [OF ok, of ?rq]]
  obtain room b host where create: "backend_create e ?rq (svc_backend s) = (Ok room, b)"
    and host: "bk_session b = Some (HostActive host)" "backend_ok e b" "host_holds host (bk_world b)" "hs_minecraft host = address"
      "br_room_code room = cred_room_code (hs_credentials host)" "br_local_address room = None"
    using parse by (auto simp: ensures_Ok simp del: addr_to_string.simps)
  have "enters False room" using host by (auto simp: backend_ok_def intro: host_room_enters)
  from enter_room_Ok [OF this, of RoleHost "Some sid" "?s\<lparr>svc_backend := b\<rparr>"] create host s(2) request
  show ?thesis by (auto simp: create_def Let_def easytier_room_backend_def simp del: addr_to_string.simps)
qed

section \<open>A member on the same machine\<close>

text \<open>The files hold the advertisement of a host, published at some time.\<close>

definition host_advertisement :: "backend_env \<Rightarrow> host_session \<Rightarrow> nat \<Rightarrow> room_endpoint_advertisement" where
  "host_advertisement e host t =
    \<lparr>adv_room_code = cred_room_code (hs_credentials host), adv_scaffolding = addr_to_string (hs_scaffolding_addr host),
     adv_minecraft = addr_to_string (hs_minecraft host), published_unix_seconds = now_unix_seconds (en_clock e t)\<rparr>"

definition advertised :: "backend_env \<Rightarrow> host_session \<Rightarrow> file_system \<Rightarrow> bool" where
  "advertised e host files \<longleftrightarrow> (\<exists>t ff fs path.
     publish_local_endpoint (en_discovery e) ff (host_advertisement e host t) fs = (Ok path, files))"

lemma ensures_any: "ensures (\<lambda>_. True) (\<lambda>_ _. True) x"
  by (auto simp: ensures_def split: prod.splits sum.splits)

lemma host_publish_advertises:
  "ensures (\<lambda>_. True) (\<lambda>host w'. advertised e host (nw_files w')) (host_publish e c minecraft d r node server si mi w)"
  unfolding host_publish_def advertise_def on_files_def advertised_def host_advertisement_def
  by (auto simp: ensures_def split: prod.splits sum.splits)

lemma host_services_advertise:
  "ensures (\<lambda>_. True) (\<lambda>host w'. advertised e host (nw_files w')) (host_services e identity c minecraft d r node w)"
  unfolding host_services_def host_ingress_def Let_def
  by (intro ensures_case [OF ensures_any]) (auto intro: host_publish_advertises)

lemma create_advertises:
  "ensures (\<lambda>_. True) (\<lambda>_ s'. \<exists>host. bk_session s' = Some (HostActive host) \<and> advertised e host (nw_files (bk_world s')))
    (backend_create e request s)"
proof -
  have start: "ensures (\<lambda>_. True) (\<lambda>host w'. advertised e host (nw_files w')) (start_host e identity binary minecraft d r w)"
    for identity binary minecraft d r w
    unfolding start_host_def by (intro ensures_and_then [OF ensures_any] host_services_advertise)
  have "ensures (\<lambda>_. True) (\<lambda>host s'. advertised e host (nw_files (bk_world s'))) (on_world (start_host e identity binary minecraft d r) s)"
    for identity binary minecraft d r s
    using start [of identity binary minecraft d r "bk_world s"]
    by (auto simp: on_world_def ensures_def split: prod.splits sum.splits)
  note started = ensures_and_then [OF this]
  show ?thesis unfolding backend_create_def host_room_def
    by (intro ensures_and_then [OF ensures_any]) (auto intro!: started)
qed

lemma local_loop_found:
  assumes "\<And>ff clock. ff = no_faults \<Longrightarrow> clock = en_clock e (nw_tick w) \<Longrightarrow> load_local_endpoint (en_discovery e) ff clock room (nw_files w) = (Ok (Some a), nw_files w)"
    "en_faults e (nw_tick w) = no_faults"
  shows "try_local_endpoint e room w = (Ok (Some a), tick w)"
  using assms by (simp add: try_local_endpoint_def LOCAL_DISCOVERY_ATTEMPTS_def eval_nat_numeral on_files_def and_then_simps)

text \<open>The system never gives the same free port twice in a row.\<close>

definition ports_vary :: "backend_env \<Rightarrow> bool" where
  "ports_vary e \<longleftrightarrow> (\<forall>t. en_free_port e (Suc t) \<noteq> en_free_port e t)"

lemma forward_loopback_live:
  assumes "working_env e" "\<not> in_use (SocketV4 127 0 0 1 (en_free_port e (nw_tick w))) w"
  shows "ensures (\<lambda>_. False) (\<lambda>f w'. pf_target f = target \<and> nw_tick w' = Suc (nw_tick w)
      \<and> pf_local_addr f = SocketV4 127 0 0 1 (en_free_port e (nw_tick w))
      \<and> nw_listeners w' = nw_listeners w @ [(pf_listener f, pf_local_addr f)]) (forward_on e local_loopback target w)"
  using assms by (simp add: forward_on_def forward_start_on_def tcp_bind_def Let_def working_env_def and_then_simps)

definition leads_to :: "socket_addr \<Rightarrow> socket_addr \<Rightarrow> backend_room \<times> member_session \<Rightarrow> bool" where
  "leads_to scaffolding minecraft x \<longleftrightarrow> (\<exists>f g. ms_minecraft_forward (snd x) = Some f \<and> pf_target f = minecraft
     \<and> br_local_address (fst x) = Some (addr_to_string (pf_local_addr f))
     \<and> ms_scaffolding_forward (snd x) = Some g \<and> pf_target g = scaffolding)"

lemma local_member_session_live:
  assumes "pf_target f = minecraft" "pf_target g = scaffolding"
  shows "ensures (\<lambda>_. False) (\<lambda>x _. leads_to scaffolding minecraft x) (local_member_session e identity c node g f w)"
proof -
  obtain ms rtt mode w1 where 1: "collect_member_snapshot e (pf_local_addr g) (guest_profile e identity) w = ((ms, rtt, mode), w1)"
    by (metis prod.exhaust)
  obtain b w2 where 2: "start_broadcast e (pf_local_addr f) w1 = (b, w2)" by (rule prod.exhaust)
  from 1 2 assms show ?thesis by (simp add: local_member_session_def leads_to_def local_member_room_def)
qed

lemma join_local_live:
  assumes env: "working_env e" "ports_vary e" "resolve_easytier_binary (en_program e) = Some binary"
    and w: "nw_listeners w = []" and a: "scaffolding_addr a = Ok scaffolding" "minecraft_addr a = Ok minecraft"
  shows "ensures (\<lambda>_. False) (\<lambda>x _. leads_to scaffolding minecraft x) (join_via_local_discovery e identity c binary a w)"
  unfolding join_via_local_discovery_def
proof (rule ensures_and_then [OF launch_live [OF env(1) _ env(3)]])
  fix node :: easytier_node and w1 :: net_world assume "nw_listeners w1 = nw_listeners w"
  with w have w1: "nw_listeners w1 = []" by simp
  show "ensures (\<lambda>_. False) (\<lambda>x _. leads_to scaffolding minecraft x) (local_member_services e identity c a node w1)"
    unfolding local_member_services_def a sum.case
  proof (rule ensures_case [OF forward_loopback_live [OF env(1)]])
    fix g :: port_forward and w2 :: net_world
    assume g: "pf_target g = scaffolding \<and> nw_tick w2 = Suc (nw_tick w1)
      \<and> pf_local_addr g = SocketV4 127 0 0 1 (en_free_port e (nw_tick w1))
      \<and> nw_listeners w2 = nw_listeners w1 @ [(pf_listener g, pf_local_addr g)]"
    have free: "\<not> in_use (SocketV4 127 0 0 1 (en_free_port e (nw_tick w2))) w2"
      using g w1 env(2) by (simp add: in_use_def ports_vary_def)
    show "ensures (\<lambda>_. False) (\<lambda>x _. leads_to scaffolding minecraft x) (case forward_on e local_loopback minecraft w2 of
        (Err err, w) \<Rightarrow> (Err (forward_failed ''Minecraft'' err), halt e node (forward_stop g w))
      | (Ok f, w) \<Rightarrow> local_member_session e identity c node g f w)"
      by (rule ensures_case [OF forward_loopback_live [OF env(1) free]]) (use g in \<open>auto intro: local_member_session_live\<close>)
  qed (simp_all add: in_use_def w1)
qed (simp add: member_config_def)

lemma join_live:
  assumes env: "working_env e" "ports_vary e"
    and s: "bk_session s = None" "bk_identity s \<noteq> None" "nw_listeners (bk_world s) = []"
    and c: "normalize_room_code (join_room_code request) = Ok room"
    and found: "try_local_endpoint e room (bk_world s) = (Ok (Some a), tick (bk_world s))"
    and a: "scaffolding_addr a = Ok scaffolding" "minecraft_addr a = Ok minecraft"
  shows "ensures (\<lambda>_. False) (\<lambda>r s'. \<exists>m. bk_session s' = Some (MemberActive m) \<and> leads_to scaffolding minecraft (r, m))
    (backend_join e request s)"
proof -
  obtain binary where b: "resolve_easytier_binary (en_program e) = Some binary" by (rule working_binary [OF env(1)])
  obtain identity where i: "bk_identity s = Some identity" using s(2) by auto
  obtain cr where cr: "from_room_code (en_sha256 e) (en_hmac e) (join_room_code request) = Ok cr" "cred_room_code cr = room"
    using c by (auto simp: from_room_code_def res_simps Let_def)
  have "ensures (\<lambda>_. False) (\<lambda>x _. leads_to scaffolding minecraft x) (start_member e identity binary (join_room_code request) (bk_world s))"
    by (simp add: start_member_def cr and_then_simps found join_local_live [OF env b _ a] s(3))
  then have "ensures (\<lambda>_. False) (\<lambda>x _. leads_to scaffolding minecraft x)
      (on_world (start_member e identity binary (join_room_code request)) s)"
    by (rule on_world_live)
  then show ?thesis unfolding backend_join_def guards_live [OF s(1) i b]
    by (rule ensures_and_then) auto
qed

lemma advertised_found:
  assumes host: "host_ok e host" "advertised e host files"
    and codec: "\<And>a body. de_to_vec (en_discovery e) a = Ok body \<Longrightarrow> de_from_slice (en_discovery e) body = Ok a"
    and clock: "\<And>t. 0 \<le> en_clock e t \<and> en_clock e t \<le> clock \<and> clock < 2 ^ 63 \<and> clock - en_clock e t \<le> 6 * 60 * 60 * 1000000000"
  obtains a where "load_local_endpoint (en_discovery e) no_faults clock (cred_room_code (hs_credentials host)) files = (Ok (Some a), files)"
    "scaffolding_addr a = Ok (hs_scaffolding_addr host)" "minecraft_addr a = Ok (hs_minecraft host)"
proof -
  obtain t ff fs path where p: "publish_local_endpoint (en_discovery e) ff (host_advertisement e host t) fs = (Ok path, files)"
    using host(2) by (auto simp: advertised_def)
  have loop: "loopback_endpoint (hs_scaffolding_addr host)" "loopback_endpoint (hs_minecraft host)"
    using host(1) by (simp_all add: host_ok_def)
  have "load_local_endpoint (en_discovery e) no_faults clock (cred_room_code (hs_credentials host)) files
      = (Ok (Some (host_advertisement e host t)), files)"
    using published_found [OF p codec _ _ loop, of "en_clock e t" clock "cred_room_code (hs_credentials host)" no_faults] clock [of t]
    by (simp add: host_advertisement_def no_faults_def del: addr_to_string.simps)
  with that loop show ?thesis
    by (simp add: scaffolding_addr_def minecraft_addr_def host_advertisement_def discovery_addresses.validate_printed
        del: addr_to_string.simps)
qed

lemma created_host:
  assumes "create (easytier_room_backend e) request (helper_run e ko evs fs) = (Ok snapshot, s')"
  obtains host where "bk_session (svc_backend s') = Some (HostActive host)" "host_ok e host"
    "advertised e host (nw_files (bk_world (svc_backend s')))" "room_code snapshot = Some (cred_room_code (hs_credentials host))"
proof (cases rule: create_cases [of "easytier_room_backend e" request "helper_run e ko evs fs"])
  case (called sid address answer b)
  let ?rq = "request\<lparr>create_session_id := sid, create_lan_address := addr_to_string address\<rparr>"
  note c = called(4) [unfolded easytier_room_backend_def room_backend.simps]
  have ok: "backend_ok e (svc_backend (helper_run e ko evs fs))" by (rule helper_backend_ok)
  note both = ensures_conj [OF backend_create_ensures [OF ok, of ?rq] create_advertises]
  show ?thesis
  proof (cases answer)
    case (Inr room)
    with both c obtain host where host: "bk_session b = Some (HostActive host)" "backend_ok e b" "br_local_address room = None"
      "br_room_code room = cred_room_code (hs_credentials host)" "advertised e host (nw_files (bk_world b))" by auto
    then have "enters False room" by (auto simp: backend_ok_def intro: host_room_enters)
    from enter_room_Ok [OF this, of RoleHost "Some sid"
        "(helper_run e ko evs fs)\<lparr>svc_state := pending_snapshot Creating RoleHost (Some sid), svc_backend := b\<rparr>"]
    have "svc_backend s' = b" "room_code snapshot = Some (br_room_code room)" using Inr called(5) assms by auto
    with host show ?thesis by (intro that) (auto simp: backend_ok_def)
  qed (use called(5) assms in \<open>simp add: enter_room_def\<close>)
qed (use assms in simp)

lemma easytier_simps:
  "be_set_lan_address (easytier_room_backend e) = backend_set_lan_address e"
  "be_leave (easytier_room_backend e) b = (Ok (), stop_session_locked e b)"
  by (simp_all add: easytier_room_backend_def backend_leave_def)

lemma helper_run_snoc: "helper_run e ko (evs @ [x]) fs = helper_step e ko x (helper_run e ko evs fs)"
  by (simp add: helper_run_def run_ops_append)

lemma leave_from_room:
  assumes "bk_session (svc_backend (helper_run e ko evs fs)) = Some active"
  shows "svc_state (helper_run e ko (evs @ [ServiceCall OpLeave]) fs) = idle_snapshot"
    "svc_backend (helper_run e ko (evs @ [ServiceCall OpLeave]) fs) = stop_session_locked e (svc_backend (helper_run e ko evs fs))"
proof -
  have "room_st (svc_state (helper_run e ko evs fs)) \<in> {Connected, Reconnecting}"
    using assms helper_agrees [of e ko evs fs] by (auto simp: easytier_backend.agrees_def active_role_def split: if_splits)
  then show "svc_state (helper_run e ko (evs @ [ServiceCall OpLeave]) fs) = idle_snapshot"
    "svc_backend (helper_run e ko (evs @ [ServiceCall OpLeave]) fs) = stop_session_locked e (svc_backend (helper_run e ko evs fs))"
    by (auto simp: helper_run_snoc leave_def Let_def easytier_simps publish_def)
qed

lemma cleared_absent:
  assumes "compact_ok (compact_room_code room)" "compact_room_code typed = compact_room_code room"
    "fs' = snd (clear_local_endpoint env no_faults room fs)"
  shows "load_local_endpoint env ff clock typed fs' = (Ok None, fs')"
proof -
  obtain path where path: "advertisement_path env room = Ok path" using assms(1) by (simp add: advertisement_path_Ok_iff)
  have "fst (clear_local_endpoint env no_faults room fs) = Ok ()" using clear_total [OF assms(1)] by (simp add: no_faults_def)
  with assms(3) have "clear_local_endpoint env no_faults room fs = (Ok (), fs')" by (metis prod.collapse)
  from clear_Ok [OF this path] have "fs_files fs' path = None" by (simp add: no_faults_def)
  moreover have "advertisement_path env typed = Ok path" using path advertisement_path_cong [OF assms(2)] by simp
  ultimately show ?thesis by (simp add: load_absent)
qed

lemma stop_host_files:
  assumes "\<And>t. en_faults e t = no_faults"
  shows "nw_files (stop_session e (HostActive host) w)
    = snd (clear_local_endpoint (en_discovery e) no_faults (cred_room_code (hs_credentials host)) (nw_files w))"
  by (simp add: stop_session_def Let_def on_files_def assms forward_stop_def close_listener_def kill_process_def split: prod.split)

section \<open>Properties\<close>

text \<open>Hosting succeeds when nothing fails. If the EasyTier program is installed, the system grants sockets,
  processes, files and random bytes, and the port it chooses does not lie in the ranges of the mesh ports, then in
  every reachable idle state with an identity, a valid request to create a room leads to a connected room
  whose host runs its scaffolding server and both ingresses, for the game at the requested address.\<close>

theorem create_succeeds:
  assumes "working_env e" "room_st (svc_state (helper_run e ko evs fs)) = Idle"
    "bk_identity (svc_backend (helper_run e ko evs fs)) \<noteq> None"
    and "validate_session_id (create_session_id request) = Ok sid"
      "validate_loopback_address (create_lan_address request) = Ok address"
  shows "\<exists>snapshot s' host. create (easytier_room_backend e) request (helper_run e ko evs fs) = (Ok snapshot, s')
    \<and> room_st snapshot = Connected \<and> role snapshot = RoleHost
    \<and> bk_session (svc_backend s') = Some (HostActive host) \<and> hs_minecraft host = address
    \<and> nw_listeners (bk_world (svc_backend s')) = host_listeners host"
  using host_goes_live [OF assms(1) refl assms(2-5)] by (auto simp: host_holds_def holds_def)




section \<open>A concrete system\<close>

text \<open>
  A codec of advertisements that stands for the JSON library: the three texts with every byte
  marked and a terminator, then the time.
\<close>

fun write_text :: "string \<Rightarrow> bytes" where
  "write_text [] = [0]"
| "write_text (ch # s) = 1 # byte_of_char ch # write_text s"

fun read_text :: "bytes \<Rightarrow> string \<times> bytes" where
  "read_text (m # b # bs) = (if m = 0 then ([], b # bs) else (case read_text bs of (s, rest) \<Rightarrow> (char_of_byte b # s, rest)))"
| "read_text [m] = ([], [])"
| "read_text [] = ([], [])"

lemma read_write_text: "rest \<noteq> [] \<Longrightarrow> read_text (write_text s @ rest) = (s, rest)"
proof (induction s)
  case Nil
  then show ?case by (cases rest) auto
qed auto

definition write_advertisement :: "room_endpoint_advertisement \<Rightarrow> bytes" where
  "write_advertisement a = write_text (adv_room_code a) @ write_text (adv_scaffolding a) @ write_text (adv_minecraft a)
     @ nat_to_le 8 (unat (published_unix_seconds a))"

definition read_advertisement :: "bytes \<Rightarrow> room_endpoint_advertisement" where
  "read_advertisement bs = (case read_text bs of (room, bs1) \<Rightarrow> (case read_text bs1 of (scaffolding, bs2) \<Rightarrow>
     (case read_text bs2 of (minecraft, bs3) \<Rightarrow>
        \<lparr>adv_room_code = room, adv_scaffolding = scaffolding, adv_minecraft = minecraft,
         published_unix_seconds = word_of_nat (nat_of_le bs3)\<rparr>)))"

lemma write_text_nonempty [simp]: "write_text s \<noteq> []"
  by (cases s) auto

lemma nat_le_8: "nat_to_le 8 n \<noteq> []"
  using length_nat_to_le [of 8 n] by (auto simp del: length_nat_to_le)

lemma advertisement_codec: "read_advertisement (write_advertisement a) = a"
  by (cases a) (simp add: read_advertisement_def write_advertisement_def read_write_text nat_le_8)

definition live_env :: backend_env where
  "live_env =
    \<lparr>en_program = \<lparr>pe_windows = False, pe_var = [''TERRACOTTA_EASYTIER_PATH'' \<mapsto> ''/e''], pe_is_file = (\<lambda>p. p = ''/e''),
        pe_current_exe = Ok ''/h''\<rparr>,
     en_discovery = \<lparr>de_windows = False, de_dir = Some ''/d'', de_temp_dir = ''/tmp'',
        de_to_vec = (\<lambda>a. Ok (write_advertisement a)), de_from_slice = (\<lambda>b. Ok (read_advertisement b))\<rparr>,
     en_profiles = \<lparr>pc_profile_from = (\<lambda>_. Err (JsonError [])), pc_profile_to = (\<lambda>_. Ok []),
        pc_list_from = (\<lambda>_. Ok []), pc_list_to = (\<lambda>_. Ok [])\<rparr>,
     en_sha256 = (\<lambda>_. replicate 32 7), en_hmac = (\<lambda>_ _. replicate 32 9),
     en_urandom = (\<lambda>_. Ok \<lparr>rx = replicate 12 3, rx_end = None\<rparr>),
     en_bind_fault = (\<lambda>_. None), en_free_port = (\<lambda>t. if even t then 30000 else 30001), en_addr_fault = (\<lambda>_. None),
     en_udp_fault = (\<lambda>_. None), en_spawn_fault = (\<lambda>_ _. None), en_early_exit = (\<lambda>_. None), en_wait = (\<lambda>_. WaitExited),
     en_connect = (\<lambda>_ _. None), en_remote = (\<lambda>_ _ _ _. RemoteTimeout), en_heartbeat = (\<lambda>_. (0, 0)),
     en_cli = (\<lambda>_ _ _. None), en_faults = (\<lambda>_. no_faults), en_clock = (\<lambda>_. 1000000000), en_instant = (\<lambda>t. t),
     en_others = (\<lambda>_ fs. fs)\<rparr>"

lemma live_env_works: "working_env live_env" "ports_vary live_env"
  by (simp_all add: working_env_def ports_vary_def live_env_def resolve_easytier_binary_def mesh_port_range_def)

definition identified :: "file_system \<Rightarrow> backend_state room_service" where
  "identified fs = helper_run live_env (\<lambda>ks. ks) [ServiceCall (OpInitializeIdentity [7])] fs"

lemma identified_state: "room_st (svc_state (identified fs)) = Idle" "bk_identity (svc_backend (identified fs)) = Some [7]"
  "nw_files (bk_world (svc_backend (identified fs))) = fs"
  by (simp_all add: identified_def helper_run_def new_room_service_def initialize_identity_def idle_snapshot_def
      easytier_room_backend_def backend_set_identity_def new_backend_def quiet_world_def)

lemma live_request:
  "validate_session_id (create_session_id sample_create) = Ok ''world''"
  "validate_loopback_address (create_lan_address sample_create) = Ok (SocketV4 127 0 0 1 25565)"
  by (simp_all add: sample_create_def sample_session_id sample_address)

theorem create_succeeds_witness:
  "\<exists>snapshot s'. create (easytier_room_backend live_env) sample_create (identified empty_files) = (Ok snapshot, s')
    \<and> room_st snapshot = Connected \<and> role snapshot = RoleHost"
  using create_succeeds [OF live_env_works(1) _ _ live_request, of "\<lambda>ks. ks" "[ServiceCall (OpInitializeIdentity [7])]" empty_files,
      folded identified_def] identified_state [of empty_files] by auto


text \<open>The helper after it has created the sample room.\<close>

definition hosting_events :: "helper_event list" where
  "hosting_events = [ServiceCall (OpInitializeIdentity [7]), ServiceCall (OpCreate sample_create)]"

lemma sample_hosting:
  obtains host where "bk_session (svc_backend (helper_run live_env (\<lambda>ks. ks) hosting_events empty_files)) = Some (HostActive host)"
    "room_st (svc_state (helper_run live_env (\<lambda>ks. ks) hosting_events empty_files)) = Connected"
proof -
  obtain snapshot hosting host where h: "create (easytier_room_backend live_env) sample_create (identified empty_files) = (Ok snapshot, hosting)"
    "bk_session (svc_backend hosting) = Some (HostActive host)" "room_st (svc_state hosting) = Connected"
    using host_goes_live [OF live_env_works(1) identified_def _ _ live_request] identified_state by blast
  moreover have "helper_run live_env (\<lambda>ks. ks) hosting_events empty_files = hosting"
    using helper_run_snoc [of live_env "\<lambda>ks. ks" "[ServiceCall (OpInitializeIdentity [7])]" "ServiceCall (OpCreate sample_create)" empty_files]
      h(1) by (simp add: identified_def hosting_events_def)
  ultimately show ?thesis using that by simp
qed



end
