(* ===== verification/Mesh_Join.thy ===== *)
theory Mesh_Join
  imports Backend_Live
begin

text \<open>
  Host and guest on different machines. They share nothing but the room code; what meets in the mesh are the two
  EasyTier processes that they start. The theory reads their command lines and shows that a guest's local
  addresses lead to the services of the host.
\<close>

section \<open>Routes through the mesh\<close>

text \<open>A command line has an option with a value.\<close>

fun has_option :: "string \<Rightarrow> string \<Rightarrow> string list \<Rightarrow> bool" where
  "has_option flag v (x # y # rest) \<longleftrightarrow> x = flag \<and> y = v \<or> has_option flag v (y # rest)"
| "has_option flag v _ \<longleftrightarrow> False"

text \<open>
  What EasyTier documents: processes with the same network name and secret form one network, \<open>--ipv4\<close> is the address
  of the process in it, and \<open>--port-forward\<close> leads a local address to an address of the network. So a connection
  to \<open>near\<close> on the guest's machine arrives at the host's machine on the port of \<open>far\<close>.
\<close>

definition mesh_route :: "easytier_command \<Rightarrow> easytier_command \<Rightarrow> socket_addr \<Rightarrow> socket_addr \<Rightarrow> bool" where
  "mesh_route guest host near far \<longleftrightarrow> cmd_env guest = cmd_env host
    \<and> has_option ''--ipv4'' ''10.144.144.1'' (cmd_args host)
    \<and> has_option ''--port-forward'' (''tcp://'' @ addr_to_string near @ ''/10.144.144.1:'' @ dec (unat (addr_port far))) (cmd_args guest)"

lemma has_option_Cons: "has_option flag v xs \<Longrightarrow> has_option flag v (x # xs)"
  by (cases xs) auto

lemma has_option_append: "has_option flag v ys \<Longrightarrow> has_option flag v (xs @ ys)"
  by (induction xs) (auto intro: has_option_Cons)

lemma has_option_prefix: "has_option flag v xs \<Longrightarrow> has_option flag v (xs @ ys)"
  by (induction flag v xs rule: has_option.induct) auto

lemma has_option_concat: "x \<in> set xs \<Longrightarrow> has_option flag x (concat (map (\<lambda>y. [flag, y]) xs))"
proof -
  assume "x \<in> set xs"
  then obtain ys zs where "xs = ys @ x # zs" by (auto simp: in_set_conv_decomp)
  then show ?thesis by (auto intro: has_option_append)
qed

lemma command_ipv4: "lc_host_ipv4 config = Some a \<Longrightarrow> has_option ''--ipv4'' a (cmd_args (launch_command pe credentials config))"
  by (auto simp: launch_command_def intro!: has_option_append has_option_Cons has_option_prefix)

lemma command_forward:
  "f \<in> set (lc_port_forwards config) \<Longrightarrow> has_option ''--port-forward'' f (cmd_args (launch_command pe credentials config))"
  unfolding launch_command_def easytier_command.select_convs append_assoc [symmetric]
  by (rule has_option_append) (rule has_option_concat)

section \<open>The commands that are issued\<close>

lemma launch_spawned:
  "launch e credentials config w = (Ok node, w')
    \<Longrightarrow> en_spawn_fault e (nw_tick w) (launch_command (en_program e) credentials config) = None"
  by (auto simp: launch_def start_easytier_def split: if_splits option.splits prod.splits)

lemma host_services_credentials:
  "host_services e identity credentials minecraft d r node w = (Ok host, w') \<Longrightarrow> hs_credentials host = credentials"
  by (auto simp: host_services_def host_ingress_def host_publish_def Let_def split: prod.splits sum.splits)

lemma start_host_command:
  assumes "start_host e identity binary minecraft d r w = (Ok host, w')"
  shows "\<exists>t config. lc_host_ipv4 config = Some ''10.144.144.1''
    \<and> en_spawn_fault e t (launch_command (en_program e) (hs_credentials host) config) = None
    \<and> from_room_code (en_sha256 e) (en_hmac e) (cred_room_code (hs_credentials host)) = Ok (hs_credentials host)"
proof -
  let ?config = "\<lambda>c. \<lparr>lc_binary = binary, lc_prefer_direct = d, lc_allow_relay = r, lc_host_ipv4 = Some ''10.144.144.1'',
      lc_port_forwards = [], lc_rpc_portal = rpc_portal_for_room (en_sha256 e) (cred_room_code c)\<rparr>"
  obtain c node w1 w2 where c: "generate (en_sha256 e) (en_hmac e) (en_urandom e (nw_tick w)) = Ok c"
    and l: "launch e c (?config c) w1 = (Ok node, w2)"
    and s: "host_services e identity c minecraft d r node w2 = (Ok host, w')"
    using assms unfolding start_host_def and_then_Ok_iff by blast
  from host_services_credentials [OF s] have [simp]: "hs_credentials host = c" .
  from c have "from_room_code (en_sha256 e) (en_hmac e) (cred_room_code c) = Ok c" by (rule generate_Ok)
  with launch_spawned [OF l] show ?thesis by (intro exI [of _ "nw_tick w1"] exI [of _ "?config c"]) simp
qed

lemma local_join_forwards:
  "local_member_services e identity credentials advertisement node w = (Ok (answer, m), w') \<Longrightarrow> ms_minecraft_forward m \<noteq> None"
  by (auto simp: local_member_services_def local_member_session_def Let_def split: prod.splits sum.splits)

lemma mesh_join_command:
  assumes "join_via_mesh g identity credentials binary v = (Ok (answer, m), v')"
  shows "let mesh = mesh_from_room_code (en_sha256 g) (cred_room_code credentials) in
    \<exists>t config. lc_port_forwards config = member_port_forwards mesh
      \<and> en_spawn_fault g t (launch_command (en_program g) credentials config) = None
      \<and> ms_local_scaffolding m = member_local_scaffolding_addr mesh \<and> ms_local_minecraft m = member_local_minecraft_addr mesh
      \<and> br_local_address answer = Some (addr_to_string (ms_local_minecraft m))"
proof -
  let ?mesh = "mesh_from_room_code (en_sha256 g) (cred_room_code credentials)"
  let ?config = "member_config g binary credentials (member_port_forwards ?mesh)"
  obtain node v1 where l: "launch g credentials ?config v = (Ok node, v1)"
    and j: "ms_local_scaffolding m = member_local_scaffolding_addr ?mesh" "ms_local_minecraft m = member_local_minecraft_addr ?mesh"
      "br_local_address answer = Some (addr_to_string (ms_local_minecraft m))"
    using assms unfolding join_via_mesh_def Let_def and_then_Ok_iff
    by (elim exE conjE) (auto simp: mesh_member_room_def split: prod.splits sum.splits)
  from launch_spawned [OF l] j show ?thesis
    unfolding Let_def by (intro exI [of _ "nw_tick v"] exI [of _ ?config]) (simp add: member_config_def)
qed

lemma member_forwards:
  "''tcp://'' @ addr_to_string (member_local_scaffolding_addr mesh) @ ''/10.144.144.1:''
     @ dec (unat (addr_port (mesh_ingress_bind_scaffolding mesh))) \<in> set (member_port_forwards mesh)"
  "''tcp://'' @ addr_to_string (member_local_minecraft_addr mesh) @ ''/10.144.144.1:''
     @ dec (unat (addr_port (mesh_ingress_bind_minecraft mesh))) \<in> set (member_port_forwards mesh)"
proof -
  have "show_v4 10 144 144 1 = ''10.144.144.1''" "show_v4 127 0 0 1 = ''127.0.0.1''" by code_simp+
  then show "''tcp://'' @ addr_to_string (member_local_scaffolding_addr mesh) @ ''/10.144.144.1:''
      @ dec (unat (addr_port (mesh_ingress_bind_scaffolding mesh))) \<in> set (member_port_forwards mesh)"
    "''tcp://'' @ addr_to_string (member_local_minecraft_addr mesh) @ ''/10.144.144.1:''
      @ dec (unat (addr_port (mesh_ingress_bind_minecraft mesh))) \<in> set (member_port_forwards mesh)"
    by (simp_all add: member_port_forwards_def HOST_VIRTUAL_IPV4_def member_local_scaffolding_addr_def
        member_local_minecraft_addr_def mesh_ingress_bind_scaffolding_def mesh_ingress_bind_minecraft_def)
qed

section \<open>Joining succeeds\<close>

text \<open>Where no advertisement is found, and the forwarded port answers, the guest joins over the mesh.\<close>

lemma local_loop_absent:
  assumes "compact_ok (compact_room_code room)" "\<And>t fs. en_others g t fs = fs" "\<And>p. fs_files (nw_files v) p = None"
  shows "\<exists>v'. local_endpoint_loop g room n v = (Ok None, v')"
  using assms(3)
proof (induction n arbitrary: v)
  case (Suc n)
  obtain path where "advertisement_path (en_discovery g) room = Ok path"
    using assms(1) by (simp add: advertisement_path_Ok_iff)
  with Suc.prems have "load_local_endpoint (en_discovery g) ff clock room (nw_files v) = (Ok None, nw_files v)" for ff clock
    by (intro load_absent) simp_all
  with Suc.IH [of "tick v"] Suc.prems show ?case by (simp add: on_files_def and_then_simps assms(2))
qed simp

lemma mesh_join_live:
  assumes "working_env g" "resolve_easytier_binary (en_program g) = Some binary" "\<And>t a. en_connect g t a = Some (Ok x)"
  shows "ensures (\<lambda>_. False) (\<lambda>(answer, m) _. ms_minecraft_forward m = None) (join_via_mesh g identity credentials binary v)"
proof -
  have "wait_for_tcp g a w = (Ok (), tick w)" for a w
    by (simp add: wait_for_tcp_def MESH_PROBE_ATTEMPTS_def eval_nat_numeral assms(3))
  then show ?thesis unfolding join_via_mesh_def Let_def
    by (intro ensures_and_then [OF launch_live [OF assms(1) _ assms(2)]])
      (auto simp: member_config_def ensures_def split: prod.split sum.split)
qed

lemma start_member_live:
  assumes "working_env g" "resolve_easytier_binary (en_program g) = Some binary" "\<And>t a. en_connect g t a = Some (Ok x)"
    and "\<And>t fs. en_others g t fs = fs" "\<And>p. fs_files (nw_files v) p = None"
    and code: "from_room_code (en_sha256 g) (en_hmac g) room = Ok credentials"
  shows "ensures (\<lambda>_. False) (\<lambda>(answer, m) _. ms_minecraft_forward m = None) (start_member g identity binary room v)"
proof -
  have "compact_ok (compact_room_code (cred_room_code credentials))"
    using credentials_normal [OF code] by (simp add: normalize_room_code_alt split: if_splits)
  then obtain v' where "try_local_endpoint g (cred_room_code credentials) v = (Ok None, v')"
    using local_loop_absent [OF _ assms(4,5)] unfolding try_local_endpoint_def by blast
  with code mesh_join_live [OF assms(1-3)] show ?thesis by (simp add: start_member_def and_then_simps)
qed

section \<open>Properties\<close>

text \<open>C12: Guest and host meet in the mesh. Whenever a host has started, and a guest on another machine has joined over the
  mesh with any spelling of the host's code, both have started EasyTier in the same network with the same secret; the
  guest's two local addresses are forwarded to the host's virtual address, to the very ports on which the host's two
  ingresses listen; those lead to the host's scaffolding server and to the game; and the address that the guest is
  told to enter in the game is the first end of the second route.\<close>

theorem mesh_join_meets_host:
  assumes host: "start_host e identity binary minecraft direct relay w = (Ok host, w')" "holds [] [] [] w" "loopback_endpoint minecraft"
    and same: "en_sha256 g = en_sha256 e" "en_hmac g = en_hmac e"
    and code: "compact_room_code room = compact_room_code (cred_room_code (hs_credentials host))"
    and guest: "start_member g identity' binary' room v = (Ok (answer, m), v')" "ms_minecraft_forward m = None"
  shows "\<exists>t t' host_command guest_command.
    en_spawn_fault e t host_command = None \<and> en_spawn_fault g t' guest_command = None
    \<and> mesh_route guest_command host_command (ms_local_scaffolding m) (pf_local_addr (hs_scaffolding_ingress host))
    \<and> mesh_route guest_command host_command (ms_local_minecraft m) (pf_local_addr (hs_minecraft_ingress host))
    \<and> pf_target (hs_scaffolding_ingress host) = hs_scaffolding_addr host \<and> pf_target (hs_minecraft_ingress host) = minecraft
    \<and> br_local_address answer = Some (addr_to_string (ms_local_minecraft m))"
proof -
  let ?c = "hs_credentials host" and ?mesh = "mesh_from_room_code (en_sha256 e) (cred_room_code (hs_credentials host))"
  from start_host_ensures [OF host(2,3), of e identity binary direct relay] host(1)
  have ok: "host_ok e host" "hs_minecraft host = minecraft" by simp_all
  obtain t config where h: "lc_host_ipv4 config = Some ''10.144.144.1''"
    "en_spawn_fault e t (launch_command (en_program e) ?c config) = None"
    "from_room_code (en_sha256 e) (en_hmac e) (cred_room_code ?c) = Ok ?c" using start_host_command [OF host(1)] by blast
  have "from_room_code (en_sha256 g) (en_hmac g) room = Ok ?c" using from_room_code_cong [OF code] h(3) same by simp
  with guest obtain v1 v2 where "join_via_mesh g identity' ?c binary' v1 = (Ok (answer, m), v2)"
    by (auto simp: start_member_def and_then_simps and_then_Ok_iff join_via_local_discovery_def dest: local_join_forwards split: option.splits)
  from mesh_join_command [OF this] obtain t' config' where g: "lc_port_forwards config' = member_port_forwards ?mesh"
    "en_spawn_fault g t' (launch_command (en_program g) ?c config') = None"
    "ms_local_scaffolding m = member_local_scaffolding_addr ?mesh" "ms_local_minecraft m = member_local_minecraft_addr ?mesh"
    "br_local_address answer = Some (addr_to_string (ms_local_minecraft m))" unfolding Let_def same by blast
  have "mesh_route (launch_command (en_program g) ?c config') (launch_command (en_program e) ?c config) near far"
    if "''tcp://'' @ addr_to_string near @ ''/10.144.144.1:'' @ dec (unat (addr_port far)) \<in> set (member_port_forwards ?mesh)" for near far
    using command_ipv4 [OF h(1)] command_forward [of _ config', unfolded g(1), OF that] unfolding mesh_route_def
    by (simp add: launch_command_def [of _ _ config'] launch_command_def [of _ _ config])
  from this [OF member_forwards(1)] this [OF member_forwards(2)] ok h(2) g(2-5) show ?thesis
    by (intro exI [of _ t] exI [of _ t'] exI conjI) (auto simp: host_ok_def)
qed

text \<open>A guest on a machine of its own, whose forwarded ports answer.\<close>

definition guest_env :: backend_env where
  "guest_env = live_env\<lparr>en_connect := \<lambda>_ _. Some (Ok 0)\<rparr>"

lemma guest_env_works: "working_env guest_env"
  using live_env_works(1) by (simp add: working_env_def guest_env_def)

theorem mesh_join_meets_host_witness:
  "\<exists>host w' answer m v' t t' host_command guest_command.
    start_host live_env [7] ''/e'' (SocketV4 127 0 0 1 25565) True True (quiet_world empty_files) = (Ok host, w')
    \<and> start_member guest_env [8] ''/e'' (cred_room_code (hs_credentials host)) (quiet_world empty_files) = (Ok (answer, m), v')
    \<and> en_spawn_fault live_env t host_command = None \<and> en_spawn_fault guest_env t' guest_command = None
    \<and> mesh_route guest_command host_command (ms_local_minecraft m) (pf_local_addr (hs_minecraft_ingress host))
    \<and> pf_target (hs_minecraft_ingress host) = SocketV4 127 0 0 1 25565"
proof -
  let ?game = "SocketV4 127 0 0 1 25565" and ?w = "quiet_world empty_files"
  have binary: "resolve_easytier_binary (en_program live_env) = Some ''/e''"
    by (simp add: live_env_def resolve_easytier_binary_def)
  have game: "loopback_endpoint ?game" by (simp add: loopback_endpoint_def)
  obtain host w' where h: "start_host live_env [7] ''/e'' ?game True True ?w = (Ok host, w')"
    using start_host_live [OF live_env_works(1) binary game, of ?w "[7]" True True]
    by (auto simp: ensures_def quiet_world_def split: prod.splits sum.splits)
  let ?code = "cred_room_code (hs_credentials host)"
  have "from_room_code (en_sha256 guest_env) (en_hmac guest_env) ?code = Ok (hs_credentials host)"
    using start_host_command [OF h] by (auto simp: guest_env_def)
  then obtain answer m v' where g: "start_member guest_env [8] ''/e'' ?code ?w = (Ok (answer, m), v')" "ms_minecraft_forward m = None"
    using start_member_live [OF guest_env_works, of "''/e''" 0 ?w ?code "hs_credentials host" "[8]"] binary
    by (auto simp: ensures_def guest_env_def live_env_def quiet_world_def empty_files_def split: prod.splits sum.splits)
  have "holds [] [] [] ?w" by (simp add: holds_def quiet_world_def)
  from mesh_join_meets_host [OF h this game _ _ refl g] h g(1) show ?thesis by (simp add: guest_env_def) blast
qed

end
