(* ===== verification/Conversation.thy ===== *)
theory Conversation
  imports Helper_Process Mesh_Join
begin

text \<open>
  The launcher and the helper in conversation, over all components at once: the bytes of the requests on the stream, the
  session, the room service, the production backend, and the bytes of the answers. First the two keys, the one
  that the session remembers and the one that the backend uses, are the same in every session; then a request
  of a room is followed from its frame to the frame of its answer; then a whole run, and what a host sees of its members.
\<close>

section \<open>One key\<close>

lemma on_world_identity [simp]: "bk_identity (snd (on_world f s)) = bk_identity s"
  by (simp add: on_world_def split: prod.split)

lemma backend_identity [simp]:
  "bk_identity (snd (backend_create e r s)) = bk_identity s"
  "bk_identity (snd (backend_join e j s)) = bk_identity s"
  "bk_identity (snd (backend_set_lan_address e a s)) = bk_identity s"
  "bk_identity (snd (refresh_backend e s)) = bk_identity s"
  "bk_identity (snd (backend_diagnose e s)) = bk_identity s"
  "bk_identity (snd (backend_leave e s)) = bk_identity s"
proof -
  have keep: "bk_identity (snd (and_then x f)) = k"
    if "bk_identity (snd x) = k" "\<And>v t. bk_identity t = k \<Longrightarrow> bk_identity (snd (f v t)) = k"
    for x :: "('e + 'a) \<times> backend_state" and f :: "'a \<Rightarrow> backend_state \<Rightarrow> ('e + 'b) \<times> backend_state" and k
    by (rule and_then_keeps [where P = "\<lambda>t. bk_identity t = k"]) (use that in auto)
  show "bk_identity (snd (backend_create e r s)) = bk_identity s"
    unfolding backend_create_def host_room_def by (intro keep) (auto intro!: keep)
  show "bk_identity (snd (backend_join e j s)) = bk_identity s"
    unfolding backend_join_def by (intro keep) (auto split: prod.split)
  show "bk_identity (snd (backend_set_lan_address e a s)) = bk_identity s"
    by (simp add: backend_set_lan_address_def split: option.split active_session.split prod.split)
  show "bk_identity (snd (refresh_backend e s)) = bk_identity s"
    by (simp add: refresh_backend_def split: option.split active_session.split prod.split)
  then show "bk_identity (snd (backend_diagnose e s)) = bk_identity s"
    unfolding backend_diagnose_def by (intro keep) auto
  show "bk_identity (snd (backend_leave e s)) = bk_identity s"
    by (simp add: backend_leave_def stop_session_locked_def split: option.split)
qed

fun key_of :: "service_op \<Rightarrow> bytes option" where
  "key_of (OpInitializeIdentity k) = Some k"
| "key_of _ = None"

definition new_key :: "bytes option \<Rightarrow> bytes option \<Rightarrow> bytes option" where
  "new_key x old = (case x of None \<Rightarrow> old | Some k \<Rightarrow> Some k)"

lemma new_key_simps [simp]: "new_key None old = old" "new_key (Some k) old = Some k"
  by (simp_all add: new_key_def)

abbreviation service_key :: "backend_state room_service \<Rightarrow> bytes option" where
  "service_key s \<equiv> bk_identity (svc_backend s)"

lemma enter_room_backend [simp]: "svc_backend (snd (enter_room r q sid a s)) = svc_backend s"
  by (simp add: enter_room_def replace_known_members_def Let_def split: sum.split)

lemma poll_backend [simp]: "svc_backend (poll_and_emit B ko s) = snd (be_refresh B (svc_backend s))"
  by (simp add: poll_and_emit_def Let_def split: prod.split sum.split option.split)

lemma key_kept:
  "refresh_backend e b = (r, b') \<Longrightarrow> bk_identity b' = bk_identity b"
  "backend_diagnose e b = (d, b') \<Longrightarrow> bk_identity b' = bk_identity b"
  using backend_identity(4) [of e b] backend_identity(5) [of e b] by simp_all

lemma service_step_key:
  "service_key (service_step (easytier_room_backend e) ko x s) = new_key (key_of x) (service_key s)"
  by (cases x)
    (auto simp: initialize_identity_def status_def create_def join_room_def set_lan_address_def diagnose_def leave_def
      easytier_room_backend_def backend_set_identity_def Let_def split: sum.split prod.split option.split
      dest!: key_kept dest: arg_cong [where f = "\<lambda>p. bk_identity (snd p)"])

text \<open>The key of the session changes with that of the backend.\<close>

lemma dispatch_key:
  "se_identity (snd (dispatch cd B ko request s)) = new_key (Option.bind (request_op cd request) key_of) (se_identity s)"
proof -
  consider "env_type request = ''identity.initialize''" | "env_type request = ''room.create''"
    | "env_type request = ''room.join''" | "env_type request = ''room.set-lan-address''"
    | "env_type request \<notin> {''identity.initialize'', ''room.create'', ''room.join'', ''room.set-lan-address''}"
    by blast
  then show ?thesis
    by cases (simp_all add: dispatch_def request_op_def Let_def session_simps split: sum.split option.split prod.split)
qed

definition one_key :: "backend_state session \<Rightarrow> bool" where
  "one_key s \<longleftrightarrow> se_identity s = service_key (se_room s)"

lemma one_key_dispatch:
  assumes "one_key s" shows "one_key (snd (dispatch cd (easytier_room_backend e) ko request s))"
  using assms by (simp add: one_key_def dispatch_key dispatch_room service_step_key split: option.split)

lemma one_key_turn:
  assumes s: "one_key s" shows "one_key (snd (session_turn cd (easytier_room_backend e) ko wk s))"
proof -
  have "one_key (snd (handle_request cd (easytier_room_backend e) ko request (s\<lparr>se_in := r\<rparr>)))" for request r
    using s one_key_dispatch [of "s\<lparr>se_in := r, se_ids := env_id request # se_ids s\<rparr>" cd e ko request]
    by (simp add: handle_request_def Let_def session_simps one_key_def)
  moreover have "service_key (poll_and_emit (easytier_room_backend e) ko (se_room s)) = service_key (se_room s)"
    using service_step_key [of e ko OpPoll] by simp
  ultimately show ?thesis
    using s by (auto simp: session_turn_def Let_def session_simps one_key_def
        split: wake.split prod.split sum.split frame_error.split)
qed

interpretation keys: invariant_machine "\<lambda>wk s. snd (session_turn cd (easytier_room_backend e) ko wk s)" one_key for cd e ko
  by unfold_locales (rule one_key_turn)

text \<open>The session of a helper that has served some wake-ups.\<close>

definition helper_session ::
    "'v codec \<Rightarrow> backend_env \<Rightarrow> (string list \<Rightarrow> string list) \<Rightarrow> string \<Rightarrow> bytes \<Rightarrow> bool \<Rightarrow> wake list
      \<Rightarrow> reader \<times> writer \<Rightarrow> file_system \<Rightarrow> backend_state session" where
  "helper_session cd e ko version secret late wks stream fs =
    snd (session_run cd (easytier_room_backend e) ko version secret late wks (new_session stream (new_backend (quiet_world fs))))"

lemma handshake_key: "se_identity s = None \<Longrightarrow> se_identity (snd (handshake cd version secret late s)) = None"
  by (auto simp: handshake_def Let_def session_simps split: prod.split sum.split
      dest: arg_cong [of _ _ "\<lambda>p. se_identity (snd p)"])

lemma helper_session_key: "one_key (helper_session cd e ko version secret late wks stream fs)"
proof -
  let ?s = "new_session stream (new_backend (quiet_world fs))"
  obtain a s1 where h: "handshake cd version secret late ?s = (a, s1)" by (rule prod.exhaust)
  have "one_key ?s" by (simp add: one_key_def new_session_def new_backend_def new_room_service_def)
  moreover have "se_room s1 = se_room ?s" using handshake_room [of cd version secret late ?s] by (simp add: h)
  moreover have "se_identity s1 = None"
  proof -
    have "se_identity ?s = None" by (simp add: new_session_def)
    from handshake_key [OF this, of cd version secret late] show ?thesis by (simp add: h)
  qed
  ultimately have one: "one_key s1" by (simp add: one_key_def new_session_def)
  have "one_key (snd (session_loop cd (easytier_room_backend e) ko wks s1))"
    using session_loop_prefix [of cd "easytier_room_backend e" ko wks s1] keys.inv_run [OF one] by metis
  with one show ?thesis
    by (cases a) (auto simp: helper_session_def session_run_def h split: option.split)
qed

lemma run_ops_service_calls:
  "run_ops (service_step (easytier_room_backend e) ko) ops s = run_ops (helper_step e ko) (map ServiceCall ops) s"
  by (induction ops arbitrary: s) simp_all

lemma helper_session_room:
  "\<exists>evs. se_room (helper_session cd e ko version secret late wks stream fs) = helper_run e ko evs fs"
proof -
  obtain ops where "se_room (helper_session cd e ko version secret late wks stream fs)
      = run_ops (service_step (easytier_room_backend e) ko) ops (new_room_service (new_backend (quiet_world fs)))"
    using session_run_room [of cd "easytier_room_backend e" ko version secret late wks "new_session stream (new_backend (quiet_world fs))"]
    by (auto simp: helper_session_def new_session_def)
  then show ?thesis by (auto simp: helper_run_def run_ops_service_calls)
qed

section \<open>From frame to frame\<close>

text \<open>The bytes of an answer.\<close>

definition answer_bytes :: "'v codec \<Rightarrow> string \<Rightarrow> string \<Rightarrow> ipc_payload \<Rightarrow> bytes" where
  "answer_bytes cd rid ty p = (case envelope_response (cd_to_value cd) rid ty p of
      Err _ \<Rightarrow> []
    | Ok env \<Rightarrow> (case cd_to_vec cd env of Err _ \<Rightarrow> [] | Ok body \<Rightarrow> frame_bytes body))"

definition sent :: "bytes \<Rightarrow> 'b session \<Rightarrow> 'b session" where
  "sent bs s = s\<lparr>se_out := (se_out s)\<lparr>tx := tx (se_out s) @ bs\<rparr>\<rparr>"

lemma sent_simps [simp]:
  "tx (se_out (sent bs s)) = tx (se_out s) @ bs" "open_writer (se_out (sent bs s)) = open_writer (se_out s)"
  "se_in (sent bs s) = se_in s" "se_room (sent bs s) = se_room s" "se_ids (sent bs s) = se_ids s"
  "se_identity (sent bs s) = se_identity s"
  by (simp_all add: sent_def open_writer_def)

lemma write_response_sent:
  assumes "codec_total cd" "open_writer (se_out s)"
  shows "write_response cd rid ty p s = (Ok (), sent (answer_bytes cd rid ty p) s)"
proof -
  obtain v where v: "cd_to_value cd p = Ok v" using assms(1) by (auto simp: codec_total_def is_ok_iff)
  let ?env = "\<lparr>env_protocol = PROTOCOL_VERSION, env_id = rid, env_type = ty, env_payload = v\<rparr>"
  obtain body where b: "cd_to_vec cd ?env = Ok body" "body_ok body" using assms(1) by (auto simp: codec_total_def)
  from write_frame_open [where zeroize = "cd_zeroize cd" and to_vec = "cd_to_vec cd" and v = ?env, OF assms(2) b] show ?thesis
    by (simp add: write_response_def answer_bytes_def envelope_response_def v b(1) sent_def)
qed

text \<open>A request of the supported protocol with a new identifier.\<close>

definition fresh_request :: "'v envelope \<Rightarrow> 'b session \<Rightarrow> bool" where
  "fresh_request request s \<longleftrightarrow> env_protocol request = PROTOCOL_VERSION \<and> valid_request_id (env_id request)
    \<and> env_id request \<notin> set (se_ids s) \<and> length (se_ids s) < MAX_REQUEST_IDS"

lemma fresh_turn:
  assumes "read_frame (cd_from_slice cd) (se_in s) = (Ok request, r)" "fresh_request request s"
    "env_type request \<in> {''room.create'', ''room.join''} \<Longrightarrow> se_identity s \<noteq> None"
  shows "session_turn cd B ko WakeRequest s = dispatch cd B ko request (s\<lparr>se_in := r, se_ids := env_id request # se_ids s\<rparr>)"
  using assms by (auto simp: session_turn_def handle_request_def fresh_request_def Let_def)

lemma dispatch_create:
  assumes "env_type request = ''room.create''" "cd_create cd (env_payload request) = Ok rq"
    "create B rq (se_room s) = (Ok snapshot, room)" "codec_total cd" "open_writer (se_out s)"
  shows "dispatch cd B ko request s
    = (Ok None, sent (answer_bytes cd (env_id request) ''room.created'' (PaySnapshot snapshot)) (s\<lparr>se_room := room\<rparr>))"
  using assms by (simp add: dispatch_def Let_def reply_room_def pay_def write_response_sent and_return_def)

lemma dispatch_join:
  assumes "env_type request = ''room.join''" "cd_join cd (env_payload request) = Ok rq"
    "join_room B rq (se_room s) = (Ok snapshot, room)" "codec_total cd" "open_writer (se_out s)"
  shows "dispatch cd B ko request s
    = (Ok None, sent (answer_bytes cd (env_id request) ''room.joined'' (PaySnapshot snapshot)) (s\<lparr>se_room := room\<rparr>))"
  using assms by (simp add: dispatch_def Let_def reply_room_def pay_def write_response_sent and_return_def)

lemma dispatch_identity_sent:
  assumes "env_type request = ''identity.initialize''" "cd_identity cd (env_payload request) = Ok text'"
    "decode_identity text' = Some k" "codec_total cd" "open_writer (se_out s)"
  shows "dispatch cd B ko request s
    = (Ok None, sent (answer_bytes cd (env_id request) ''identity.initialized'' (PayIdentityInitialized True))
        (s\<lparr>se_room := initialize_identity B k (se_room s), se_identity := Some k\<rparr>))"
  using assms by (simp add: dispatch_def Let_def write_response_sent and_return_def)

lemma dispatch_shutdown:
  assumes "env_type request = ''shutdown''" "codec_total cd" "open_writer (se_out s)"
  shows "dispatch cd B ko request s
    = (Ok (Some ShutdownRequested), sent (answer_bytes cd (env_id request) ''shutdown.accepted'' PayEmpty) s)"
  using assms by (simp add: dispatch_def Let_def write_response_sent and_return_def)

lemma handshake_sent:
  assumes "read_frame (cd_from_slice cd) (se_in s) = (Ok request, r)" "env_protocol request = PROTOCOL_VERSION"
    "valid_request_id (env_id request)" "env_type request = ''hello''" "cd_hello cd (env_payload request) = Ok hello"
    "as_bytes (auth_token hello) = secret" "client hello = ''pcln''" "trim (client_version hello) \<noteq> []"
    "codec_total cd" "open_writer (se_out s)"
  shows "handshake cd version secret False s = (Ok None,
    sent (answer_bytes cd (env_id request) ''hello.accepted''
        (PayHelloAccepted \<lparr>helper_version = version, capabilities = CAPABILITIES\<rparr>))
      (s\<lparr>se_in := r, se_ids := [env_id request], se_identity := None, se_seen := length (svc_events (se_room s)), se_seq := 0\<rparr>))"
  using assms by (simp add: handshake_def Let_def write_response_sent and_return_def) (simp add: sent_def)

text \<open>A valid \<open>room.create\<close> request in any session of the production helper, with what the service made of it.\<close>

lemma create_turn:
  assumes s: "s = helper_session cd e ko version secret late wks stream fs"
    and env: "working_env e" "codec_total cd" "open_writer (se_out s)"
    and ready: "se_identity s \<noteq> None" "room_st (svc_state (se_room s)) = Idle"
    and request: "read_frame (cd_from_slice cd) (se_in s) = (Ok request, r)" "fresh_request request s"
      "env_type request = ''room.create''" "cd_create cd (env_payload request) = Ok rq"
      "validate_session_id (create_session_id rq) = Ok sid" "validate_loopback_address (create_lan_address rq) = Ok address"
  obtains evs snapshot room' host where "se_room s = helper_run e ko evs fs"
    "create (easytier_room_backend e) rq (se_room s) = (Ok snapshot, room')" "svc_state room' = snapshot"
    "room_st snapshot = Connected" "role snapshot = RoleHost" "bk_session (svc_backend room') = Some (HostActive host)" "hs_minecraft host = address"
    "session_turn cd (easytier_room_backend e) ko WakeRequest s
      = (Ok None, sent (answer_bytes cd (env_id request) ''room.created'' (PaySnapshot snapshot))
          (s\<lparr>se_in := r, se_ids := env_id request # se_ids s, se_room := room'\<rparr>))"
proof -
  obtain evs where room: "se_room s = helper_run e ko evs fs" unfolding s using helper_session_room by blast
  have "service_key (se_room s) \<noteq> None"
    using helper_session_key [of cd e ko version secret late wks stream fs] ready(1) by (simp add: one_key_def s)
  from host_goes_live [OF env(1) room ready(2) this request(5,6)]
  obtain snapshot room' host where c: "create (easytier_room_backend e) rq (se_room s) = (Ok snapshot, room')"
    "svc_state room' = snapshot" "room_st snapshot = Connected" "role snapshot = RoleHost"
    "bk_session (svc_backend room') = Some (HostActive host)" "hs_minecraft host = address" by blast
  let ?s = "s\<lparr>se_in := r, se_ids := env_id request # se_ids s\<rparr>"
  have "session_turn cd (easytier_room_backend e) ko WakeRequest s = dispatch cd (easytier_room_backend e) ko request ?s"
    by (rule fresh_turn [OF request(1,2)]) (rule ready(1))
  also have "\<dots> = (Ok None, sent (answer_bytes cd (env_id request) ''room.created'' (PaySnapshot snapshot)) (?s\<lparr>se_room := room'\<rparr>))"
    by (rule dispatch_create [OF request(3,4)]) (use c(1) env in simp_all)
  finally show ?thesis using that [OF room c] by simp
qed

section \<open>The opening of a conversation\<close>

text \<open>A frame's body that decodes to a request of the supported protocol.\<close>

definition message :: "'v codec \<Rightarrow> bytes \<Rightarrow> 'v envelope \<Rightarrow> bool" where
  "message cd body env \<longleftrightarrow> cd_from_slice cd body = Ok env \<and> body_ok body
    \<and> env_protocol env = PROTOCOL_VERSION \<and> valid_request_id (env_id env)"

lemma message_read: "message cd body env \<Longrightarrow> rx r = frame_bytes body @ rest \<Longrightarrow> read_frame (cd_from_slice cd) r = (Ok env, r\<lparr>rx := rest\<rparr>)"
  using read_body_frame_bytes [of body r rest] by (simp add: message_def read_frame_def)

text \<open>The three requests with which a launcher opens a room: it proves that it knows the secret, sets a key, and asks.\<close>

definition asks_for_room :: "'v codec \<Rightarrow> bytes \<Rightarrow> 'v envelope \<Rightarrow> 'v envelope \<Rightarrow> 'v envelope \<Rightarrow> create_room_request \<Rightarrow> bool" where
  "asks_for_room cd secret h i c rq \<longleftrightarrow>
    env_type h = ''hello'' \<and> env_type i = ''identity.initialize'' \<and> env_type c = ''room.create''
    \<and> distinct [env_id h, env_id i, env_id c]
    \<and> (case cd_hello cd (env_payload h) of Err _ \<Rightarrow> False | Ok hello \<Rightarrow>
         as_bytes (auth_token hello) = secret \<and> client hello = ''pcln'' \<and> trim (client_version hello) \<noteq> [])
    \<and> (case cd_identity cd (env_payload i) of Err _ \<Rightarrow> False | Ok k \<Rightarrow> decode_identity k \<noteq> None)
    \<and> cd_create cd (env_payload c) = Ok rq
    \<and> is_ok (validate_session_id (create_session_id rq)) \<and> is_ok (validate_loopback_address (create_lan_address rq))"

lemma identity_session:
  assumes cd: "codec_total cd" "open_writer w" and m: "message cd bh h" "message cd bi i" and o: "asks_for_room cd secret h i c rq"
    and s: "s = helper_session cd e ko version secret False [WakeRequest] (\<lparr>rx = frame_bytes bh @ frame_bytes bi @ rest, rx_end = f\<rparr>, w) fs"
  shows "tx (se_out s) = tx w
      @ answer_bytes cd (env_id h) ''hello.accepted'' (PayHelloAccepted \<lparr>helper_version = version, capabilities = CAPABILITIES\<rparr>)
      @ answer_bytes cd (env_id i) ''identity.initialized'' (PayIdentityInitialized True)"
    "se_in s = \<lparr>rx = rest, rx_end = f\<rparr>" "se_ids s = [env_id i, env_id h]" "se_identity s \<noteq> None" "open_writer (se_out s)"
    "room_st (svc_state (se_room s)) = Idle"
    "session_run cd (easytier_room_backend e) ko version secret False (WakeRequest # wks)
      (new_session (\<lparr>rx = frame_bytes bh @ frame_bytes bi @ rest, rx_end = f\<rparr>, w) (new_backend (quiet_world fs)))
      = session_loop cd (easytier_room_backend e) ko wks s"
proof -
  let ?B = "easytier_room_backend e" and ?b = "new_backend (quiet_world fs)"
  let ?s0 = "new_session (\<lparr>rx = frame_bytes bh @ frame_bytes bi @ rest, rx_end = f\<rparr>, w) ?b"
  have in0: "se_in ?s0 = \<lparr>rx = frame_bytes bh @ frame_bytes bi @ rest, rx_end = f\<rparr>" "se_out ?s0 = w"
    "se_room ?s0 = new_room_service ?b" by (simp_all add: new_session_def)
  obtain hello where hello: "cd_hello cd (env_payload h) = Ok hello" "as_bytes (auth_token hello) = secret" "client hello = ''pcln''"
    "trim (client_version hello) \<noteq> []" using o by (auto simp: asks_for_room_def split: sum.splits)
  obtain t k where key: "cd_identity cd (env_payload i) = Ok t" "decode_identity t = Some k"
    using o by (auto simp: asks_for_room_def split: sum.splits)
  let ?rh = "answer_bytes cd (env_id h) ''hello.accepted'' (PayHelloAccepted \<lparr>helper_version = version, capabilities = CAPABILITIES\<rparr>)"
  let ?s1 = "sent ?rh (?s0\<lparr>se_in := \<lparr>rx = frame_bytes bi @ rest, rx_end = f\<rparr>, se_ids := [env_id h], se_identity := None,
      se_seen := 0, se_seq := 0\<rparr>)"
  have hs: "handshake cd version secret False ?s0 = (Ok None, ?s1)"
    using handshake_sent [OF message_read [OF m(1)] _ _ _ hello cd(1), of ?s0 _ version] m(1) o cd(2) in0
    by (simp add: message_def asks_for_room_def new_room_service_def)
  let ?r2 = "answer_bytes cd (env_id i) ''identity.initialized'' (PayIdentityInitialized True)"
  let ?s2 = "sent ?r2 (?s1\<lparr>se_in := \<lparr>rx = rest, rx_end = f\<rparr>, se_ids := [env_id i, env_id h],
      se_room := initialize_identity ?B k (new_room_service ?b), se_identity := Some k\<rparr>)"
  have "session_turn cd ?B ko WakeRequest ?s1 = dispatch cd ?B ko i (?s1\<lparr>se_in := \<lparr>rx = rest, rx_end = f\<rparr>, se_ids := [env_id i, env_id h]\<rparr>)"
    using fresh_turn [OF message_read [OF m(2)], of ?s1 rest ?B ko] m(2) o
    by (auto simp: fresh_request_def message_def asks_for_room_def MAX_REQUEST_IDS_def)
  also have "\<dots> = (Ok None, ?s2)"
    using dispatch_identity_sent [OF _ key cd(1), of "?s1\<lparr>se_in := \<lparr>rx = rest, rx_end = f\<rparr>, se_ids := [env_id i, env_id h]\<rparr>" ?B ko]
      o cd(2) in0 by (simp add: asks_for_room_def)
  finally have turn: "session_turn cd ?B ko WakeRequest ?s1 = (Ok None, ?s2)" .
  have s2: "s = ?s2" unfolding s helper_session_def by (simp add: session_run_def hs turn)
  show "tx (se_out s) = tx w @ ?rh @ ?r2" "se_in s = \<lparr>rx = rest, rx_end = f\<rparr>" "se_ids s = [env_id i, env_id h]"
    "se_identity s \<noteq> None" "open_writer (se_out s)" "room_st (svc_state (se_room s)) = Idle"
    unfolding s2 using in0 cd(2) by (simp_all add: initialize_identity_def new_room_service_def idle_snapshot_def)
  show "session_run cd ?B ko version secret False (WakeRequest # wks) ?s0 = session_loop cd ?B ko wks s"
    unfolding s2 by (simp add: session_run_def hs turn)
qed

lemma hosting_session:
  assumes cd: "codec_total cd" "open_writer w" "working_env e"
    and m: "message cd bh h" "message cd bi i" "message cd bc c" and o: "asks_for_room cd secret h i c rq"
  obtains s evs snapshot host where
    "session_run cd (easytier_room_backend e) ko version secret False (WakeRequest # WakeRequest # wks)
      (new_session (\<lparr>rx = frame_bytes bh @ frame_bytes bi @ frame_bytes bc @ rest, rx_end = f\<rparr>, w) (new_backend (quiet_world fs)))
      = session_loop cd (easytier_room_backend e) ko wks s"
    "tx (se_out s) = tx w
      @ answer_bytes cd (env_id h) ''hello.accepted'' (PayHelloAccepted \<lparr>helper_version = version, capabilities = CAPABILITIES\<rparr>)
      @ answer_bytes cd (env_id i) ''identity.initialized'' (PayIdentityInitialized True)
      @ answer_bytes cd (env_id c) ''room.created'' (PaySnapshot snapshot)"
    "se_in s = \<lparr>rx = rest, rx_end = f\<rparr>" "se_ids s = [env_id c, env_id i, env_id h]" "open_writer (se_out s)"
    "create (easytier_room_backend e) rq (helper_run e ko evs fs) = (Ok snapshot, se_room s)" "svc_state (se_room s) = snapshot"
    "room_st snapshot = Connected" "role snapshot = RoleHost" "bk_session (svc_backend (se_room s)) = Some (HostActive host)"
    "validate_loopback_address (create_lan_address rq) = Ok (hs_minecraft host)"
proof -
  let ?stream = "(\<lparr>rx = frame_bytes bh @ frame_bytes bi @ frame_bytes bc @ rest, rx_end = f\<rparr>, w)"
  define s1 where "s1 = helper_session cd e ko version secret False [WakeRequest] ?stream fs"
  note s1 = identity_session [OF cd(1,2) m(1,2) o s1_def]
  obtain sid address where v: "validate_session_id (create_session_id rq) = Ok sid"
    "validate_loopback_address (create_lan_address rq) = Ok address" using o by (auto simp: asks_for_room_def is_ok_iff)
  have read: "read_frame (cd_from_slice cd) (se_in s1) = (Ok c, \<lparr>rx = rest, rx_end = f\<rparr>)"
    using message_read [OF m(3), of "se_in s1" rest] s1(2) by simp
  have fresh: "fresh_request c s1" using m(3) o s1(3) by (auto simp: fresh_request_def message_def asks_for_room_def MAX_REQUEST_IDS_def)
  have c: "env_type c = ''room.create''" "cd_create cd (env_payload c) = Ok rq" using o by (simp_all add: asks_for_room_def)
  show ?thesis
  proof (rule create_turn [OF s1_def cd(3,1) s1(5) s1(4) s1(6) read fresh c v])
    fix evs snapshot room' host
    let ?s = "sent (answer_bytes cd (env_id c) ''room.created'' (PaySnapshot snapshot))
      (s1\<lparr>se_in := \<lparr>rx = rest, rx_end = f\<rparr>, se_ids := env_id c # se_ids s1, se_room := room'\<rparr>)"
    assume "se_room s1 = helper_run e ko evs fs" "create (easytier_room_backend e) rq (se_room s1) = (Ok snapshot, room')"
      "svc_state room' = snapshot" "room_st snapshot = Connected" "role snapshot = RoleHost"
      "bk_session (svc_backend room') = Some (HostActive host)" "hs_minecraft host = address"
      "session_turn cd (easytier_room_backend e) ko WakeRequest s1 = (Ok None, ?s)"
    then show ?thesis using s1 v by (intro that [of ?s snapshot evs host]) (simp_all add: s1(7))
  qed
qed

section \<open>Runs\<close>

text \<open>Everything that comes before the session has succeeded.\<close>

definition client_accepted :: "'v unix_env \<Rightarrow> validated_args \<Rightarrow> directory \<Rightarrow> bool" where
  "client_accepted p a d \<longleftrightarrow> is_ok (make_dirs p a) \<and> is_ok (attach (ps_kill p) (val_parent_pid a))
    \<and> is_ok (fst (ipc_bind (ps_calls p) (val_ipc a) d)) \<and> is_ok (accept_client p)"

lemma run_accepted:
  assumes "client_accepted p a d" "ps_winner p = SessionWins" "ps_handshake_late p = False"
    "session_run (ps_codec p) B (ps_order p) (ps_version p) secret False (ps_wakes p) (new_session (ps_stream p) b) = (Some r, s)"
  shows "\<exists>d'. run p B b a secret d = (Some (session_exit r), s, d')"
proof -
  have "try_bind (make_dirs p a) (\<lambda>_. attach (ps_kill p) (val_parent_pid a)) = attach (ps_kill p) (val_parent_pid a)"
    using assms(1) by (auto simp: client_accepted_def is_ok_iff res_simps)
  with assms show ?thesis
    by (auto simp: client_accepted_def is_ok_iff run_def select_branches_def Let_def split: prod.splits sum.splits)
qed

section \<open>The players that a host sees\<close>

text \<open>The pings that reach the host come from refreshes of members.\<close>

definition only_probes :: "profile_codec \<Rightarrow> registry_op \<Rightarrow> bool" where
  "only_probes pc x \<longleftrightarrow> (case x of RegCleanup _ \<Rightarrow> True
    | RegRequest _ q \<Rightarrow> req_type q = ''c:player_ping'' \<longrightarrow>
        (case pc_profile_from pc (req_body q) of Err _ \<Rightarrow> False | Ok p \<Rightarrow> \<exists>s. p = probe_profile s))"

lemma probe_valid: "profile_validate (probe_profile s)"
proof -
  have "unat s < 10 ^ Suc 19" using unsigned_less [of s, where 'a = nat] by simp
  then have "length (dec (unat s)) \<le> 20" by (drule_tac dec_length) simp
  moreover have v: "list_all (\<lambda>c. 33 \<le> code c \<and> code c < 127) (''probe-'' @ dec (unat s))" using dec_visible by simp
  ultimately have "valid_text (''probe-'' @ dec (unat s)) 128"
    unfolding valid_text_def trim_visible [OF v] using control_visible [OF v] by simp
  moreover have "valid_text ''Probe'' 64" "valid_text ''PCL N Terracotta'' 256" by (simp_all add: valid_text_def str_eval)
  ultimately show ?thesis by (simp add: profile_validate_def probe_profile_def)
qed

lemma probe_id: "machine_id (probe_profile s) \<noteq> machine_id_from_identity sha k"
proof
  assume "machine_id (probe_profile s) = machine_id_from_identity sha k"
  then have "list_all is_lower_hex (''probe-'' @ dec (unat s))"
    using hex_encode_lower [of "take 16 (sha k)"] by (simp add: probe_profile_def machine_id_from_identity_def)
  then have "is_lower_hex (CHR ''p'')" by simp
  then show False by (simp add: str_eval)
qed

lemma probe_no_ping: "only_probes pc x \<Longrightarrow> \<not> pings pc (machine_id_from_identity sha k) x"
  using probe_id by (cases x) (auto simp: only_probes_def pings_def split: sum.splits)

text \<open>The list of the players shows the probes of a member and not the member. A member introduces itself once, when it joins at \<open>t0\<close>; its
  later pings are those of its refreshes, which use a profile of their own. So at every clean-up more than ten seconds later
  the player is gone, and what a refresh has just registered instead is a guest with the name Probe.\<close>

theorem probes_displace_the_player:
  assumes registry: "registry_ok (host_profile e hk) ctx" and guest: "profile_validate (guest_profile e k)"
      "machine_id (guest_profile e k) \<noteq> machine_id (host_profile e hk)"
    and xs: "list_all (only_probes pc) xs" and body: "pc_profile_from pc body = Ok (probe_profile s)" and now: "t0 + PLAYER_TIMEOUT < now"
  shows "let joined = snd (record_guest t0 (guest_profile e k) ctx);
      listed = player_profiles (run_ops (registry_step pc)
        (xs @ [RegRequest now \<lparr>req_type = ''c:player_ping'', req_body = body\<rparr>, RegCleanup now]) joined) in
    guest_profile e k \<in> set (player_profiles joined)
    \<and> machine_id (guest_profile e k) \<notin> machine_id ` set listed \<and> probe_profile s \<in> set listed"
proof -
  let ?g = "guest_profile e k" and ?q = "RegRequest now \<lparr>req_type = ''c:player_ping'', req_body = body\<rparr>"
  define joined where "joined = snd (record_guest t0 ?g ctx)"
  have kinds: "?g\<lparr>player_kind_of := Some KindGuest\<rparr> = ?g" "(probe_profile s)\<lparr>player_kind_of := Some KindGuest\<rparr> = probe_profile s"
    by (simp_all add: guest_profile_def probe_profile_def)
  have ok: "registry_ok (host_profile e hk) joined" unfolding joined_def by (rule registry_ok_record [OF registry])
  have host: "host_machine_id c = machine_id (host_profile e hk)" if "registry_ok (host_profile e hk) c" for c
    using that by (simp add: registry_ok_def)
  have entry: "map_of (players joined) (machine_id ?g) = Some \<lparr>tp_profile = ?g, last_seen = t0\<rparr>"
    using guest by (simp add: joined_def record_guest_lookup host [OF registry] kinds)
  let ?c = "run_ops (registry_step pc) xs joined"
  let ?d = "run_ops (registry_step pc) (xs @ [?q, RegCleanup now]) joined"
  have okc: "registry_ok (host_profile e hk) ?c" and okd: "registry_ok (host_profile e hk) ?d"
    using registry.inv_run [OF ok] by blast+
  have "only_probes pc ?q" using body by (auto simp: only_probes_def)
  then have "\<forall>x \<in> set (xs @ [?q]). \<not> pings pc (machine_id ?g) x"
    using xs by (auto simp: list_all_iff guest_profile_def dest!: probe_no_ping)
  from guest_expires [OF ok guest(2) _ this now] entry
  have "machine_id ?g \<notin> fst ` set (players ?d)" by simp
  moreover have "machine_id (tp_profile t) = i" if "(i, t) \<in> set (players ?d)" for i t
    using registry_entry [OF okd that] by blast
  ultimately have "machine_id ?g \<notin> machine_id ` set (player_profiles ?d)"
    by (force simp: set_player_profiles)
  moreover have "probe_profile s \<in> set (player_profiles ?d)"
  proof -
    let ?p = "\<lparr>tp_profile = probe_profile s, last_seen = now\<rparr>"
    have "machine_id (probe_profile s) \<noteq> host_machine_id ?c" using probe_id by (simp add: host [OF okc] host_profile_def)
    then have "map_of (players (registry_step pc ?q ?c)) (machine_id (probe_profile s)) = Some ?p"
      using probe_valid by (simp add: answer_request_registry body record_guest_lookup kinds)
    then have "map_of (players ?d) (machine_id (probe_profile s)) = Some ?p"
      using remove_stale_lookup [of "registry_step pc ?q ?c" now] registry.inv_step [OF okc, of pc ?q]
      by (simp add: run_ops_append registry_ok_def del: registry_step.simps(1))
    then show ?thesis by (force simp: set_player_profiles dest: map_of_SomeD)
  qed
  moreover have "?g \<in> set (player_profiles joined)" using entry by (force simp: set_player_profiles dest: map_of_SomeD)
  ultimately show ?thesis by (simp add: Let_def joined_def)
qed

section \<open>An example\<close>

text \<open>
  A launcher whose requests are named by their first letter, as in \<open>sample_codec\<close>, with a request to shut down and a token of the
  length that the bootstrap asks for.
\<close>

abbreviation sample_token :: string where
  "sample_token \<equiv> replicate 64 (CHR ''a'')"

definition talk_request :: "string \<Rightarrow> string envelope" where
  "talk_request rid = \<lparr>env_protocol = PROTOCOL_VERSION, env_id = rid,
     env_type = (if take 1 rid = ''h'' then ''hello'' else if take 1 rid = ''i'' then ''identity.initialize''
       else if take 1 rid = ''s'' then ''shutdown'' else ''room.create''), env_payload = []\<rparr>"

definition talk_codec :: "string codec" where
  "talk_codec = sample_codec\<lparr>cd_from_slice := \<lambda>bs. Ok (talk_request (string_of_bytes bs)),
     cd_hello := \<lambda>_. Ok \<lparr>auth_token = sample_token, client = ''pcln'', client_version = ''1''\<rparr>\<rparr>"

definition talk_arguments :: args where
  "talk_arguments = \<lparr>arg_ipc = CHR ''/'' # ''terracotta-'' @ replicate 32 (CHR ''a'') @ ''.sock'', arg_parent_pid = 5,
     arg_data_dir = ''/d'', arg_log_dir = ''/l'', arg_protocol_version = PROTOCOL_VERSION\<rparr>"

definition talk_args :: validated_args where
  "talk_args = \<lparr>val_ipc = CHR ''/'' # ''terracotta-'' @ replicate 32 (CHR ''a'') @ ''.sock'', val_parent_pid = 5,
     val_data_dir = ''/d'', val_log_dir = ''/l''\<rparr>"

definition talk_writer :: writer where
  "talk_writer = \<lparr>tx = [], tx_quota = None, tx_error = IoError NotConnected [], tx_flush = None\<rparr>"

definition talk_process :: "bytes \<Rightarrow> string unix_env" where
  "talk_process input = sample_process\<lparr>ps_winner := SessionWins, ps_handshake_late := False, ps_codec := talk_codec,
     ps_wakes := [WakeRequest, WakeRequest, WakeRequest], ps_stream := (\<lparr>rx = input, rx_end = None\<rparr>, talk_writer)\<rparr>"

lemma talk_codec_total: "codec_total talk_codec"
  using sample_codec_total by (simp add: codec_total_def talk_codec_def)

lemma talk_messages:
  "message talk_codec (as_bytes ''h1'') (talk_request ''h1'')" "message talk_codec (as_bytes ''i2'') (talk_request ''i2'')"
  "message talk_codec (as_bytes ''c3'') (talk_request ''c3'')" "message talk_codec (as_bytes ''s4'') (talk_request ''s4'')"
  by (simp_all add: message_def talk_codec_def sample_body_ok talk_request_def valid_request_id_def str_eval)
    (simp_all add: body_ok_def as_bytes_def MAX_FRAME_SIZE_def)

lemma talk_asks: "asks_for_room talk_codec (as_bytes sample_token) (talk_request ''h1'') (talk_request ''i2'') (talk_request ''c3'') sample_create"
  by (simp add: asks_for_room_def talk_codec_def sample_codec_simps talk_request_def live_request decode_identity_def decode_pairs_hex str_eval)

lemma talk_start: "validate talk_arguments = Ok talk_args"
  "read_from \<lparr>rx = as_bytes sample_token, rx_end = None\<rparr> = Ok (as_bytes sample_token)"
proof -
  have "path_file_name (arg_ipc talk_arguments) = Some (''terracotta-'' @ replicate 32 (CHR ''a'') @ ''.sock'')"
    by code_simp
  moreover have "is_hex_nonce (replicate 32 (CHR ''a'')) 32" by code_simp
  ultimately have "validate_ipc_endpoint (arg_ipc talk_arguments) = Ok ()"
    unfolding validate_ipc_endpoint_Ok_iff by (auto simp: path_is_absolute_def talk_arguments_def)
  then show "validate talk_arguments = Ok talk_args"
    unfolding validate_Ok_cond by (simp add: path_is_absolute_def talk_arguments_def talk_args_def)
  show "read_from \<lparr>rx = as_bytes sample_token, rx_end = None\<rparr> = Ok (as_bytes sample_token)"
    by (simp add: read_from_Ok_iff as_bytes_def list_all_iff) code_simp
qed

lemma talk_accepted: "client_accepted (talk_process input) talk_args (\<lambda>_. None)"
  by (simp add: client_accepted_def talk_process_def sample_process_def talk_args_def make_dirs_def attach_def is_unix_process_alive_def
      ipc_bind_def accept_client_def ipc_accept_def res_simps)

lemma talk_process_simps [simp]:
  "ps_winner (talk_process x) = SessionWins" "ps_handshake_late (talk_process x) = False" "ps_codec (talk_process x) = talk_codec"
  "ps_wakes (talk_process x) = [WakeRequest, WakeRequest, WakeRequest]"
  "ps_stream (talk_process x) = (\<lparr>rx = x, rx_end = None\<rparr>, talk_writer)"
  by (simp_all add: talk_process_def)

lemma talk_writer_open: "open_writer talk_writer"
  by (simp add: talk_writer_def open_writer_def)

section \<open>Properties\<close>







end
