(* ===== verification/Spec2Isabelle.thy ===== *)
theory Spec2Isabelle
  imports Framing Bootstrap_Cli Mesh Room_Service Ipc_Session Scaffolding_Listener Conversation
begin

text \<open>
  A verification library for the Terracotta Helper, the native process beside the PCL N launcher that opens
  and joins Minecraft rooms over an EasyTier mesh. All paths below are under
  \<open>src/src/Terracotta.Helper/src/\<close>.

  \<^bold>\<open>The program.\<close> The launcher starts the helper with a command line (\<open>cli.rs\<close>), a secret on standard input
  (\<open>bootstrap.rs\<close>) and the name of a socket or, on Windows, a pipe (\<open>ipc/unix.rs\<close>, \<open>ipc/windows.rs\<close>). \<open>lib.rs\<close> waits for one client there and runs the IPC session
  (\<open>ipc/session.rs\<close>, frames of \<open>protocol/framing.rs\<close>) until it ends, the parent process exits (\<open>platform/parent.rs\<close>) or a
  signal arrives; \<open>main.rs\<close> turns the result into an exit status (\<open>error.rs\<close>). The session passes requests to the room
  service (\<open>room/service.rs\<close>, events of \<open>room/events.rs\<close>), a state machine over a backend. The production backend
  (\<open>network/backend.rs\<close>) derives credentials and ports from the room code (\<open>network/credentials.rs\<close>, \<open>network/mesh.rs\<close>), runs EasyTier as a
  child (\<open>network/easytier.rs\<close>), serves or contacts the scaffolding protocol (\<open>scaffolding/\<close>), forwards ports and
  announces the game on the LAN (\<open>network/port_forward.rs\<close>, \<open>network/minecraft_broadcast.rs\<close>), finds hosts of the same machine through files
  (\<open>network/discovery.rs\<close>) and samples the quality of the connection (\<open>network/quality.rs\<close>, \<open>network/easytier_cli.rs\<close>).

  \<^bold>\<open>Foundations.\<close>
  \<^item> \<open>Prelude\<close>: results as sums (\<open>Ok\<close>, \<open>Err\<close>), sequencing of stateful results (\<open>and_then\<close>) with the rules of \<open>ensures\<close>
    (what holds after a failure and after a success), byte order, streams, and the interfaces \<open>invariant_machine\<close> (a machine whose
    operations keep an invariant) and \<open>framed_channel\<close> (self-delimiting messages).
  \<^item> \<open>Rust_Str\<close>, \<open>F64\<close>, \<open>Socket_Addr\<close>: the parts of the standard library that the program uses on strings (UTF-8), on 64-bit
    floats (parsing and arithmetic with rounding) and on socket addresses; interface \<open>loopback_validator\<close>.
  \<^item> \<open>Os_Files\<close>, \<open>Os_Net\<close>: files with faults, and the sockets, child processes and senders that the process holds. \<open>holds\<close> says that the
    world has exactly the given resources. Time is a counter of the interactions with the system.
  \<^item> \<open>Windows_Api\<close>: UTF-16, and the handles, pipes and blocks of local memory of the Win32 interface. \<open>win_holds\<close> says that exactly the given
    ones are held and that nothing was released twice, used after its release or read past its end.

  \<^bold>\<open>Components.\<close>
  \<^item> \<open>Framing\<close>, \<open>Bootstrap_Cli\<close>: frames (round trip, bounds, truncation), the errors with their exit codes, the secret and the command line.
  \<^item> \<open>Room_Types\<close>, \<open>Credentials\<close>, \<open>Mesh\<close>: data, room codes (interface \<open>room_code_normalizer\<close>), names, secrets and ports.
  \<^item> \<open>Room_Service\<close>: every method of the service as a function of its state over an arbitrary backend (\<open>room_backend\<close>, a record of
    functions), the invariant of all reachable states, the lifecycle, the outcome of each operation, the events of a poll.
  \<^item> \<open>Ipc_Session\<close>: handshake, request handler and loop. A wake-up is a request, a timer tick or an event, with the number of
    bytes of a partly read request that a tick or an event drops; theorems hold for every sequence of wake-ups.
  \<^item> \<open>Scaffolding\<close>, \<open>Scaffolding_Server\<close>, \<open>Scaffolding_Client\<close>, \<open>Scaffolding_Listener\<close>: frames, the registry of players, one connection, the
    client over an arbitrary peer and over the modelled server, and the accept loop with many connections, which refines the registry.
  \<^item> \<open>Discovery\<close>, \<open>Quality\<close>, \<open>EasyTier_Cli\<close>, \<open>EasyTier\<close>, \<open>Port_Forward\<close>: the advertisement files, the status made from probes, the peer table,
    the EasyTier command and process, forwards and broadcast.
  \<^item> \<open>Backend\<close>: all operations of the production backend. What the system and the peers answer is the record \<open>backend_env\<close> of functions
    of the time, so a theorem for all such records covers every behaviour. \<open>Backend_Inv\<close> shows for every piece what it holds after a
    failure and after a success.
  \<^item> \<open>Service_Backend\<close>: the interface \<open>session_backend\<close>, what the service relies on in a backend, with the proof that a service
    on such a backend never disagrees with it. \<open>Backend_System\<close> interprets it with the production backend and shows the invariants of every
    reachable state of the two together, with the players' requests and other processes' changes of files in between.
    \<open>Backend_Live\<close> shows that hosting and joining on one machine succeed when nothing fails, and how leaving and moving a room end.
    \<open>Mesh_Join\<close> takes two machines: the EasyTier commands of a host and of a guest that share only the room code make a route
    from the guest's local address to the host's game.
  \<^item> \<open>Parent_Guard\<close>: the guard of both platforms; interface \<open>poll_loop\<close>, what a loop that asks until it gets an answer returns.
  \<^item> \<open>Windows_Pipe\<close>: the named pipe with its security descriptor and the random source of Windows.
  \<^item> \<open>Helper_Process\<close>: the Unix socket, the run with its \<open>select!\<close> and the exit status, on both platforms.
  \<^item> \<open>Conversation\<close>: the launcher's side of all components at once, from the bytes of a request to the bytes of its answer: the
    session and the backend always hold the same key, a valid request to host is served in every session on a system on which nothing fails, and
    the whole run of a launcher that opens a room and shuts down, or that disconnects and leaves the advertisement behind; and
    how the probes of a member take its place in the host's list of players.
  \<^item> This theory: the properties of the whole process.

  \<^bold>\<open>Code outside the repository\<close> is an argument: \<open>serde_json\<close> (encoders and decoders), SHA-256 and HMAC, the random source, the clocks,
  \<open>clap\<close>, EasyTier and its tool, the kernel. Where a theorem relies on one of them, the reliance is a hypothesis (a decoder
  inverts its encoder, a digest has 32 bytes), and a witness instantiates it.

  \<^bold>\<open>Loops.\<close> Loops over data are structural recursions; the polling loops of \<open>join\<close> recurse on their number of attempts (8 and 40,
  the constants of the code); the serving loops consume a list of events, and theorems quantify over all lists; waiting for the
  parent is a partial function whose value None means that it waits forever, with the exact condition under which it returns.

  \<^bold>\<open>Not modelled.\<close> Of the Win32 calls only the outcome and the resources are modelled, not the layout of the structures behind the pointers. The bytes that a forward copies, log output, the zeroing of memory and the delays between attempts have no effect on the state that
  is described. A dropped or aborted task is gone at once, where the runtime needs a moment. The launcher plugin is another program in another
  language.
\<close>

section \<open>The whole process\<close>

text \<open>On both platforms the room behind the session is one that the service's own operations lead to.\<close>

lemma select_room:
  "\<exists>ops. se_room (snd (select_branches p B secret gone (new_session stream b)))
    = run_ops (service_step B (ps_order p)) ops (new_room_service b)"
  using session_run_room [of "ps_codec p" B "ps_order p" "ps_version p" secret "ps_handshake_late p" "ps_wakes p" "new_session stream b"]
  by (simp add: select_session new_session_def)

lemma new_session_room:
  "\<exists>ops. se_room (new_session stream b) = run_ops (service_step B ko) ops (new_room_service b)"
  by (rule exI [of _ "[]"]) (simp add: new_session_def)

lemma run_room:
  "\<exists>ops. se_room (fst (snd (run p B b a secret d))) = run_ops (service_step B (ps_order p)) ops (new_room_service b)"
proof -
  let ?s = "new_session (ps_stream p) b"
  have "fst (snd (run p B b a secret d)) \<in> {?s, snd (select_branches p B secret (wait_for_exit (ps_kill p) 1) ?s)}"
    by (auto simp: run_def Let_def split: sum.split option.split prod.split)
  with select_room [of p B secret "wait_for_exit (ps_kill p) 1" "ps_stream p" b] new_session_room [of "ps_stream p" b B "ps_order p"]
  show ?thesis by auto
qed

lemma run_windows_room:
  "\<exists>ops. se_room (fst (snd (run_windows p B b a secret w))) = run_ops (service_step B (ps_order p)) ops (new_room_service b)"
proof -
  let ?s = "new_session (ps_stream p) b"
  have "fst (snd (run_windows p B b a secret w)) \<in> {?s, snd (select_branches p B secret (wait_windows (ps_process p) 0) ?s)}"
    by (auto simp: run_windows_def serve_windows_def Let_def split: sum.split option.split prod.split)
  with select_room [of p B secret "wait_windows (ps_process p) 0" "ps_stream p" b] new_session_room [of "ps_stream p" b B "ps_order p"]
  show ?thesis by auto
qed

lemma session_processes:
  assumes "session_ok e active w"
  shows "case active of None \<Rightarrow> nw_listeners w = [] \<and> nw_processes w = [] \<and> nw_senders w = []
    | Some _ \<Rightarrow> length (nw_processes w) = 1"
proof (cases active)
  case (Some a)
  with assms show ?thesis
    by (cases a) (auto simp: holds_def host_holds_def host_holds_rest_def member_holds_def)
qed (use assms in \<open>simp add: holds_def\<close>)

text \<open>The service reports a room exactly while the backend runs one, and without one nothing of the network is held.\<close>

definition room_tracked :: "backend_state room_service \<Rightarrow> bool" where
  "room_tracked sv \<longleftrightarrow>
    (let st = svc_state sv; b = svc_backend sv; w = bk_world b in
       active_role b = (if room_st st = Connected \<or> room_st st = Reconnecting then Some (role st) else None)
       \<and> (case bk_session b of
             None \<Rightarrow> nw_listeners w = [] \<and> nw_processes w = [] \<and> nw_senders w = []
           | Some _ \<Rightarrow> length (nw_processes w) = 1))"

lemma operations_tracked:
  assumes "\<exists>ops. sv = run_ops (service_step (easytier_room_backend e) ko) ops (new_room_service (new_backend (quiet_world fs)))"
  shows "room_tracked sv"
proof -
  obtain ops where room: "sv = helper_run e ko (map ServiceCall ops) fs"
    using assms by (auto simp: helper_run_def run_ops_service_calls)
  have agrees: "easytier_backend.agrees e sv" unfolding room by (rule helper_agrees)
  then have "session_ok e (bk_session (svc_backend sv)) (bk_world (svc_backend sv))"
    by (simp add: easytier_backend.agrees_def backend_ok_def)
  from session_processes [OF this] agrees show ?thesis
    unfolding room_tracked_def Let_def by (simp add: easytier_backend.agrees_def)
qed


end
